theory Spec2Isabelle
  imports Complex_Main "HOL-Library.Word"
begin

unbundle bit_operations_syntax

section \<open>Machine types and C idioms\<close>

text \<open>
  The emulator is one C file, \<^verbatim>\<open>adventure_vision.c\<close>. Its fixed-width integers are
  words; a C \<^verbatim>\<open>int\<close> that only counts (cycles of a frame, column numbers, step cursors)
  is an \<open>int\<close>. Arrays are functions from the index; every index the code uses is
  masked or guarded in the source, and the guard is part of the model.
\<close>

type_synonym u8 = "8 word"
type_synonym u16 = "16 word"
type_synonym u32 = "32 word"
type_synonym u64 = "64 word"

text \<open>
  A C \<^verbatim>\<open>float\<close> of the sound engine can be loaded from a snapshot, so it may be an
  infinity or a NaN. A finite value is modelled by a real: a value read from a snapshot
  by the real it is, a decimal literal of a sound table by the literal (the \<^verbatim>\<open>float\<close> is
  the binary32 number nearest to it), and the sums and products that build the steps of
  an effect are exact. \<open>FInf True\<close> is the negative infinity.
\<close>

datatype cfloat = FNum real | FInf bool | FNaN

definition isfinite :: "cfloat \<Rightarrow> bool" where
  "isfinite x = (case x of FNum r \<Rightarrow> True | FInf s \<Rightarrow> False | FNaN \<Rightarrow> False)"

definition f_lt :: "cfloat \<Rightarrow> real \<Rightarrow> bool" where
  "f_lt x k = (case x of FNum r \<Rightarrow> r < k | FInf s \<Rightarrow> s | FNaN \<Rightarrow> False)"

definition f_gt :: "cfloat \<Rightarrow> real \<Rightarrow> bool" where
  "f_gt x k = (case x of FNum r \<Rightarrow> k < r | FInf s \<Rightarrow> \<not> s | FNaN \<Rightarrow> False)"

definition f_le :: "cfloat \<Rightarrow> real \<Rightarrow> bool" where
  "f_le x k = (case x of FNum r \<Rightarrow> r \<le> k | FInf s \<Rightarrow> s | FNaN \<Rightarrow> False)"

text \<open>The conversion \<^verbatim>\<open>(int)x\<close> of a real truncates towards zero.\<close>

definition c_trunc :: "real \<Rightarrow> int" where
  "c_trunc r = (if 0 \<le> r then \<lfloor>r\<rfloor> else \<lceil>r\<rceil>)"

text \<open>
  The arithmetic of \<^verbatim>\<open>float\<close> on finite values: the exact result is rounded to the
  nearest binary32 number, a tie to the one with an even significand. The binary32
  numbers around \<open>x\<close> are the multiples of \<open>f32_ulp x\<close>, which is \<open>2 ^ (e - 23)\<close> for
  \<open>2 ^ e \<le> \<bar>x\<bar> < 2 ^ (e + 1)\<close> and \<open>2 ^ -149\<close> below \<open>2 ^ -125\<close>; \<open>f32_ulp_exp\<close> searches
  the exponent upwards from \<open>2 ^ -149\<close>, and stops at the largest exponent of the format.
  A result beyond the largest binary32 number is an infinity in C; the model is used
  only where the values stay in [0,1].
\<close>

fun f32_ulp_exp :: "nat \<Rightarrow> nat \<Rightarrow> real \<Rightarrow> nat" where
  "f32_ulp_exp 0 n x = n"
| "f32_ulp_exp (Suc fuel) n x =
     (if \<bar>x\<bar> * 2 ^ 149 < 2 ^ (n + 24) then n else f32_ulp_exp fuel (Suc n) x)"

definition f32_ulp :: "real \<Rightarrow> real" where
  "f32_ulp x = 2 ^ f32_ulp_exp 253 0 x / 2 ^ 149"

definition round_even :: "real \<Rightarrow> int" where
  "round_even y =
     (let f = \<lfloor>y\<rfloor>
      in if y - of_int f < 1 / 2 then f
         else if 1 / 2 < y - of_int f then f + 1
         else if even f then f else f + 1)"

definition f32_round :: "real \<Rightarrow> real" where
  "f32_round x = of_int (round_even (x / f32_ulp x)) * f32_ulp x"

text \<open>\<^verbatim>\<open>a * b\<close> on two \<^verbatim>\<open>float\<close> operands.\<close>

definition f32_mul :: "real \<Rightarrow> real \<Rightarrow> real" where
  "f32_mul a b = f32_round (a * b)"

text \<open>
  The \<^verbatim>\<open>float\<close> literals of the display: \<^verbatim>\<open>0.01f\<close> is \<open>10737418 / 2 ^ 30\<close>, a little
  below 0.01, and \<^verbatim>\<open>0.45f\<close> is \<open>15099494 / 2 ^ 25\<close>, a little below 0.45.
\<close>

definition FLT_0_01 :: real where "FLT_0_01 = 5368709 / 536870912"
definition DEF_PHOSPHOR :: real where "DEF_PHOSPHOR = 15099494 / 33554432"

text \<open>The loop \<^verbatim>\<open>for (i = lo; i < n; i++) body\<close>, on the state the body updates.\<close>

function c_for :: "int \<Rightarrow> int \<Rightarrow> (int \<Rightarrow> 's \<Rightarrow> 's) \<Rightarrow> 's \<Rightarrow> 's" where
  "c_for i n body s = (if i < n then c_for (i + 1) n body (body i s) else s)"
  by pat_completeness auto
termination
  by (relation "measure (\<lambda>(i, n, body, s). nat (n - i))") auto

declare c_for.simps [simp del]

section \<open>Configuration constants\<close>

definition CYCLES_PER_FR :: int where "CYCLES_PER_FR = 48889"
definition SW :: int where "SW = 150"
definition SH :: int where "SH = 40"
definition XRAM_SZ :: int where "XRAM_SZ = 1024"
definition MAX_SND_STEPS :: int where "MAX_SND_STEPS = 16"
definition AUDIO_RATE :: int where "AUDIO_RATE = 44100"
definition REWIND_FRAMES :: int where "REWIND_FRAMES = 120"
definition DISP_OUTPUT_CYCLES :: int where "DISP_OUTPUT_CYCLES = 2550"

section \<open>Display\<close>

text \<open>
  \<^verbatim>\<open>AVDisp\<close>: the phosphor buffer (one value per LED position, index \<open>x + y * SW\<close>),
  the per-column snapshot \<^verbatim>\<open>col_data[SW][5]\<close>, the five LED registers and the column
  counter. Phosphor values and the decay constant are never read from a snapshot: they
  are finite binary32 numbers, modelled as the reals they are.
\<close>

record AVDisp =
  phosphor :: "int \<Rightarrow> real"
  col_data :: "int \<Rightarrow> int \<Rightarrow> u8"
  cols_captured :: int
  led_reg :: "int \<Rightarrow> u8"
  led_col :: int
  led_active :: bool

text \<open>\<^verbatim>\<open>d->col_data[col][i] = v\<close>\<close>

definition set_col_data :: "int \<Rightarrow> int \<Rightarrow> u8 \<Rightarrow> AVDisp \<Rightarrow> AVDisp" where
  "set_col_data col i v d = d\<lparr>col_data := (col_data d)(col := (col_data d col)(i := v))\<rparr>"

text \<open>
  \<^verbatim>\<open>disp_capture_column\<close>: the unsigned comparison \<^verbatim>\<open>(unsigned)col >= (unsigned)SW\<close>
  rejects negative and too large columns alike.
\<close>

definition disp_capture_column :: "AVDisp \<Rightarrow> (nat \<Rightarrow> u8) \<Rightarrow> int \<Rightarrow> AVDisp" where
  "disp_capture_column d xram col =
     (if \<not> (0 \<le> col \<and> col < SW) then d
      else
        let bank = 1 + col div 50;
            offset = 6 + (col mod 50) * 5;
            base = bank * 256 + offset;
            d1 = (if base + 4 < XRAM_SZ
                  then c_for 0 5 (\<lambda>i. set_col_data col i (xram (nat (base + i)))) d
                  else d)
        in if col \<ge> cols_captured d1 then d1\<lparr>cols_captured := col + 1\<rparr> else d1)"

text \<open>\<^verbatim>\<open>led_reg_decode\<close>: P2 bits 5 to 7 select an LED register; \<open>-1\<close> is "none".\<close>

definition led_reg_decode :: "u8 \<Rightarrow> int" where
  "led_reg_decode p2 =
     (let sel = drop_bit 5 p2 AND 7 in
      if sel = 4 then 0
      else if sel = 2 then 1
      else if sel = 6 then 2
      else if sel = 1 then 3
      else if sel = 5 then 4
      else -1)"

text \<open>\<^verbatim>\<open>disp_latch_led_column\<close>, called on a rising edge of P2.4.\<close>

definition disp_latch_led_column :: "AVDisp \<Rightarrow> AVDisp" where
  "disp_latch_led_column d =
     (let col = led_col d;
          d1 = (if col \<ge> 0 \<and> col < SW
                then
                  let d2 = c_for 0 5 (\<lambda>i d'. set_col_data col i (led_reg d' i) d') d
                  in if col \<ge> cols_captured d2 then d2\<lparr>cols_captured := col + 1\<rparr> else d2
                else d)
      in d1\<lparr>led_col := led_col d1 + 1, led_active := True\<rparr>)"

text \<open>
  \<^verbatim>\<open>disp_update\<close>, the end-of-frame update: the decay loop, then the loop over the
  captured columns (at most \<open>SW\<close> of them), their five bytes and eight bits each. One
  pass of the decay loop is \<^verbatim>\<open>phosphor[i] *= decay\<close>, a binary32 product, and
  \<^verbatim>\<open>if (phosphor[i] < 0.01f) phosphor[i] = 0.0f\<close>.
\<close>

definition decay_px :: "real \<Rightarrow> int \<Rightarrow> AVDisp \<Rightarrow> AVDisp" where
  "decay_px decay i d =
     (let v = f32_mul (phosphor d i) decay
      in d\<lparr>phosphor := (phosphor d)(i := (if v < FLT_0_01 then 0 else v))\<rparr>)"

definition light_bit :: "int \<Rightarrow> int \<Rightarrow> u8 \<Rightarrow> int \<Rightarrow> AVDisp \<Rightarrow> AVDisp" where
  "light_bit col bi val b d =
     (let y = (4 - bi) * 8 + (7 - b)
      in if \<not> (0 \<le> y \<and> y < SH) then d
         else if \<not> bit val (nat b) then d\<lparr>phosphor := (phosphor d)(col + y * SW := 1)\<rparr>
         else d)"

definition light_byte :: "int \<Rightarrow> int \<Rightarrow> AVDisp \<Rightarrow> AVDisp" where
  "light_byte col bi d = (let val = col_data d col bi in c_for 0 8 (light_bit col bi val) d)"

definition update_cols :: "AVDisp \<Rightarrow> int" where
  "update_cols d = (let cols = cols_captured d in if cols > SW then SW else cols)"

definition disp_update :: "AVDisp \<Rightarrow> real \<Rightarrow> AVDisp" where
  "disp_update d decay =
     (let d1 = c_for 0 (SW * SH) (decay_px decay) d;
          cols = update_cols d1;
          d2 = c_for 0 cols (\<lambda>col. c_for 0 5 (light_byte col)) d1
      in d2\<lparr>cols_captured := 0\<rparr>)"

section \<open>Intel 8048 CPU state\<close>

text \<open>
  \<^verbatim>\<open>I8048\<close>. The memories are \<^verbatim>\<open>iram[64]\<close>, \<^verbatim>\<open>irom[1024]\<close>, \<^verbatim>\<open>erom[4096]\<close> and
  \<^verbatim>\<open>xram[1024]\<close>; the source masks every index to the array's size.
\<close>

record I8048 =
  A :: u8
  PC :: u16
  PSW :: u8
  SP :: u8
  MB :: bool
  C :: bool
  AC :: bool
  F0 :: bool
  F1 :: bool
  BS :: bool
  timer :: u8
  timer_en :: bool
  counter_en :: bool
  timer_ovf :: bool
  tcnti_en :: bool
  t0 :: bool
  t1 :: bool
  P1 :: u8
  P2 :: u8
  BUS :: u8
  irq_en :: bool
  irq_pend :: bool
  in_irq :: bool
  ei_delay :: u8
  iram :: "nat \<Rightarrow> u8"
  irom :: "nat \<Rightarrow> u8"
  erom :: "nat \<Rightarrow> u8"
  xram :: "nat \<Rightarrow> u8"
  cycles :: u64
  tpre :: int

text \<open>\<^verbatim>\<open>memset(&cpu, 0, sizeof(I8048))\<close>\<close>

definition cpu_zero :: I8048 where
  "cpu_zero = \<lparr> A = 0, PC = 0, PSW = 0, SP = 0, MB = False, C = False, AC = False,
     F0 = False, F1 = False, BS = False, timer = 0, timer_en = False, counter_en = False,
     timer_ovf = False, tcnti_en = False, t0 = False, t1 = False, P1 = 0, P2 = 0, BUS = 0,
     irq_en = False, irq_pend = False, in_irq = False, ei_delay = 0,
     iram = (\<lambda>i. 0), irom = (\<lambda>i. 0), erom = (\<lambda>i. 0), xram = (\<lambda>i. 0),
     cycles = 0, tpre = 0 \<rparr>"

text \<open>\<^verbatim>\<open>R(c, r)\<close> is a pointer into \<^verbatim>\<open>iram\<close>; the model keeps its index.\<close>

definition R :: "I8048 \<Rightarrow> u8 \<Rightarrow> nat" where
  "R c r = (if BS c then 24 else 0) + unat (r AND 7)"

definition getR :: "I8048 \<Rightarrow> u8 \<Rightarrow> u8" where
  "getR c r = iram c (R c r)"

definition setR :: "u8 \<Rightarrow> u8 \<Rightarrow> I8048 \<Rightarrow> I8048" where
  "setR r v c = c\<lparr>iram := (iram c)(R c r := v)\<rparr>"

text \<open>Internal RAM through \<^verbatim>\<open>@R0/@R1\<close>: the index \<^verbatim>\<open>*R(c,op&1) & (IRAM_SZ-1)\<close>.\<close>

definition Ri :: "I8048 \<Rightarrow> u8 \<Rightarrow> nat" where
  "Ri c op = unat (getR c (op AND 1) AND 63)"

definition bpsw :: "I8048 \<Rightarrow> I8048" where
  "bpsw c = c\<lparr>PSW := push_bit 7 (of_bool (C c)) OR push_bit 6 (of_bool (AC c))
                   OR push_bit 5 (of_bool (F0 c)) OR push_bit 4 (of_bool (BS c))
                   OR (SP c AND 7)\<rparr>"

definition push8 :: "I8048 \<Rightarrow> I8048" where
  "push8 c =
     (let a = 8 + SP c * 2;
          c1 = c\<lparr>iram := (iram c)(unat (a AND 63) := ucast (PC c AND 0xFF))\<rparr>;
          c2 = c1\<lparr>iram := (iram c1)(unat ((a + 1) AND 63) :=
                  (ucast (drop_bit 8 (PC c1)) AND 0x0F) OR (PSW c1 AND 0xF0))\<rparr>
      in c2\<lparr>SP := (SP c2 + 1) AND 7\<rparr>)"

definition pop_pc :: "I8048 \<Rightarrow> I8048" where
  "pop_pc c =
     (let c1 = c\<lparr>SP := (SP c - 1) AND 7\<rparr>;
          a = 8 + SP c1 * 2
      in c1\<lparr>PC := ucast (iram c1 (unat (a AND 63)))
                  OR push_bit 8 (ucast (iram c1 (unat ((a + 1) AND 63)) AND 0x0F))\<rparr>)"

text \<open>The flags \<^verbatim>\<open>C, AC, F0, BS\<close> as unpacked from a PSW byte.\<close>

definition unpack_psw :: "I8048 \<Rightarrow> I8048" where
  "unpack_psw c = c\<lparr>C := bit (PSW c) 7, AC := bit (PSW c) 6, F0 := bit (PSW c) 5,
                     BS := bit (PSW c) 4\<rparr>"

definition pop_pc_psw :: "I8048 \<Rightarrow> I8048" where
  "pop_pc_psw c =
     (let c1 = c\<lparr>SP := (SP c - 1) AND 7\<rparr>;
          a = 8 + SP c1 * 2;
          c2 = c1\<lparr>PC := ucast (iram c1 (unat (a AND 63)))
                  OR push_bit 8 (ucast (iram c1 (unat ((a + 1) AND 63)) AND 0x0F))\<rparr>;
          c3 = c2\<lparr>PSW := (iram c2 (unat ((a + 1) AND 63)) AND 0xF0) OR (PSW c2 AND 0x0F)\<rparr>
      in unpack_psw c3)"

definition rom_rd :: "I8048 \<Rightarrow> u16 \<Rightarrow> u8" where
  "rom_rd c a0 =
     (let a = a0 AND 0xFFF in
      if a < 1024 \<and> P1 c AND 0x04 = 0 then irom c (unat a)
      else erom c (unat (a AND 4095)))"

text \<open>\<^verbatim>\<open>ft\<close>: fetch the byte at PC and advance PC as a 12-bit counter.\<close>

definition ft :: "I8048 \<Rightarrow> u8 \<times> I8048" where
  "ft c = (rom_rd c (PC c), c\<lparr>PC := (PC c + 1) AND 0xFFF\<rparr>)"

definition xram_addr :: "I8048 \<Rightarrow> u8 \<Rightarrow> nat" where
  "xram_addr c addr =
     (let full = push_bit 8 (ucast (P1 c AND 0x03)) OR (ucast addr :: u16)
      in unat (full AND 1023))"

definition xram_rd :: "I8048 \<Rightarrow> u8 \<Rightarrow> u8" where
  "xram_rd c addr = xram c (xram_addr c addr)"

definition xram_wr :: "u8 \<Rightarrow> u8 \<Rightarrow> I8048 \<Rightarrow> I8048" where
  "xram_wr addr val c = c\<lparr>xram := (xram c)(xram_addr c addr := val)\<rparr>"

section \<open>COP411L sound processor\<close>

definition c_div :: "int \<Rightarrow> int \<Rightarrow> int" where
  "c_div a b = sgn a * sgn b * (\<bar>a\<bar> div \<bar>b\<bar>)"

text \<open>The hardware-measured note frequencies \<^verbatim>\<open>cop411_note_freq[16]\<close>.\<close>

definition cop411_note_freq :: "nat \<Rightarrow> cfloat" where
  "cop411_note_freq n = FNum ([239.23, 253.03, 268.53, 286.04, 302.48, 320.92, 337.38,
     360.49, 381.38, 404.85, 424.44, 453.72, 478.46, 506.07, 537.05, 572.08] ! n)"

record SndStep =
  freq :: cfloat
  noise :: bool
  dur_ms :: int
  volume :: cfloat

definition mk_step :: "real \<Rightarrow> bool \<Rightarrow> int \<Rightarrow> real \<Rightarrow> SndStep" where
  "mk_step f n d v = \<lparr> freq = FNum f, noise = n, dur_ms = d, volume = FNum v \<rparr>"

record COP411L =
  ctrl_loop :: u8
  ctrl_vol :: u8
  ctrl_fast :: u8
  proto_state :: u8
  proto_hi :: u8
  active :: bool
  is_noise :: bool
  force_loop :: bool
  force_no_loop :: bool
  command :: u8
  steps :: "int \<Rightarrow> SndStep"
  step_count :: int
  cur_step :: int
  step_samples_left :: int
  cur_freq :: cfloat
  phase_acc :: u32
  phase_inc :: u32
  slide_freq_start :: cfloat
  slide_freq_end :: cfloat
  slide_progress :: cfloat
  lfsr :: u16
  seg1_vol :: cfloat
  seg2_vol :: cfloat
  cur_vol :: cfloat
  segment :: int
  seg_samples_total :: int
  seg_samples_left :: int
  chain_cmd :: u8

text \<open>
  \<^verbatim>\<open>freq_to_phase_inc\<close>: \<^verbatim>\<open>(uint32_t)((freq / (float)AUDIO_RATE) * 4294967296.0)\<close>.
  The division is a binary32 division of the \<^verbatim>\<open>float\<close> that \<open>r\<close> stands for; the
  product with \<open>2 ^ 32\<close> is exact in \<^verbatim>\<open>double\<close>. The conversion to \<^verbatim>\<open>uint32_t\<close> is
  defined in C only for a finite value in range, which every frequency of the tables
  is; elsewhere the model wraps, or gives 0 for an infinity or a NaN.
\<close>

definition freq_to_phase_inc :: "cfloat \<Rightarrow> u32" where
  "freq_to_phase_inc f =
     (if f_le f 0 then 0
      else case f of
        FNum r \<Rightarrow> word_of_int (c_trunc
                   (f32_round (f32_round r / real_of_int AUDIO_RATE) * 4294967296))
      | FInf s \<Rightarrow> 0
      | FNaN \<Rightarrow> 0)"

definition cop411_init :: COP411L where
  "cop411_init = \<lparr> ctrl_loop = 0, ctrl_vol = 0, ctrl_fast = 0, proto_state = 0,
     proto_hi = 0, active = False, is_noise = False, force_loop = False,
     force_no_loop = False, command = 0, steps = (\<lambda>i. mk_step 0 False 0 0),
     step_count = 0, cur_step = 0, step_samples_left = 0, cur_freq = FNum 0,
     phase_acc = 0, phase_inc = 0, slide_freq_start = FNum 0, slide_freq_end = FNum 0,
     slide_progress = FNum 0, lfsr = 0x7FFF, seg1_vol = FNum 1, seg2_vol = FNum 0.5,
     cur_vol = FNum 0, segment = 0, seg_samples_total = 0, seg_samples_left = 0,
     chain_cmd = 0 \<rparr>"

definition cop411_update_ctrl_vol :: "COP411L \<Rightarrow> COP411L" where
  "cop411_update_ctrl_vol s =
     (if ctrl_vol s = 0 then s\<lparr>seg1_vol := FNum 0.4, seg2_vol := FNum 0.4\<rparr>
      else if ctrl_vol s = 1 then s\<lparr>seg1_vol := FNum 1.0, seg2_vol := FNum 0.4\<rparr>
      else s\<lparr>seg1_vol := FNum 1.0, seg2_vol := FNum 1.0\<rparr>)"

definition cop411_speed :: "COP411L \<Rightarrow> real" where
  "cop411_speed s = (if ctrl_fast s \<noteq> 0 then 0.5 else 1.0)"

definition set_step :: "int \<Rightarrow> SndStep \<Rightarrow> COP411L \<Rightarrow> COP411L" where
  "set_step i st s = s\<lparr>steps := (steps s)(i := st)\<rparr>"

text \<open>
  The \<^verbatim>\<open>switch (cmd)\<close> of \<^verbatim>\<open>cop411_build_effect\<close>; \<open>None\<close> is its \<^verbatim>\<open>default\<close>
  branch, which deactivates the sound and returns.
\<close>

definition build_steps :: "u8 \<Rightarrow> real \<Rightarrow> COP411L \<Rightarrow> COP411L option" where
  "build_steps cmd spd s =
     (if cmd = 0x01 then
        Some (set_step 0 (mk_step 800 True (c_trunc (200 * spd)) 0.8)
               (s\<lparr>force_loop := True, step_count := 1\<rparr>))
      else if cmd = 0x02 then
        Some (c_for 0 8 (\<lambda>i. set_step i
               (mk_step (1200 - real_of_int i * (900 / 8)) False (c_trunc (25 * spd))
                  (1.0 - real_of_int i * 0.08)))
               (s\<lparr>step_count := 8\<rparr>))
      else if cmd = 0x03 then
        (let s1 = c_for 0 5 (\<lambda>i. set_step i
               (mk_step ([1000, 800, 600, 400, 250] ! nat i) True (c_trunc (60 * spd))
                  (1.0 - real_of_int i * 0.12)))
               (s\<lparr>step_count := 5\<rparr>)
         in Some (if ctrl_loop s1 \<noteq> 0 then s1\<lparr>chain_cmd := 0x02\<rparr> else s1))
      else if cmd = 0x04 then
        Some (c_for 0 8 (\<lambda>i. set_step i
               (mk_step (300 + real_of_int i * (900 / 8)) False (c_trunc (30 * spd))
                  (0.7 + real_of_int i * 0.04)))
               (s\<lparr>step_count := 8\<rparr>))
      else if cmd = 0x05 then
        (let s1 = c_for 0 10 (\<lambda>i. set_step i
               (mk_step (200 + real_of_int i * (600 / 10)) True
                  (c_trunc (real_of_int (40 + i * 8) * spd))
                  (0.6 + real_of_int i * 0.04)))
               (s\<lparr>step_count := 10\<rparr>)
         in Some (s1\<lparr>force_loop := (ctrl_loop s1 \<noteq> 0)\<rparr>))
      else if cmd = 0x06 then
        Some (c_for 0 12 (\<lambda>i. set_step i
               (mk_step (1200 - real_of_int i * (900 / 12)) True
                  (c_trunc (real_of_int (30 + i * 10) * spd))
                  (1.0 - real_of_int i * 0.06)))
               (s\<lparr>force_no_loop := True, step_count := 12\<rparr>))
      else if cmd = 0x07 then
        Some (c_for 0 6 (\<lambda>i. set_step i
               (mk_step (800 - real_of_int i * (500 / 6)) False (c_trunc (30 * spd))
                  (0.9 - real_of_int i * 0.1)))
               (s\<lparr>step_count := 6\<rparr>))
      else if cmd = 0x08 then
        Some (c_for 0 6 (\<lambda>i. set_step i
               (mk_step (400 + real_of_int i * (800 / 6)) False (c_trunc (12 * spd)) 0.8))
               (s\<lparr>step_count := 6\<rparr>))
      else if cmd = 0x09 then
        Some (c_for 0 8 (\<lambda>i. set_step i
               (mk_step (300 + real_of_int i * (600 / 8)) False (c_trunc (18 * spd)) 0.85))
               (s\<lparr>step_count := 8\<rparr>))
      else if cmd \<in> {0x0A, 0x0B, 0x0C, 0x0D} then
        Some (set_step 0
               (mk_step (300 + real_of_int (uint cmd - 0x0A) * 100) False
                  (c_trunc (50 * spd)) 0.5)
               (s\<lparr>step_count := 1\<rparr>))
      else None)"

definition start_first_step :: "COP411L \<Rightarrow> COP411L" where
  "start_first_step s =
     (if step_count s > 0 then
        let st = steps s 0;
            s1 = s\<lparr>cur_freq := freq st, is_noise := noise st, cur_vol := volume st,
                   phase_inc := freq_to_phase_inc (freq st),
                   step_samples_left := c_div (dur_ms st * AUDIO_RATE) 1000\<rparr>
        in if step_samples_left s1 < 1 then s1\<lparr>step_samples_left := 1\<rparr> else s1
      else s)"

definition cop411_build_effect :: "COP411L \<Rightarrow> u8 \<Rightarrow> u8 \<Rightarrow> COP411L" where
  "cop411_build_effect s cmd data =
     (let s1 = s\<lparr>command := cmd, active := True, cur_step := 0, step_count := 0,
                 chain_cmd := 0, force_loop := False, force_no_loop := False,
                 segment := 0, phase_acc := 0\<rparr>;
          spd = cop411_speed s1
      in case build_steps cmd spd s1 of
           None \<Rightarrow> s1\<lparr>active := False\<rparr>
         | Some s2 \<Rightarrow> start_first_step s2)"

definition cop411_start_tone :: "COP411L \<Rightarrow> u8 \<Rightarrow> COP411L" where
  "cop411_start_tone s note =
     (let s1 = s\<lparr>active := True, is_noise := False, command := 0x0E, cur_step := 0,
                 step_count := 0, chain_cmd := 0, force_loop := False,
                 force_no_loop := False\<rparr>;
          fr = cop411_note_freq (unat (note AND 0x0F));
          s2 = s1\<lparr>cur_freq := fr, phase_inc := freq_to_phase_inc fr, segment := 0\<rparr>;
          s3 = cop411_update_ctrl_vol s2;
          s4 = s3\<lparr>cur_vol := seg1_vol s3\<rparr>;
          seg1_ms = (if ctrl_fast s4 \<noteq> 0 then 46 else 117);
          s5 = s4\<lparr>seg_samples_total := c_div (seg1_ms * AUDIO_RATE) 1000\<rparr>
      in s5\<lparr>seg_samples_left := seg_samples_total s5\<rparr>)"

definition cop411_command :: "COP411L \<Rightarrow> u8 \<Rightarrow> COP411L" where
  "cop411_command s cmd_byte =
     (let cmd = drop_bit 4 cmd_byte AND 0x0F;
          data = cmd_byte AND 0x0F
      in if cmd = 0x00 then
           (cop411_update_ctrl_vol
              (s\<lparr>ctrl_fast := data AND 0x01, ctrl_vol := drop_bit 1 data AND 0x03,
                 ctrl_loop := drop_bit 3 data AND 0x01\<rparr>))
             \<lparr>active := False\<rparr>
         else if cmd = 0x0E \<or> cmd = 0x0F then cop411_start_tone s data
         else if cmd \<ge> 0x01 \<and> cmd \<le> 0x0D then cop411_build_effect s cmd data
         else s)"

section \<open>The system\<close>

text \<open>
  \<^verbatim>\<open>struct AV\<close>: the CPU, the display, the sound processor, the controller input, the
  debugger's breakpoints, the rewind ring and the settings the frame step reads. The
  fields of the front end (window, on-screen text, WAV writer, statistics) are touched
  by none of the functions below and are left out.
\<close>

record AVInput =
  inp_u :: bool
  inp_d :: bool
  inp_l :: bool
  inp_r :: bool
  inp_b1 :: bool
  inp_b2 :: bool
  inp_b3 :: bool
  inp_b4 :: bool

record AVDbg =
  dbg_active :: bool
  dbg_stepping :: bool
  dbg_bp :: "int \<Rightarrow> u16"
  dbg_bp_count :: int

record RewindSnap =
  rw_A :: u8
  rw_PSW :: u8
  rw_SP :: u8
  rw_P1 :: u8
  rw_P2 :: u8
  rw_BUS :: u8
  rw_timer :: u8
  rw_PC :: u16
  rw_flags :: u8
  rw_flags2 :: u8
  rw_tpre :: int
  rw_iram :: "nat \<Rightarrow> u8"
  rw_xram :: "nat \<Rightarrow> u8"
  rw_phosphor :: "int \<Rightarrow> real"
  rw_ctrl_loop :: u8
  rw_ctrl_vol :: u8
  rw_ctrl_fast :: u8
  rw_proto_state :: u8
  rw_proto_hi :: u8
  rw_lfsr :: u16

record AV =
  cpu :: I8048
  av_disp :: AVDisp
  av_snd :: COP411L
  input :: AVInput
  snd_volume :: int
  dbg :: AVDbg
  paused :: bool
  frame_count :: int
  save_name :: string
  rewind_buf :: "(int \<Rightarrow> RewindSnap) option"
  rewind_head :: int
  rewind_count :: int
  cfg_phosphor :: real
  midframe_scan :: bool
  t1_pulse_start :: int
  t1_pulse_end :: int
  disp_sync_cycle :: int
  disp_sync_seen :: bool
  prev_p2 :: u8

text \<open>\<^verbatim>\<open>av_led_latch\<close>: the byte read by MOVX goes to the LED register P2 selects.\<close>

definition av_led_latch :: "AV \<Rightarrow> u8 \<Rightarrow> u8 \<Rightarrow> AV" where
  "av_led_latch av p2 data =
     (let ri = led_reg_decode p2
      in if ri \<ge> 0 then av\<lparr>av_disp := (av_disp av)\<lparr>led_reg := (led_reg (av_disp av))(ri := data)\<rparr>\<rparr>
         else av)"

text \<open>
  The sound protocol of \<^verbatim>\<open>av_port_write\<close> (port 2): \<^verbatim>\<open>proto_state\<close> 0 is idle, 1 is
  "saw the reset byte 0xC0", 2 is "high nibble captured", 3 is "dispatched".
\<close>

definition snd_protocol :: "COP411L \<Rightarrow> u8 \<Rightarrow> COP411L" where
  "snd_protocol s val =
     (if proto_state s = 0 \<and> val = 0xC0 then s\<lparr>proto_state := 1, proto_hi := 0\<rparr>
      else if proto_state s = 1 then
        s\<lparr>proto_hi := drop_bit 4 val AND 0x0F, proto_state := 2\<rparr>
      else if proto_state s = 2 then
        (if val = 0x00 then
           (cop411_command s (push_bit 4 (proto_hi s)))\<lparr>proto_state := 0\<rparr>
         else
           let lo = drop_bit 4 val AND 0x0F;
               cmd_byte = push_bit 4 (proto_hi s) OR lo
           in (cop411_command s cmd_byte)\<lparr>proto_state := 3\<rparr>)
      else if proto_state s = 3 then
        (if val = 0x00 then s\<lparr>proto_state := 0\<rparr> else s)
      else s)"

definition av_port_write :: "AV \<Rightarrow> u8 \<Rightarrow> u8 \<Rightarrow> AV" where
  "av_port_write av port val =
     (if port = 0 then av\<lparr>cpu := (cpu av)\<lparr>BUS := val\<rparr>\<rparr>
      else if port = 1 then av
      else if port = 2 then
        let av1 = (if val AND 0x10 \<noteq> 0 \<and> \<not> (prev_p2 av AND 0x10 \<noteq> 0)
                   then av\<lparr>av_disp := disp_latch_led_column (av_disp av)\<rparr> else av);
            av2 = av1\<lparr>prev_p2 := val\<rparr>
        in av2\<lparr>av_snd := snd_protocol (av_snd av2) val\<rparr>
      else av)"

definition button_mask :: "AVInput \<Rightarrow> u8" where
  "button_mask i =
     (let e0 = 0xFF;
          e1 = (if inp_b1 i then e0 AND NOT 0x30 else e0);
          e2 = (if inp_b2 i then e1 AND NOT 0x50 else e1);
          e3 = (if inp_b3 i then e2 AND NOT 0x08 else e2);
          e4 = (if inp_b4 i then e3 AND NOT 0x90 else e3);
          e5 = (if inp_u i then e4 AND NOT 0x20 else e4);
          e6 = (if inp_d i then e5 AND NOT 0x10 else e5);
          e7 = (if inp_r i then e6 AND NOT 0x40 else e6)
      in if inp_l i then e7 AND NOT 0x80 else e7)"

definition av_port_read :: "AV \<Rightarrow> u8 \<Rightarrow> u8" where
  "av_port_read av port =
     (if port = 0 then 0xFF
      else if port = 1 then P1 (cpu av) AND button_mask (input av)
      else if port = 2 then P2 (cpu av)
      else 0xFF)"

text \<open>The hardware's power-up values, common to \<^verbatim>\<open>av_init\<close> and \<^verbatim>\<open>av_reset\<close>.\<close>

definition cpu_power_up :: I8048 where
  "cpu_power_up = cpu_zero\<lparr>P1 := 0xFB, P2 := 0xFF, t0 := True,
     xram := (\<lambda>i. if 0x100 \<le> i \<and> i < 0x100 + 0x300 then 0xFF else xram cpu_zero i)\<rparr>"

definition disp_zero :: AVDisp where
  "disp_zero = \<lparr> phosphor = (\<lambda>i. 0), col_data = (\<lambda>c i. 0), cols_captured = 0,
     led_reg = (\<lambda>i. 0), led_col = 0, led_active = False \<rparr>"

definition input_zero :: AVInput where
  "input_zero = \<lparr> inp_u = False, inp_d = False, inp_l = False, inp_r = False,
     inp_b1 = False, inp_b2 = False, inp_b3 = False, inp_b4 = False \<rparr>"

definition snap_zero :: RewindSnap where
  "snap_zero = \<lparr> rw_A = 0, rw_PSW = 0, rw_SP = 0, rw_P1 = 0, rw_P2 = 0, rw_BUS = 0,
     rw_timer = 0, rw_PC = 0, rw_flags = 0, rw_flags2 = 0, rw_tpre = 0,
     rw_iram = (\<lambda>i. 0), rw_xram = (\<lambda>i. 0), rw_phosphor = (\<lambda>i. 0),
     rw_ctrl_loop = 0, rw_ctrl_vol = 0, rw_ctrl_fast = 0, rw_proto_state = 0,
     rw_proto_hi = 0, rw_lfsr = 0 \<rparr>"

text \<open>
  \<^verbatim>\<open>av_init\<close> starts from \<^verbatim>\<open>memset(av, 0, sizeof(AV))\<close>, so it is a constant; the
  rewind ring is the zeroed block \<^verbatim>\<open>calloc\<close> returns.
\<close>

definition av_init :: AV where
  "av_init = \<lparr> cpu = cpu_power_up,
     av_disp = disp_zero\<lparr>led_reg := (\<lambda>i. if 0 \<le> i \<and> i < 5 then 0xFF else led_reg disp_zero i),
                      led_col := 0, led_active := False\<rparr>,
     av_snd = cop411_init, input = input_zero, snd_volume = 7,
     dbg = \<lparr> dbg_active = False, dbg_stepping = False, dbg_bp = (\<lambda>i. 0), dbg_bp_count = 0 \<rparr>,
     paused = False, frame_count = 0, save_name = ''advision.sav'',
     rewind_buf = Some (\<lambda>i. snap_zero), rewind_head = 0, rewind_count = 0,
     cfg_phosphor = DEF_PHOSPHOR, midframe_scan = True, t1_pulse_start = 200, t1_pulse_end = 400,
     disp_sync_cycle = 0, disp_sync_seen = False, prev_p2 = 0 \<rparr>"

text \<open>
  \<^verbatim>\<open>av_reset\<close>, the soft reset: the ROM images, the display state, the volume and the
  save name are backed up and restored around the clearing of the CPU; the COP411L is
  re-initialised and its control register put back.
\<close>

definition av_reset :: "AV \<Rightarrow> AV" where
  "av_reset av =
     (let irom_bak = irom (cpu av);
          erom_bak = erom (cpu av);
          disp_bak = av_disp av;
          vol = snd_volume av;
          sname = save_name av;
          ctrl_loop' = ctrl_loop (av_snd av);
          ctrl_vol' = ctrl_vol (av_snd av);
          ctrl_fast' = ctrl_fast (av_snd av);
          av1 = av\<lparr>cpu := cpu_power_up, input := input_zero\<rparr>;
          av2 = av1\<lparr>cpu := (cpu av1)\<lparr>irom := irom_bak, erom := erom_bak\<rparr>\<rparr>;
          av3 = av2\<lparr>av_disp := disp_bak\<lparr>phosphor := (\<lambda>i. 0)\<rparr>, snd_volume := vol\<rparr>;
          av4 = av3\<lparr>av_snd := cop411_update_ctrl_vol
                   (cop411_init\<lparr>ctrl_loop := ctrl_loop', ctrl_vol := ctrl_vol',
                                 ctrl_fast := ctrl_fast'\<rparr>)\<rparr>
      in av4\<lparr>frame_count := 0, paused := False, save_name := sname\<rparr>)"

section \<open>The MCS-48 interpreter\<close>

text \<open>
  \<^verbatim>\<open>i8048_exec\<close> is one \<^verbatim>\<open>switch (op)\<close> followed by the cycle count, the timer
  prescaler and the interrupt dispatch. The switch is split into groups in the order of
  the source; a group gives \<open>None\<close> for an opcode that is not among its cases. Each
  case returns the new state and its cycle count \<^verbatim>\<open>cy\<close> (1 unless the case sets 2).
\<close>

definition sw_mov :: "u8 \<Rightarrow> I8048 \<Rightarrow> (I8048 \<times> int) option" where
  "sw_mov op c =
     (if op = 0x00 then Some (c, 1)
      else if op \<in> {0xF8, 0xF9, 0xFA, 0xFB, 0xFC, 0xFD, 0xFE, 0xFF} then Some (c\<lparr>A := getR c (op AND 7)\<rparr>, 1)
      else if op \<in> {0xA8, 0xA9, 0xAA, 0xAB, 0xAC, 0xAD, 0xAE, 0xAF} then Some (setR (op AND 7) (A c) c, 1)
      else if op = 0x23 then (let (v, c1) = ft c in Some (c1\<lparr>A := v\<rparr>, 2))
      else if op \<in> {0xB8, 0xB9, 0xBA, 0xBB, 0xBC, 0xBD, 0xBE, 0xBF} then (let (v, c1) = ft c in Some (setR (op AND 7) v c1, 2))
      else if op \<in> {0xF0, 0xF1} then Some (c\<lparr>A := iram c (Ri c op)\<rparr>, 1)
      else if op \<in> {0xA0, 0xA1} then Some (c\<lparr>iram := (iram c)(Ri c op := A c)\<rparr>, 1)
      else if op \<in> {0xB0, 0xB1} then
        (let (v, c1) = ft c in Some (c1\<lparr>iram := (iram c1)(Ri c1 op := v)\<rparr>, 2))
      else if op \<in> {0x28, 0x29, 0x2A, 0x2B, 0x2C, 0x2D, 0x2E, 0x2F} then
        (let t = A c; c1 = c\<lparr>A := getR c (op AND 7)\<rparr> in Some (setR (op AND 7) t c1, 1))
      else if op \<in> {0x20, 0x21} then
        (let a = Ri c op; t = iram c a;
             c1 = c\<lparr>iram := (iram c)(a := A c)\<rparr>
         in Some (c1\<lparr>A := t\<rparr>, 1))
      else if op \<in> {0x30, 0x31} then
        (let a = Ri c op; t = A c AND 0xF;
             c1 = c\<lparr>A := (A c AND 0xF0) OR (iram c a AND 0xF)\<rparr>
         in Some (c1\<lparr>iram := (iram c1)(a := (iram c1 a AND 0xF0) OR t)\<rparr>, 1))
      else None)"

text \<open>
  \<^verbatim>\<open>t16=A+t(+C); AC=((A&0xF)+(t&0xF)(+C))>0xF; C=t16>0xFF; A=t16\<close>: the sum fits the
  16 bits of \<^verbatim>\<open>t16\<close>, so it is computed on naturals; \<open>cin\<close> is the carry added.
\<close>

definition add_A :: "u8 \<Rightarrow> nat \<Rightarrow> I8048 \<Rightarrow> I8048" where
  "add_A t cin c =
     (let t16 = unat (A c) + unat t + cin
      in c\<lparr>AC := (unat (A c AND 0xF) + unat (t AND 0xF) + cin > 0xF),
            C := (t16 > 0xFF), A := of_nat t16\<rparr>)"

definition sw_alu :: "u8 \<Rightarrow> I8048 \<Rightarrow> (I8048 \<times> int) option" where
  "sw_alu op c =
     (if op \<in> {0x68, 0x69, 0x6A, 0x6B, 0x6C, 0x6D, 0x6E, 0x6F} then Some (add_A (getR c (op AND 7)) 0 c, 1)
      else if op = 0x03 then (let (t, c1) = ft c in Some (add_A t 0 c1, 2))
      else if op \<in> {0x60, 0x61} then Some (add_A (iram c (Ri c op)) 0 c, 1)
      else if op \<in> {0x78, 0x79, 0x7A, 0x7B, 0x7C, 0x7D, 0x7E, 0x7F} then Some (add_A (getR c (op AND 7)) (of_bool (C c)) c, 1)
      else if op = 0x13 then (let (t, c1) = ft c in Some (add_A t (of_bool (C c1)) c1, 2))
      else if op \<in> {0x70, 0x71} then Some (add_A (iram c (Ri c op)) (of_bool (C c)) c, 1)
      else if op \<in> {0x58, 0x59, 0x5A, 0x5B, 0x5C, 0x5D, 0x5E, 0x5F} then Some (c\<lparr>A := A c AND getR c (op AND 7)\<rparr>, 1)
      else if op = 0x53 then (let (t, c1) = ft c in Some (c1\<lparr>A := A c1 AND t\<rparr>, 2))
      else if op \<in> {0x50, 0x51} then Some (c\<lparr>A := A c AND iram c (Ri c op)\<rparr>, 1)
      else if op \<in> {0x48, 0x49, 0x4A, 0x4B, 0x4C, 0x4D, 0x4E, 0x4F} then Some (c\<lparr>A := A c OR getR c (op AND 7)\<rparr>, 1)
      else if op = 0x43 then (let (t, c1) = ft c in Some (c1\<lparr>A := A c1 OR t\<rparr>, 2))
      else if op \<in> {0x40, 0x41} then Some (c\<lparr>A := A c OR iram c (Ri c op)\<rparr>, 1)
      else if op \<in> {0xD8, 0xD9, 0xDA, 0xDB, 0xDC, 0xDD, 0xDE, 0xDF} then Some (c\<lparr>A := A c XOR getR c (op AND 7)\<rparr>, 1)
      else if op = 0xD3 then (let (t, c1) = ft c in Some (c1\<lparr>A := A c1 XOR t\<rparr>, 2))
      else if op \<in> {0xD0, 0xD1} then Some (c\<lparr>A := A c XOR iram c (Ri c op)\<rparr>, 1)
      else None)"

text \<open>\<^verbatim>\<open>DA A\<close>: the two decimal adjustments, the carry sticky.\<close>

definition da_A :: "I8048 \<Rightarrow> I8048" where
  "da_A c =
     (let c1 = (if (A c AND 0xF) > 9 \<or> AC c then
                  let t = A c; c' = c\<lparr>A := A c + 6\<rparr>
                  in if A c' < t then c'\<lparr>C := True\<rparr> else c'
                else c)
      in if drop_bit 4 (A c1) > 9 \<or> C c1 then c1\<lparr>A := A c1 + 0x60, C := True\<rparr> else c1)"

definition sw_inc :: "u8 \<Rightarrow> I8048 \<Rightarrow> (I8048 \<times> int) option" where
  "sw_inc op c =
     (if op = 0x17 then Some (c\<lparr>A := A c + 1\<rparr>, 1)
      else if op \<in> {0x18, 0x19, 0x1A, 0x1B, 0x1C, 0x1D, 0x1E, 0x1F} then Some (setR (op AND 7) (getR c (op AND 7) + 1) c, 1)
      else if op \<in> {0x10, 0x11} then
        Some (c\<lparr>iram := (iram c)(Ri c op := iram c (Ri c op) + 1)\<rparr>, 1)
      else if op = 0x07 then Some (c\<lparr>A := A c - 1\<rparr>, 1)
      else if op \<in> {0xC8, 0xC9, 0xCA, 0xCB, 0xCC, 0xCD, 0xCE, 0xCF} then Some (setR (op AND 7) (getR c (op AND 7) - 1) c, 1)
      else if op = 0x27 then Some (c\<lparr>A := 0\<rparr>, 1)
      else if op = 0x37 then Some (c\<lparr>A := NOT (A c)\<rparr>, 1)
      else if op = 0x57 then Some (da_A c, 1)
      else if op = 0x47 then
        Some (c\<lparr>A := push_bit 4 (A c AND 0xF) OR (drop_bit 4 (A c) AND 0xF)\<rparr>, 1)
      else if op = 0xE7 then Some (c\<lparr>A := push_bit 1 (A c) OR drop_bit 7 (A c)\<rparr>, 1)
      else if op = 0xF7 then
        (let t = of_bool (C c); c1 = c\<lparr>C := bit (A c) 7\<rparr>
         in Some (c1\<lparr>A := push_bit 1 (A c1) OR t\<rparr>, 1))
      else if op = 0x77 then Some (c\<lparr>A := drop_bit 1 (A c) OR push_bit 7 (A c)\<rparr>, 1)
      else if op = 0x67 then
        (let t = of_bool (C c); c1 = c\<lparr>C := bit (A c) 0\<rparr>
         in Some (c1\<lparr>A := drop_bit 1 (A c1) OR push_bit 7 t\<rparr>, 1))
      else if op = 0x97 then Some (c\<lparr>C := False\<rparr>, 1)
      else if op = 0xA7 then Some (c\<lparr>C := \<not> C c\<rparr>, 1)
      else if op = 0x85 then Some (c\<lparr>F0 := False\<rparr>, 1)
      else if op = 0x95 then Some (c\<lparr>F0 := \<not> F0 c\<rparr>, 1)
      else if op = 0xA5 then Some (c\<lparr>F1 := False\<rparr>, 1)
      else if op = 0xB5 then Some (c\<lparr>F1 := \<not> F1 c\<rparr>, 1)
      else if op = 0xC5 then Some (c\<lparr>BS := False\<rparr>, 1)
      else if op = 0xD5 then Some (c\<lparr>BS := True\<rparr>, 1)
      else if op = 0xE5 then Some (c\<lparr>MB := False\<rparr>, 1)
      else if op = 0xF5 then Some (c\<lparr>MB := True\<rparr>, 1)
      else None)"

text \<open>
  \<^verbatim>\<open>t=ft(c); if (cond) c->PC=(c->PC&0xF00)|t; cy=2\<close>, the conditional jump within the
  page of the byte after the operand.
\<close>

definition page_jump :: "u8 \<Rightarrow> I8048 \<Rightarrow> I8048" where
  "page_jump t c = c\<lparr>PC := (PC c AND 0xF00) OR ucast t\<rparr>"

definition jcond :: "(I8048 \<Rightarrow> bool) \<Rightarrow> I8048 \<Rightarrow> (I8048 \<times> int) option" where
  "jcond cond c = (let (t, c1) = ft c in Some (if cond c1 then page_jump t c1 else c1, 2))"

text \<open>The target of JMP and CALL: \<^verbatim>\<open>((uint16_t)(op&0xE0)<<3)|t\<close>, bit 11 from MB.\<close>

definition long_jump :: "u8 \<Rightarrow> u8 \<Rightarrow> I8048 \<Rightarrow> I8048" where
  "long_jump op t c =
     (let c1 = c\<lparr>PC := push_bit 3 (ucast (op AND 0xE0)) OR ucast t\<rparr>
      in if MB c1 then c1\<lparr>PC := PC c1 OR 0x800\<rparr> else c1)"

definition sw_jmp :: "u8 \<Rightarrow> I8048 \<Rightarrow> (I8048 \<times> int) option" where
  "sw_jmp op c =
     (if op \<in> {0x04, 0x24, 0x44, 0x64, 0x84, 0xA4, 0xC4, 0xE4} then
        (let (t, c1) = ft c in Some (long_jump op t c1, 2))
      else if op = 0xB3 then
        Some (c\<lparr>PC := (PC c AND 0xF00) OR ucast (rom_rd c ((PC c AND 0xF00) OR ucast (A c)))\<rparr>, 2)
      else if op \<in> {0xE8, 0xE9, 0xEA, 0xEB, 0xEC, 0xED, 0xEE, 0xEF} then
        (let (t, c1) = ft c;
             c2 = setR (op AND 7) (getR c1 (op AND 7) - 1) c1
         in Some (if getR c2 (op AND 7) \<noteq> 0 then page_jump t c2 else c2, 2))
      else if op = 0xF6 then jcond (\<lambda>c. C c) c
      else if op = 0xE6 then jcond (\<lambda>c. \<not> C c) c
      else if op = 0xC6 then jcond (\<lambda>c. A c = 0) c
      else if op = 0x96 then jcond (\<lambda>c. A c \<noteq> 0) c
      else if op = 0x26 then jcond (\<lambda>c. \<not> t0 c) c
      else if op = 0x36 then jcond (\<lambda>c. t0 c) c
      else if op = 0x46 then jcond (\<lambda>c. \<not> t1 c) c
      else if op = 0x56 then jcond (\<lambda>c. t1 c) c
      else if op = 0xB6 then jcond (\<lambda>c. F0 c) c
      else if op = 0x76 then jcond (\<lambda>c. F1 c) c
      else if op = 0x16 then
        (let (t, c1) = ft c
         in Some (if timer_ovf c1 then (page_jump t c1)\<lparr>timer_ovf := False\<rparr> else c1, 2))
      else if op = 0x86 then (let (t, c1) = ft c in Some (c1, 2))
      else if op \<in> {0x12, 0x32, 0x52, 0x72, 0x92, 0xB2, 0xD2, 0xF2} then
        jcond (\<lambda>c. bit (A c) (unat (drop_bit 5 op AND 7))) c
      else if op \<in> {0x14, 0x34, 0x54, 0x74, 0x94, 0xB4, 0xD4, 0xF4} then
        (let (t, c1) = ft c in Some (long_jump op t (push8 (bpsw c1)), 2))
      else if op = 0x83 then Some (pop_pc c, 2)
      else if op = 0x93 then Some ((pop_pc_psw c)\<lparr>irq_en := True, in_irq := False\<rparr>, 2)
      else None)"

definition sw_ctl :: "u8 \<Rightarrow> I8048 \<Rightarrow> (I8048 \<times> int) option" where
  "sw_ctl op c =
     (if op = 0x05 then Some (c\<lparr>irq_en := True, ei_delay := 1\<rparr>, 1)
      else if op = 0x15 then Some (c\<lparr>irq_en := False\<rparr>, 1)
      else if op = 0x25 then Some (c\<lparr>tcnti_en := True\<rparr>, 1)
      else if op = 0x35 then Some (c\<lparr>tcnti_en := False\<rparr>, 1)
      else if op = 0x55 then Some (c\<lparr>timer_en := True, counter_en := False, tpre := 0\<rparr>, 1)
      else if op = 0x45 then Some (c\<lparr>counter_en := True, timer_en := False, tpre := 0\<rparr>, 1)
      else if op = 0x65 then Some (c\<lparr>timer_en := False, counter_en := False, tpre := 0\<rparr>, 1)
      else if op = 0x42 then Some (c\<lparr>A := timer c\<rparr>, 1)
      else if op = 0x62 then Some (c\<lparr>timer := A c, tpre := 0\<rparr>, 1)
      else if op = 0xC7 then (let c1 = bpsw c in Some (c1\<lparr>A := PSW c1\<rparr>, 1))
      else if op = 0xD7 then
        (let c1 = unpack_psw (c\<lparr>PSW := A c\<rparr>) in Some (c1\<lparr>SP := PSW c1 AND 7\<rparr>, 1))
      else if op = 0xA3 then
        Some (c\<lparr>A := rom_rd c ((PC c AND 0xF00) OR ucast (A c))\<rparr>, 2)
      else if op = 0xE3 then Some (c\<lparr>A := rom_rd c (0x300 OR ucast (A c))\<rparr>, 2)
      else if op \<in> {0x0C, 0x0D, 0x0E, 0x0F} then Some (c\<lparr>A := 0x0F\<rparr>, 2)
      else if op \<in> {0x3C, 0x3D, 0x3E, 0x3F} then Some (c, 2)
      else if op \<in> {0x8C, 0x8D, 0x8E, 0x8F} then Some (c, 2)
      else if op \<in> {0x9C, 0x9D, 0x9E, 0x9F} then Some (c, 2)
      else if op = 0x75 then Some (c, 1)
      else None)"

text \<open>
  The port instructions and MOVX reach the rest of the system through \<^verbatim>\<open>sys\<close>, of
  which the CPU is a part (the frame step and the debugger call
  \<^verbatim>\<open>i8048_exec(&av->cpu, av)\<close>).
\<close>

definition upd_cpu :: "(I8048 \<Rightarrow> I8048) \<Rightarrow> AV \<Rightarrow> AV" where
  "upd_cpu f sys = sys\<lparr>cpu := f (cpu sys)\<rparr>"

definition sw_io :: "u8 \<Rightarrow> AV \<Rightarrow> (AV \<times> int) option" where
  "sw_io op sys =
     (if op = 0x08 then Some (upd_cpu (\<lambda>c. c\<lparr>A := av_port_read sys 0\<rparr>) sys, 2)
      else if op = 0x02 then
        (let s1 = upd_cpu (\<lambda>c. c\<lparr>BUS := A c\<rparr>) sys
         in Some (av_port_write s1 0 (A (cpu s1)), 2))
      else if op = 0x88 then
        (let (t, c1) = ft (cpu sys); s1 = sys\<lparr>cpu := c1\<lparr>BUS := BUS c1 OR t\<rparr>\<rparr>
         in Some (av_port_write s1 0 (BUS (cpu s1)), 2))
      else if op = 0x98 then
        (let (t, c1) = ft (cpu sys); s1 = sys\<lparr>cpu := c1\<lparr>BUS := BUS c1 AND t\<rparr>\<rparr>
         in Some (av_port_write s1 0 (BUS (cpu s1)), 2))
      else if op = 0x09 then Some (upd_cpu (\<lambda>c. c\<lparr>A := av_port_read sys 1\<rparr>) sys, 2)
      else if op = 0x0A then Some (upd_cpu (\<lambda>c. c\<lparr>A := av_port_read sys 2\<rparr>) sys, 2)
      else if op = 0x39 then
        (let s1 = upd_cpu (\<lambda>c. c\<lparr>P1 := A c\<rparr>) sys
         in Some (av_port_write s1 1 (A (cpu s1)), 2))
      else if op = 0x3A then
        (let s1 = upd_cpu (\<lambda>c. c\<lparr>P2 := A c\<rparr>) sys
         in Some (av_port_write s1 2 (A (cpu s1)), 2))
      else if op = 0x99 then
        (let (t, c1) = ft (cpu sys); s1 = sys\<lparr>cpu := c1\<lparr>P1 := P1 c1 AND t\<rparr>\<rparr>
         in Some (av_port_write s1 1 (P1 (cpu s1)), 2))
      else if op = 0x9A then
        (let (t, c1) = ft (cpu sys); s1 = sys\<lparr>cpu := c1\<lparr>P2 := P2 c1 AND t\<rparr>\<rparr>
         in Some (av_port_write s1 2 (P2 (cpu s1)), 2))
      else if op = 0x89 then
        (let (t, c1) = ft (cpu sys); s1 = sys\<lparr>cpu := c1\<lparr>P1 := P1 c1 OR t\<rparr>\<rparr>
         in Some (av_port_write s1 1 (P1 (cpu s1)), 2))
      else if op = 0x8A then
        (let (t, c1) = ft (cpu sys); s1 = sys\<lparr>cpu := c1\<lparr>P2 := P2 c1 OR t\<rparr>\<rparr>
         in Some (av_port_write s1 2 (P2 (cpu s1)), 2))
      else if op \<in> {0x80, 0x81} then
        (let xval = xram_rd (cpu sys) (getR (cpu sys) (op AND 1));
             s1 = upd_cpu (\<lambda>c. c\<lparr>A := xval\<rparr>) sys
         in Some (av_led_latch s1 (P2 (cpu s1)) xval, 2))
      else if op \<in> {0x90, 0x91} then
        Some (upd_cpu (\<lambda>c. xram_wr (getR c (op AND 1)) (A c) c) sys, 2)
      else None)"

text \<open>The whole switch; an opcode of no case is logged and costs one cycle.\<close>

definition sw_cpu :: "u8 \<Rightarrow> I8048 \<Rightarrow> (I8048 \<times> int) option" where
  "sw_cpu op c =
     (case sw_mov op c of Some r \<Rightarrow> Some r | None \<Rightarrow>
      (case sw_alu op c of Some r \<Rightarrow> Some r | None \<Rightarrow>
      (case sw_inc op c of Some r \<Rightarrow> Some r | None \<Rightarrow>
      (case sw_jmp op c of Some r \<Rightarrow> Some r | None \<Rightarrow> sw_ctl op c))))"

definition i8048_switch :: "u8 \<Rightarrow> AV \<Rightarrow> AV \<times> int" where
  "i8048_switch op sys =
     (case sw_cpu op (cpu sys) of
        Some (c, cy) \<Rightarrow> (sys\<lparr>cpu := c\<rparr>, cy)
      | None \<Rightarrow> (case sw_io op sys of Some r \<Rightarrow> r | None \<Rightarrow> (sys, 1)))"

text \<open>
  \<^verbatim>\<open>if (++c->timer == 0) { timer_ovf = true; if (tcnti_en && irq_en && !in_irq) irq_pend
  = true; }\<close>, in the prescaler loop and in the frame step's counter mode.
\<close>

definition timer_inc :: "I8048 \<Rightarrow> I8048" where
  "timer_inc c =
     (let c1 = c\<lparr>timer := timer c + 1\<rparr>
      in if timer c1 = 0 then
           let c2 = c1\<lparr>timer_ovf := True\<rparr>
           in if tcnti_en c2 \<and> irq_en c2 \<and> \<not> in_irq c2 then c2\<lparr>irq_pend := True\<rparr> else c2
         else c1)"

lemma tpre_timer_inc: "tpre (timer_inc c) = tpre c"
  by (simp add: timer_inc_def Let_def)

text \<open>\<^verbatim>\<open>while (c->tpre >= 32) { c->tpre -= 32; ... }\<close>\<close>

function prescaler_loop :: "I8048 \<Rightarrow> I8048" where
  "prescaler_loop c =
     (if tpre c \<ge> 32 then prescaler_loop (timer_inc (c\<lparr>tpre := tpre c - 32\<rparr>)) else c)"
  by pat_completeness auto
termination
  by (relation "measure (\<lambda>c. nat (tpre c))") (auto simp: tpre_timer_inc)

declare prescaler_loop.simps [simp del]

text \<open>
  The end of \<^verbatim>\<open>i8048_exec\<close>: the post-EI delay counter is decremented, then a pending
  interrupt is dispatched to vector 7 when the counter is 0.
\<close>

definition irq_dispatch :: "I8048 \<Rightarrow> I8048" where
  "irq_dispatch c =
     (let c1 = (if ei_delay c > 0 then c\<lparr>ei_delay := ei_delay c - 1\<rparr> else c)
      in if irq_pend c1 \<and> irq_en c1 \<and> \<not> in_irq c1 \<and> ei_delay c1 = 0 then
           (push8 (bpsw (c1\<lparr>irq_pend := False, in_irq := True, irq_en := False\<rparr>)))
             \<lparr>PC := 0x007\<rparr>
         else c1)"

text \<open>
  The end of the instruction: the cycle counter, then the prescaler of the timer.
  \<^verbatim>\<open>c->tpre += cy\<close> is an addition of \<^verbatim>\<open>int\<close>; it can overflow only after a snapshot
  has set \<^verbatim>\<open>tpre\<close> next to \<^verbatim>\<open>INT_MAX\<close>, which C leaves undefined and the usual
  compilers wrap, as \<open>int_wrap\<close> does.
\<close>

definition int_wrap :: "int \<Rightarrow> int" where
  "int_wrap x = sint (word_of_int x :: u32)"

definition exec_post :: "int \<Rightarrow> I8048 \<Rightarrow> I8048" where
  "exec_post cy c =
     (let c1 = c\<lparr>cycles := cycles c + word_of_int cy\<rparr>;
          c2 = (if timer_en c1 then prescaler_loop (c1\<lparr>tpre := int_wrap (tpre c1 + cy)\<rparr>)
                else c1)
      in irq_dispatch c2)"

definition i8048_exec :: "AV \<Rightarrow> AV \<times> int" where
  "i8048_exec sys =
     (let (op, c1) = ft (cpu sys);
          (sys1, cy) = i8048_switch op (sys\<lparr>cpu := c1\<rparr>)
      in (upd_cpu (exec_post cy) sys1, cy))"

section \<open>The frame step\<close>

text \<open>The two flag bytes of a rewind snapshot and of a saved state.\<close>

definition pack_flags :: "I8048 \<Rightarrow> u8" where
  "pack_flags c = of_bool (MB c) OR push_bit 1 (of_bool (C c)) OR push_bit 2 (of_bool (AC c))
     OR push_bit 3 (of_bool (F0 c)) OR push_bit 4 (of_bool (F1 c))
     OR push_bit 5 (of_bool (BS c)) OR push_bit 6 (of_bool (timer_en c))
     OR push_bit 7 (of_bool (counter_en c))"

definition pack_flags2 :: "I8048 \<Rightarrow> u8" where
  "pack_flags2 c = of_bool (timer_ovf c) OR push_bit 1 (of_bool (tcnti_en c))
     OR push_bit 2 (of_bool (irq_en c)) OR push_bit 3 (of_bool (irq_pend c))
     OR push_bit 4 (of_bool (in_irq c))"

definition take_snap :: "AV \<Rightarrow> RewindSnap" where
  "take_snap av = \<lparr> rw_A = A (cpu av), rw_PSW = PSW (cpu av), rw_SP = SP (cpu av),
     rw_P1 = P1 (cpu av), rw_P2 = P2 (cpu av), rw_BUS = BUS (cpu av),
     rw_timer = timer (cpu av), rw_PC = PC (cpu av), rw_flags = pack_flags (cpu av),
     rw_flags2 = pack_flags2 (cpu av), rw_tpre = tpre (cpu av), rw_iram = iram (cpu av),
     rw_xram = xram (cpu av), rw_phosphor = phosphor (av_disp av),
     rw_ctrl_loop = ctrl_loop (av_snd av), rw_ctrl_vol = ctrl_vol (av_snd av),
     rw_ctrl_fast = ctrl_fast (av_snd av), rw_proto_state = proto_state (av_snd av),
     rw_proto_hi = proto_hi (av_snd av), rw_lfsr = lfsr (av_snd av) \<rparr>"

definition rewind_push :: "AV \<Rightarrow> AV" where
  "rewind_push av =
     (case rewind_buf av of
        None \<Rightarrow> av
      | Some buf \<Rightarrow>
          let av1 = av\<lparr>rewind_buf := Some (buf(rewind_head av := take_snap av))\<rparr>;
              av2 = av1\<lparr>rewind_head := (rewind_head av1 + 1) mod REWIND_FRAMES\<rparr>
          in if rewind_count av2 < REWIND_FRAMES
             then av2\<lparr>rewind_count := rewind_count av2 + 1\<rparr> else av2)"

text \<open>
  The debugger's check at the head of the loop: with the debugger active, a breakpoint
  at PC sets \<^verbatim>\<open>stepping\<close>, and \<^verbatim>\<open>stepping\<close> makes the frame step return at once.
\<close>

definition dbg_check :: "AV \<Rightarrow> AV" where
  "dbg_check av =
     (if dbg_active (dbg av) \<and> (\<exists>i \<in> {0 ..< dbg_bp_count (dbg av)}. dbg_bp (dbg av) i = PC (cpu av))
      then av\<lparr>dbg := (dbg av)\<lparr>dbg_stepping := True\<rparr>\<rparr> else av)"

definition dbg_stop :: "AV \<Rightarrow> bool" where
  "dbg_stop av = (dbg_active (dbg av) \<and> dbg_stepping (dbg av))"

text \<open>T1 is low while the elapsed cycles are inside the pulse window.\<close>

definition t1_level :: "AV \<Rightarrow> int \<Rightarrow> bool" where
  "t1_level av elapsed = (\<not> (elapsed \<ge> t1_pulse_start av \<and> elapsed < t1_pulse_end av))"

text \<open>
  One pass of the loop body after the debugger's check: execute one instruction, add
  its cycles to \<^verbatim>\<open>elapsed\<close>, then the sync edge, the mid-frame capture and the counter.
\<close>

definition frame_iter :: "AV \<Rightarrow> int \<Rightarrow> AV \<times> int" where
  "frame_iter av elapsed =
     (let prev_t1 = t1 (cpu av);
          (av1, cy) = i8048_exec av;
          elapsed1 = elapsed + cy;
          new_t1 = t1_level av1 elapsed1;
          av2 = (if \<not> prev_t1 \<and> new_t1 \<and> \<not> disp_sync_seen av1
                 then av1\<lparr>disp_sync_cycle := elapsed1, disp_sync_seen := True,
                          av_disp := (av_disp av1)\<lparr>led_col := 0\<rparr>\<rparr>
                 else av1);
          av3 = (if midframe_scan av2 \<and> \<not> led_active (av_disp av2) \<and> disp_sync_seen av2 then
                   let disp_elapsed = elapsed1 - disp_sync_cycle av2
                   in if disp_elapsed \<ge> 0 \<and> disp_elapsed \<le> DISP_OUTPUT_CYCLES then
                        let col = c_div (disp_elapsed * SW) DISP_OUTPUT_CYCLES
                        in if col \<ge> 0 \<and> col < SW
                           then av2\<lparr>av_disp := disp_capture_column (av_disp av2) (xram (cpu av2)) col\<rparr>
                           else av2
                      else av2
                 else av2);
          av4 = (if counter_en (cpu av3) \<and> prev_t1 \<and> \<not> new_t1
                 then upd_cpu timer_inc av3 else av3)
      in (upd_cpu (\<lambda>c. c\<lparr>t1 := new_t1\<rparr>) av4, elapsed1))"

text \<open>
  Every instruction costs one or two cycles, so \<^verbatim>\<open>elapsed\<close> grows in each pass and the
  loop \<^verbatim>\<open>while (elapsed < total)\<close> ends.
\<close>

lemma sw_mov_cy: "sw_mov op c = Some (c', cy) \<Longrightarrow> cy = 1 \<or> cy = 2"
  unfolding sw_mov_def by (simp add: split_def Let_def split: if_splits)

lemma sw_alu_cy: "sw_alu op c = Some (c', cy) \<Longrightarrow> cy = 1 \<or> cy = 2"
  unfolding sw_alu_def by (simp add: split_def Let_def split: if_splits)

lemma sw_inc_cy: "sw_inc op c = Some (c', cy) \<Longrightarrow> cy = 1 \<or> cy = 2"
  unfolding sw_inc_def by (simp add: split_def Let_def split: if_splits)

lemma sw_jmp_cy: "sw_jmp op c = Some (c', cy) \<Longrightarrow> cy = 1 \<or> cy = 2"
  unfolding sw_jmp_def jcond_def by (simp add: split_def Let_def split: if_splits)

lemma sw_ctl_cy: "sw_ctl op c = Some (c', cy) \<Longrightarrow> cy = 1 \<or> cy = 2"
  unfolding sw_ctl_def by (simp add: split_def Let_def split: if_splits)

lemma sw_io_cy: "sw_io op sys = Some (s', cy) \<Longrightarrow> cy = 1 \<or> cy = 2"
  unfolding sw_io_def by (simp add: split_def Let_def split: if_splits)

lemma sw_cpu_cy: "sw_cpu op c = Some (c', cy) \<Longrightarrow> cy = 1 \<or> cy = 2"
  unfolding sw_cpu_def
  by (auto split: option.splits dest: sw_mov_cy sw_alu_cy sw_inc_cy sw_jmp_cy sw_ctl_cy)

lemma i8048_switch_cy: "snd (i8048_switch op sys) = 1 \<or> snd (i8048_switch op sys) = 2"
  unfolding i8048_switch_def
  by (auto split: option.splits dest: sw_cpu_cy sw_io_cy)

lemma i8048_exec_cy: "snd (i8048_exec sys) = 1 \<or> snd (i8048_exec sys) = 2"
  using i8048_switch_cy[of "fst (ft (cpu sys))" "sys\<lparr>cpu := snd (ft (cpu sys))\<rparr>"]
  unfolding i8048_exec_def by (simp add: split_def Let_def)

lemma frame_iter_elapsed: "snd (frame_iter av e) = e + snd (i8048_exec av)"
  unfolding frame_iter_def by (simp add: split_def Let_def)

text \<open>
  The loop of \<^verbatim>\<open>av_run_frame\<close>. It returns the state, the value of the local
  \<^verbatim>\<open>elapsed\<close> when it stops, and whether it stopped by the debugger's \<^verbatim>\<open>return\<close>.
\<close>

function av_run_loop :: "AV \<Rightarrow> int \<Rightarrow> AV \<times> int \<times> bool" where
  "av_run_loop av elapsed =
     (if elapsed < CYCLES_PER_FR then
        if dbg_stop (dbg_check av) then (dbg_check av, elapsed, True)
        else av_run_loop (fst (frame_iter (dbg_check av) elapsed))
                         (snd (frame_iter (dbg_check av) elapsed))
      else (av, elapsed, False))"
  by pat_completeness auto
termination
proof (relation "measure (\<lambda>(av, elapsed). nat (CYCLES_PER_FR - elapsed))")
  show "wf (measure (\<lambda>(av, elapsed). nat (CYCLES_PER_FR - elapsed)))"
    by simp
next
  fix av :: AV and elapsed :: int
  assume "elapsed < CYCLES_PER_FR"
  moreover have "snd (i8048_exec (dbg_check av)) \<ge> 1"
    using i8048_exec_cy [of "dbg_check av"] by auto
  ultimately show "((fst (frame_iter (dbg_check av) elapsed),
                     snd (frame_iter (dbg_check av) elapsed)), av, elapsed)
        \<in> measure (\<lambda>(av, elapsed). nat (CYCLES_PER_FR - elapsed))"
    by (simp add: frame_iter_elapsed)
qed

declare av_run_loop.simps [simp del]

definition frame_begin :: "AV \<Rightarrow> AV" where
  "frame_begin av =
     av\<lparr>disp_sync_seen := False, disp_sync_cycle := 0,
        av_disp := (av_disp av)\<lparr>led_reg := (\<lambda>i. if 0 \<le> i \<and> i < 5 then 0xFF else led_reg (av_disp av) i),
                          led_col := 0, led_active := False\<rparr>\<rparr>"

definition capture_all :: "AV \<Rightarrow> AV" where
  "capture_all av =
     (if \<not> led_active (av_disp av) \<and> \<not> midframe_scan av
      then c_for 0 SW (\<lambda>col a. a\<lparr>av_disp := disp_capture_column (av_disp a) (xram (cpu a)) col\<rparr>) av
      else av)"

definition frame_end :: "AV \<Rightarrow> AV" where
  "frame_end av =
     (let av1 = capture_all av;
          av2 = av1\<lparr>av_disp := disp_update (av_disp av1) (cfg_phosphor av1)\<rparr>;
          av3 = av2\<lparr>frame_count := frame_count av2 + 1\<rparr>
      in rewind_push av3)"

definition av_run_frame :: "AV \<Rightarrow> AV" where
  "av_run_frame av =
     (case av_run_loop (frame_begin av) 0 of
        (av1, elapsed, stopped) \<Rightarrow> if stopped then av1 else frame_end av1)"

text \<open>
  The cycles the loop of one frame step lets the CPU execute: the final value of
  \<^verbatim>\<open>elapsed\<close>, and whether the debugger cut the frame short.
\<close>

definition frame_cycles :: "AV \<Rightarrow> int" where
  "frame_cycles av = fst (snd (av_run_loop (frame_begin av) 0))"

definition frame_stopped :: "AV \<Rightarrow> bool" where
  "frame_stopped av = snd (snd (av_run_loop (frame_begin av) 0))"

section \<open>Saved states\<close>

text \<open>
  A state file is its bytes; \<open>None\<close> is a file that cannot be opened. Multi-byte
  fields are little-endian, a \<^verbatim>\<open>float\<close> is an IEEE-754 binary32, and one
  \<^verbatim>\<open>SndStep\<close> takes 16 bytes (\<^verbatim>\<open>freq\<close> at 0, \<^verbatim>\<open>noise\<close> at 4, \<^verbatim>\<open>dur_ms\<close> at 8,
  \<^verbatim>\<open>volume\<close> at 12), as on the platforms the emulator is built for.
\<close>

definition SAVE_MAGIC :: u32 where "SAVE_MAGIC = 0x41563133"
definition SAVE_VER :: u32 where "SAVE_VER = 18"

definition le_nat :: "u8 list \<Rightarrow> nat" where
  "le_nat bs = foldr (\<lambda>b n. unat b + 256 * n) bs 0"

definition le_word :: "u8 list \<Rightarrow> 'a::len word" where
  "le_word bs = of_nat (le_nat bs)"

definition f32_of_bits :: "u32 \<Rightarrow> cfloat" where
  "f32_of_bits w =
     (let s = bit w 31;
          e = unat (drop_bit 23 w AND 0xFF);
          m = unat (w AND 0x7FFFFF)
      in if e = 255 then (if m = 0 then FInf s else FNaN)
         else FNum ((if s then -1 else 1) *
                (if e = 0 then real m / 2 ^ 149
                 else if e \<ge> 150 then real (2 ^ 23 + m) * 2 ^ (e - 150)
                 else real (2 ^ 23 + m) / 2 ^ (150 - e))))"

definition le_f32 :: "u8 list \<Rightarrow> cfloat" where
  "le_f32 bs = f32_of_bits (le_word bs)"

definition le_i32 :: "u8 list \<Rightarrow> int" where
  "le_i32 bs = sint (le_word bs :: u32)"

definition step_of_bytes :: "u8 list \<Rightarrow> SndStep" where
  "step_of_bytes bs = \<lparr> freq = le_f32 (take 4 bs), noise = (bs ! 4 \<noteq> 0),
     dur_ms = le_i32 (take 4 (drop 8 bs)), volume = le_f32 (take 4 (drop 12 bs)) \<rparr>"

text \<open>
  What \<^verbatim>\<open>load_state\<close> updates while it reads: the system and the two local flag
  bytes. A loader is the \<^verbatim>\<open>ok\<close> flag, the rest of the file, and these.
\<close>

record Loading =
  ld_av :: AV
  ld_flags :: u8
  ld_flags2 :: u8

type_synonym loader = "bool \<times> u8 list \<times> Loading"

text \<open>
  \<^verbatim>\<open>ok = ok && fread(dst, n, 1, f) == 1\<close>: nothing is read once \<^verbatim>\<open>ok\<close> is false; a
  read of \<open>n\<close> bytes succeeds when the file still has \<open>n\<close> bytes. A short read may leave
  part of the destination overwritten; the load is rejected then and the CPU and the sound
  state are restored from their backups, so the model keeps the destination as it was.
\<close>

definition rd :: "nat \<Rightarrow> (u8 list \<Rightarrow> Loading \<Rightarrow> Loading) \<Rightarrow> loader \<Rightarrow> loader" where
  "rd n store = (\<lambda>(ok, f, s).
     if \<not> ok then (ok, f, s)
     else if n \<le> length f then (True, drop n f, store (take n f) s)
     else (False, [], s))"

definition ld_cpu :: "(I8048 \<Rightarrow> I8048) \<Rightarrow> Loading \<Rightarrow> Loading" where
  "ld_cpu g s = s\<lparr>ld_av := (ld_av s)\<lparr>cpu := g (cpu (ld_av s))\<rparr>\<rparr>"

definition ld_snd :: "(COP411L \<Rightarrow> COP411L) \<Rightarrow> Loading \<Rightarrow> Loading" where
  "ld_snd g s = s\<lparr>ld_av := (ld_av s)\<lparr>av_snd := g (av_snd (ld_av s))\<rparr>\<rparr>"

text \<open>The reads of the CPU part, in the order of the file: the size and the destination.\<close>

definition load_cpu_fields :: "(nat \<times> (u8 list \<Rightarrow> Loading \<Rightarrow> Loading)) list" where
  "load_cpu_fields =
     [(1, \<lambda>b. ld_cpu (\<lambda>c. c\<lparr>A := le_word b\<rparr>)),
      (2, \<lambda>b. ld_cpu (\<lambda>c. c\<lparr>PC := le_word b\<rparr>)),
      (1, \<lambda>b. ld_cpu (\<lambda>c. c\<lparr>PSW := le_word b\<rparr>)),
      (1, \<lambda>b. ld_cpu (\<lambda>c. c\<lparr>SP := le_word b\<rparr>)),
      (1, \<lambda>b s. s\<lparr>ld_flags := le_word b\<rparr>),
      (1, \<lambda>b s. s\<lparr>ld_flags2 := le_word b\<rparr>),
      (1, \<lambda>b. ld_cpu (\<lambda>c. c\<lparr>timer := le_word b\<rparr>)),
      (1, \<lambda>b. ld_cpu (\<lambda>c. c\<lparr>P1 := le_word b\<rparr>)),
      (1, \<lambda>b. ld_cpu (\<lambda>c. c\<lparr>P2 := le_word b\<rparr>)),
      (1, \<lambda>b. ld_cpu (\<lambda>c. c\<lparr>BUS := le_word b\<rparr>)),
      (64, \<lambda>b. ld_cpu (\<lambda>c. c\<lparr>iram := (\<lambda>i. if i < 64 then b ! i else iram c i)\<rparr>)),
      (1024, \<lambda>b. ld_cpu (\<lambda>c. c\<lparr>xram := (\<lambda>i. if i < 1024 then b ! i else xram c i)\<rparr>)),
      (4, \<lambda>b. ld_cpu (\<lambda>c. c\<lparr>tpre := le_i32 b\<rparr>)),
      (8, \<lambda>b. ld_cpu (\<lambda>c. c\<lparr>cycles := le_word b\<rparr>))]"

text \<open>The reads of the COP411L part.\<close>

definition load_snd_fields :: "(nat \<times> (u8 list \<Rightarrow> Loading \<Rightarrow> Loading)) list" where
  "load_snd_fields =
     [(1, \<lambda>b. ld_snd (\<lambda>s. s\<lparr>ctrl_loop := le_word b\<rparr>)),
      (1, \<lambda>b. ld_snd (\<lambda>s. s\<lparr>ctrl_vol := le_word b\<rparr>)),
      (1, \<lambda>b. ld_snd (\<lambda>s. s\<lparr>ctrl_fast := le_word b\<rparr>)),
      (1, \<lambda>b. ld_snd (\<lambda>s. s\<lparr>proto_state := le_word b\<rparr>)),
      (1, \<lambda>b. ld_snd (\<lambda>s. s\<lparr>proto_hi := le_word b\<rparr>)),
      (2, \<lambda>b. ld_snd (\<lambda>s. s\<lparr>lfsr := le_word b\<rparr>)),
      (1, \<lambda>b. ld_snd (\<lambda>s. s\<lparr>active := (le_word b \<noteq> (0 :: u8))\<rparr>)),
      (1, \<lambda>b. ld_snd (\<lambda>s. s\<lparr>is_noise := (le_word b \<noteq> (0 :: u8))\<rparr>)),
      (1, \<lambda>b. ld_snd (\<lambda>s. s\<lparr>command := le_word b\<rparr>)),
      (4, \<lambda>b. ld_snd (\<lambda>s. s\<lparr>cur_freq := le_f32 b\<rparr>)),
      (4, \<lambda>b. ld_snd (\<lambda>s. s\<lparr>cur_vol := le_f32 b\<rparr>)),
      (4, \<lambda>b. ld_snd (\<lambda>s. s\<lparr>phase_acc := le_word b\<rparr>)),
      (4, \<lambda>b. ld_snd (\<lambda>s. s\<lparr>phase_inc := le_word b\<rparr>)),
      (4, \<lambda>b. ld_snd (\<lambda>s. s\<lparr>cur_step := le_i32 b\<rparr>)),
      (4, \<lambda>b. ld_snd (\<lambda>s. s\<lparr>step_count := le_i32 b\<rparr>)),
      (4, \<lambda>b. ld_snd (\<lambda>s. s\<lparr>step_samples_left := le_i32 b\<rparr>)),
      (4, \<lambda>b. ld_snd (\<lambda>s. s\<lparr>segment := le_i32 b\<rparr>)),
      (4, \<lambda>b. ld_snd (\<lambda>s. s\<lparr>seg_samples_left := le_i32 b\<rparr>)),
      (4, \<lambda>b. ld_snd (\<lambda>s. s\<lparr>seg_samples_total := le_i32 b\<rparr>)),
      (4, \<lambda>b. ld_snd (\<lambda>s. s\<lparr>seg1_vol := le_f32 b\<rparr>)),
      (4, \<lambda>b. ld_snd (\<lambda>s. s\<lparr>seg2_vol := le_f32 b\<rparr>)),
      (256, \<lambda>b. ld_snd (\<lambda>s. s\<lparr>steps := (\<lambda>i. if 0 \<le> i \<and> i < MAX_SND_STEPS
                 then step_of_bytes (take 16 (drop (16 * nat i) b)) else steps s i)\<rparr>))]"

text \<open>The reads are done in order, each by \<open>rd\<close> with its size and its destination.\<close>

definition run_reads ::
  "(nat \<times> (u8 list \<Rightarrow> Loading \<Rightarrow> Loading)) list \<Rightarrow> loader \<Rightarrow> loader" where
  "run_reads rs l = fold (\<lambda>(n, store). rd n store) rs l"

text \<open>After a complete read: the flags are unpacked, PC and SP masked, T0 tied high.\<close>

definition unpack_flags :: "u8 \<Rightarrow> u8 \<Rightarrow> I8048 \<Rightarrow> I8048" where
  "unpack_flags fl fl2 c =
     c\<lparr>MB := bit fl 0, C := bit fl 1, AC := bit fl 2, F0 := bit fl 3, F1 := bit fl 4,
       BS := bit fl 5, timer_en := bit fl 6, counter_en := bit fl 7,
       timer_ovf := bit fl2 0, tcnti_en := bit fl2 1, irq_en := bit fl2 2,
       irq_pend := bit fl2 3, in_irq := bit fl2 4,
       PC := PC c AND 0xFFF, SP := SP c AND 7, t0 := True\<rparr>"

definition sanitize_step :: "SndStep \<Rightarrow> SndStep" where
  "sanitize_step st =
     (let st1 = (if \<not> isfinite (freq st) \<or> f_lt (freq st) 0 then st\<lparr>freq := FNum 0\<rparr> else st);
          st2 = (if \<not> isfinite (volume st1) then st1\<lparr>volume := FNum 0\<rparr> else st1);
          st3 = (if f_lt (volume st2) 0 then st2\<lparr>volume := FNum 0\<rparr> else st2);
          st4 = (if f_gt (volume st3) 2 then st3\<lparr>volume := FNum 1\<rparr> else st3)
      in if dur_ms st4 < 0 then st4\<lparr>dur_ms := 1\<rparr> else st4)"

text \<open>
  The range checks on the loaded sound fields, one definition per group of statements,
  in the order of the source: the LFSR, the control register and the protocol state,
  the step count, the step cursor, the segment, the three sample counters, the current
  frequency, the current volume, the two segment volumes, and the loop over the steps.
\<close>

definition san_lfsr :: "COP411L \<Rightarrow> COP411L" where
  "san_lfsr s = (if lfsr s = 0 then s\<lparr>lfsr := 0x7FFF\<rparr> else s)"

definition san_ctrl :: "COP411L \<Rightarrow> COP411L" where
  "san_ctrl s =
     (let s1 = s\<lparr>ctrl_loop := ctrl_loop s AND 1, ctrl_vol := ctrl_vol s AND 3,
                 ctrl_fast := ctrl_fast s AND 1\<rparr>;
          s2 = (if proto_state s1 > 3 then s1\<lparr>proto_state := 0\<rparr> else s1)
      in s2\<lparr>proto_hi := proto_hi s2 AND 0x0F\<rparr>)"

definition san_step_count :: "COP411L \<Rightarrow> COP411L" where
  "san_step_count s =
     (if step_count s < 0 \<or> step_count s > MAX_SND_STEPS then s\<lparr>step_count := 0\<rparr> else s)"

definition san_cur_step :: "COP411L \<Rightarrow> COP411L" where
  "san_cur_step s =
     (if cur_step s < 0 \<or> cur_step s \<ge> step_count s then s\<lparr>cur_step := 0\<rparr> else s)"

definition san_segment :: "COP411L \<Rightarrow> COP411L" where
  "san_segment s = (if segment s < 0 \<or> segment s > 1 then s\<lparr>segment := 0\<rparr> else s)"

definition san_samples :: "COP411L \<Rightarrow> COP411L" where
  "san_samples s =
     (let s1 = (if step_samples_left s < 0 then s\<lparr>step_samples_left := 0\<rparr> else s);
          s2 = (if seg_samples_left s1 < 0 then s1\<lparr>seg_samples_left := 0\<rparr> else s1)
      in if seg_samples_total s2 < 0 then s2\<lparr>seg_samples_total := 0\<rparr> else s2)"

definition san_cur_freq :: "COP411L \<Rightarrow> COP411L" where
  "san_cur_freq s =
     (if \<not> isfinite (cur_freq s) \<or> f_lt (cur_freq s) 0 then s\<lparr>cur_freq := FNum 0\<rparr> else s)"

definition san_cur_vol :: "COP411L \<Rightarrow> COP411L" where
  "san_cur_vol s =
     (let s1 = (if \<not> isfinite (cur_vol s) \<or> f_lt (cur_vol s) 0
                then s\<lparr>cur_vol := FNum 0\<rparr> else s)
      in if f_gt (cur_vol s1) 2 then s1\<lparr>cur_vol := FNum 1\<rparr> else s1)"

definition san_seg_vols :: "COP411L \<Rightarrow> COP411L" where
  "san_seg_vols s =
     (let s1 = (if \<not> isfinite (seg1_vol s) then s\<lparr>seg1_vol := FNum 1\<rparr> else s)
      in if \<not> isfinite (seg2_vol s1) then s1\<lparr>seg2_vol := FNum 0.5\<rparr> else s1)"

definition san_steps :: "COP411L \<Rightarrow> COP411L" where
  "san_steps s =
     c_for 0 (step_count s)
       (\<lambda>si s'. s'\<lparr>steps := (steps s')(si := sanitize_step (steps s' si))\<rparr>) s"

definition sanitize_snd :: "COP411L \<Rightarrow> COP411L" where
  "sanitize_snd s =
     cop411_update_ctrl_vol (san_steps (san_seg_vols (san_cur_vol (san_cur_freq
       (san_samples (san_segment (san_cur_step (san_step_count
         (san_ctrl (san_lfsr s))))))))))"

text \<open>
  \<^verbatim>\<open>load_state\<close> returns whether the state was loaded, and the system afterwards. The
  magic number and the version are checked before anything is changed; the CPU and the
  sound state are backed up before the fields are read, and put back if a read fails.
\<close>

definition load_state :: "AV \<Rightarrow> u8 list option \<Rightarrow> bool \<times> AV" where
  "load_state av src =
     (case src of
        None \<Rightarrow> (False, av)
      | Some f0 \<Rightarrow>
          if \<not> (4 \<le> length f0) \<or> le_word (take 4 f0) \<noteq> SAVE_MAGIC then (False, av)
          else
            let f1 = drop 4 f0 in
            if \<not> (4 \<le> length f1) \<or> le_word (take 4 f1) \<noteq> SAVE_VER then (False, av)
            else
              let f2 = drop 4 f1;
                  cpu_bak = cpu av;
                  snd_bak = av_snd av;
                  (ok, f3, l) = run_reads (load_cpu_fields @ load_snd_fields)
                                  (True, f2, \<lparr> ld_av = av, ld_flags = 0, ld_flags2 = 0 \<rparr>);
                  av1 = ld_av l
              in if \<not> ok then (False, av1\<lparr>cpu := cpu_bak, av_snd := snd_bak\<rparr>)
                 else
                   let av2 = upd_cpu (unpack_flags (ld_flags l) (ld_flags2 l)) av1;
                       av3 = upd_cpu (\<lambda>c. c\<lparr>irom := irom cpu_bak, erom := erom cpu_bak\<rparr>) av2
                   in (True, av3\<lparr>av_snd := sanitize_snd (av_snd av3)\<rparr>))"

section \<open>Vocabulary of the properties\<close>

text \<open>Delivering a sequence of bytes to port 2, one \<^verbatim>\<open>av_port_write\<close> each, in order.\<close>

definition p2_writes :: "AV \<Rightarrow> u8 list \<Rightarrow> AV" where
  "p2_writes av vals = foldl (\<lambda>a v. av_port_write a 2 v) av vals"

section \<open>States of the concrete checks\<close>

text \<open>
  The power-up state with \<^verbatim>\<open>EI\<close> (0x05) at address 0, a timer interrupt pending, the
  interrupts enabled and none in service.
\<close>

definition ei_pending_av :: AV where
  "ei_pending_av = av_init\<lparr>cpu := (cpu av_init)\<lparr>irom := (irom (cpu av_init))(0 := 0x05),
      irq_en := True, irq_pend := True, in_irq := False\<rparr>\<rparr>"

text \<open>
  A used system: registers, both RAMs and the control register of the COP411L hold
  non-zero values, and both ROM images are loaded.
\<close>

definition dirty_av :: AV where
  "dirty_av = av_init\<lparr>
     cpu := (cpu av_init)\<lparr>A := 0x42, PC := 0x123, iram := (\<lambda>i. 0xAA), xram := (\<lambda>i. 0x55),
               irom := (\<lambda>i. 0x23), erom := (\<lambda>i. 0x42)\<rparr>,
     av_snd := (av_snd av_init)\<lparr>ctrl_loop := 1, ctrl_vol := 2, ctrl_fast := 1\<rparr>\<rparr>"

text \<open>
  \<^verbatim>\<open>MOVX A,@R0\<close> (0x80) and \<^verbatim>\<open>MOVX @R0,A\<close> (0x90) at address 0, with P1 = 0x03,
  R0 = 0x55 and P2 = 0x80, which selects LED register 0.
\<close>

definition movx_rd_av :: AV where
  "movx_rd_av = av_init\<lparr>cpu := (cpu av_init)\<lparr>irom := (irom (cpu av_init))(0 := 0x80),
      P1 := 0x03, P2 := 0x80, iram := (iram (cpu av_init))(0 := 0x55),
      xram := (xram (cpu av_init))(0x355 := 0x5A)\<rparr>\<rparr>"

definition movx_wr_av :: AV where
  "movx_wr_av = av_init\<lparr>cpu := (cpu av_init)\<lparr>irom := (irom (cpu av_init))(0 := 0x90),
      P1 := 0x03, P2 := 0x80, A := 0x77, iram := (iram (cpu av_init))(0 := 0x55)\<rparr>\<rparr>"

text \<open>
  The power-up state with \<^verbatim>\<open>JMP 0x000\<close> (0x04, 0x00) at address 0: a program of
  two-cycle instructions only.
\<close>

definition jmp_self_av :: AV where
  "jmp_self_av = av_init\<lparr>cpu := (cpu av_init)\<lparr>irom := (irom (cpu av_init))(0 := 0x04, 1 := 0x00)\<rparr>\<rparr>"

text \<open>
  The debugger cannot stop a frame: it is inactive, or no breakpoint is set and it is
  not single-stepping. The program never writes the breakpoint table or its count, which
  \<^verbatim>\<open>av_init\<close> clears, sets \<^verbatim>\<open>stepping\<close> only at a breakpoint, and calls the frame step
  only while \<^verbatim>\<open>stepping\<close> is false.
\<close>

definition dbg_quiet :: "AVDbg \<Rightarrow> bool" where
  "dbg_quiet g = (dbg_active g \<longrightarrow> dbg_bp_count g \<le> 0 \<and> \<not> dbg_stepping g)"

text \<open>The power-up state after the debugger has been switched on (key F1).\<close>

definition dbg_on_av :: AV where
  "dbg_on_av = av_init\<lparr>dbg := (dbg av_init)\<lparr>dbg_active := True\<rparr>\<rparr>"

text \<open>
  What stays true while that program runs: PC is back at 0 after each instruction, the
  timer and the counter are off, no interrupt is pending and the debugger cannot stop
  the frame.
\<close>

definition spinning :: "AV \<Rightarrow> bool" where
  "spinning av = (PC (cpu av) = 0 \<and> irom (cpu av) 0 = 0x04 \<and> irom (cpu av) (Suc 0) = 0x00
     \<and> P1 (cpu av) AND 0x04 = 0 \<and> \<not> MB (cpu av) \<and> \<not> timer_en (cpu av)
     \<and> \<not> counter_en (cpu av) \<and> \<not> irq_pend (cpu av) \<and> dbg_quiet (dbg av))"


text \<open>
  What stays true while a ROM of zero bytes (\<^verbatim>\<open>NOP\<close>, one cycle each) runs, as on the
  power-up state before any image is loaded.
\<close>

definition idling :: "AV \<Rightarrow> bool" where
  "idling av = (irom (cpu av) = (\<lambda>i. 0) \<and> erom (cpu av) = (\<lambda>i. 0) \<and> \<not> timer_en (cpu av)
     \<and> \<not> counter_en (cpu av) \<and> \<not> irq_pend (cpu av) \<and> dbg_quiet (dbg av))"

section \<open>Vocabulary of the display properties\<close>

text \<open>The floor of the decay loop: \<^verbatim>\<open>if (v < 0.01f) v = 0.0f\<close>.\<close>

definition floor01 :: "real \<Rightarrow> real" where
  "floor01 v = (if v < FLT_0_01 then 0 else v)"


text \<open>
  Pixel \<open>i\<close> is lit by the captured columns of \<open>d\<close>: it is the pixel of a bit that is
  clear (LED on) in one of the five bytes of one of the columns the update consumes.
\<close>

definition lit :: "AVDisp \<Rightarrow> int \<Rightarrow> bool" where
  "lit d i = (\<exists>col bi b. 0 \<le> col \<and> col < update_cols d \<and> 0 \<le> bi \<and> bi < 5 \<and> 0 \<le> b \<and> b < 8
       \<and> i = col + ((4 - bi) * 8 + (7 - b)) * SW \<and> \<not> bit (col_data d col bi) (nat b))"


text \<open>
  The lighting loops keep everything but the phosphor buffer, and a pixel they change
  is a lit pixel set to 1.
\<close>

definition light_inv :: "AVDisp \<Rightarrow> AVDisp \<Rightarrow> bool" where
  "light_inv d1 d' = (col_data d' = col_data d1 \<and> cols_captured d' = cols_captured d1
      \<and> led_reg d' = led_reg d1 \<and> led_col d' = led_col d1 \<and> led_active d' = led_active d1
      \<and> (\<forall>i. phosphor d' i = phosphor d1 i \<or> (phosphor d' i = 1 \<and> lit d1 i)))"


text \<open>
  \<open>d'\<close> differs from \<open>d\<close> in no cell of \<^verbatim>\<open>col_data\<close> outside the array
  \<^verbatim>\<open>col_data[SW][5]\<close>: no write went out of bounds.
\<close>

definition col_frame :: "AVDisp \<Rightarrow> AVDisp \<Rightarrow> bool" where
  "col_frame d d' = (\<forall>c i. \<not> (0 \<le> c \<and> c < SW \<and> 0 \<le> i \<and> i < 5) \<longrightarrow> col_data d' c i = col_data d c i)"


text \<open>
  The events that write the column snapshot during a frame: a rising edge of P2.4
  (\<^verbatim>\<open>disp_latch_led_column\<close>) and a capture request for any column number from any
  external RAM contents (\<^verbatim>\<open>disp_capture_column\<close>).
\<close>

datatype disp_event = Strobe | Capture "nat \<Rightarrow> u8" int

fun disp_run :: "AVDisp \<Rightarrow> disp_event list \<Rightarrow> AVDisp" where
  "disp_run d [] = d"
| "disp_run d (Strobe # es) = disp_run (disp_latch_led_column d) es"
| "disp_run d (Capture x col # es) = disp_run (disp_capture_column d x col) es"


text \<open>
  The display states the emulator can reach: the power-up state, and from a reachable
  state the soft reset (phosphor cleared), the start of a frame, the column-counter reset
  at the T1 sync, the LED latch of a MOVX read, a P2.4 strobe, a column capture, the
  end-of-frame update with a decay constant in [0,1] (the only values the configuration
  accepts), and the rewind, which puts back the phosphor buffer of an earlier state.
\<close>

inductive disp_reach :: "AVDisp \<Rightarrow> bool" where
  reach_init: "disp_reach (av_disp av_init)"
| reach_reset: "disp_reach d \<Longrightarrow> disp_reach (d\<lparr>phosphor := (\<lambda>i. 0)\<rparr>)"
| reach_frame: "disp_reach d \<Longrightarrow> disp_reach (av_disp (frame_begin (av\<lparr>av_disp := d\<rparr>)))"
| reach_sync: "disp_reach d \<Longrightarrow> disp_reach (d\<lparr>led_col := 0\<rparr>)"
| reach_latch: "disp_reach d \<Longrightarrow> disp_reach (av_disp (av_led_latch (av\<lparr>av_disp := d\<rparr>) p2 v))"
| reach_strobe: "disp_reach d \<Longrightarrow> disp_reach (disp_latch_led_column d)"
| reach_capture: "disp_reach d \<Longrightarrow> disp_reach (disp_capture_column d x col)"
| reach_update: "disp_reach d \<Longrightarrow> 0 \<le> k \<Longrightarrow> k \<le> 1 \<Longrightarrow> disp_reach (disp_update d k)"
| reach_rewind: "disp_reach d \<Longrightarrow> disp_reach d' \<Longrightarrow> disp_reach (d\<lparr>phosphor := phosphor d'\<rparr>)"


text \<open>A one-LED picture: LED register 0 holds 0xFE and is strobed into column 0.\<close>

definition one_led_disp :: AVDisp where
  "one_led_disp = disp_latch_led_column (av_disp (av_led_latch av_init 0x80 0xFE))"


section \<open>Vocabulary of the saved-state properties\<close>

text \<open>
  \<open>same_rest av av'\<close>: \<open>av'\<close> differs from \<open>av\<close> at most in the CPU and in the sound
  processor, the two parts \<^verbatim>\<open>load_state\<close> backs up. \<open>keeps_rest av store\<close>: the
  destination \<open>store\<close> of a read writes into these two parts (or into the flag bytes) only.
\<close>

definition same_rest :: "AV \<Rightarrow> AV \<Rightarrow> bool" where
  "same_rest av av' = (av'\<lparr>cpu := cpu av, av_snd := av_snd av\<rparr> = av)"

definition keeps_rest :: "AV \<Rightarrow> (u8 list \<Rightarrow> Loading \<Rightarrow> Loading) \<Rightarrow> bool" where
  "keeps_rest av store = (\<forall>b l. same_rest av (ld_av l) \<longrightarrow> same_rest av (ld_av (store b l)))"

text \<open>
  Saved-state files. The header is the magic \<^verbatim>\<open>AV13\<close> (0x41563133, little endian) and
  the version 18; the body has 1425 bytes, of which \<^verbatim>\<open>cur_step\<close> is at offset 1137
  and \<^verbatim>\<open>step_count\<close> at offset 1141.
  \<^item> \<open>zero_state_file\<close>: a body of zeros, so \<^verbatim>\<open>step_count = 0\<close>, as in every state saved
    while no effect has been started.
  \<^item> \<open>playing_state_file\<close>: \<^verbatim>\<open>cur_step = 2\<close> of \<^verbatim>\<open>step_count = 3\<close>.
  \<^item> \<open>crafted_state_file\<close>: \<^verbatim>\<open>cur_step = 7\<close> and \<^verbatim>\<open>step_count = 20\<close>, more than the
    16 steps of the array.
  \<^item> \<open>truncated_state_file\<close>: a valid header and three bytes, which end in the middle of
    the CPU registers.
\<close>

definition zeros :: "nat \<Rightarrow> u8 list" where
  "zeros n = replicate n 0"

definition save_header :: "u8 list" where
  "save_header = [0x33, 0x31, 0x56, 0x41, 0x12, 0x00, 0x00, 0x00]"

definition zero_state_file :: "u8 list" where
  "zero_state_file = save_header @ zeros 1425"

definition playing_state_file :: "u8 list" where
  "playing_state_file = save_header @ zeros 1137
      @ [0x02, 0x00, 0x00, 0x00, 0x03, 0x00, 0x00, 0x00] @ zeros 280"

definition crafted_state_file :: "u8 list" where
  "crafted_state_file = save_header @ zeros 1137
      @ [0x07, 0x00, 0x00, 0x00, 0x14, 0x00, 0x00, 0x00] @ zeros 280"

definition truncated_state_file :: "u8 list" where
  "truncated_state_file = save_header @ [0x01, 0x02, 0x03]"

section \<open>Auxiliary facts\<close>

lemma note_freq_0: "cop411_note_freq 0 = FNum 239.23"
  by (simp add: cop411_note_freq_def)

lemma note_freq_5: "cop411_note_freq 5 = FNum 320.92"
  by (simp add: cop411_note_freq_def)

lemma av_snd_port2: "av_snd (av_port_write av 2 v) = snd_protocol (av_snd av) v"
  by (simp add: av_port_write_def Let_def)

lemmas sw_defs = sw_cpu_def sw_mov_def sw_alu_def sw_inc_def sw_jmp_def sw_ctl_def

lemmas init_defs = av_init_def cpu_power_up_def cpu_zero_def disp_zero_def cop411_init_def
  input_zero_def

text \<open>The prescaler loop changes only what \<^verbatim>\<open>timer_inc\<close> and the prescaler change.\<close>

lemma prescaler_loop_frame:
  assumes "\<And>c. f (timer_inc c) = f c" and "\<And>c x. f (c\<lparr>tpre := x\<rparr>) = f c"
  shows "f (prescaler_loop c) = f c"
proof (induction c rule: prescaler_loop.induct)
  case (1 c)
  show ?case
  proof (cases "tpre c \<ge> 32")
    case True
    then have "f (prescaler_loop c) = f (prescaler_loop (timer_inc (c\<lparr>tpre := tpre c - 32\<rparr>)))"
      by (subst prescaler_loop.simps) simp
    also have "\<dots> = f (timer_inc (c\<lparr>tpre := tpre c - 32\<rparr>))"
      using 1 True by simp
    also have "\<dots> = f c" by (simp add: assms)
    finally show ?thesis .
  next
    case False
    then show ?thesis by (subst prescaler_loop.simps) simp
  qed
qed

lemma A_prescaler: "A (prescaler_loop c) = A c"
  by (rule prescaler_loop_frame) (simp_all add: timer_inc_def Let_def)

lemma A_irq_dispatch: "A (irq_dispatch c) = A c"
  by (simp add: irq_dispatch_def push8_def bpsw_def Let_def)

lemma A_exec_post: "A (exec_post cy c) = A c"
  by (simp add: exec_post_def Let_def A_irq_dispatch A_prescaler)

lemma xram_prescaler: "xram (prescaler_loop c) = xram c"
  by (rule prescaler_loop_frame) (simp_all add: timer_inc_def Let_def)

lemma xram_irq_dispatch: "xram (irq_dispatch c) = xram c"
  by (simp add: irq_dispatch_def push8_def bpsw_def Let_def)

lemma xram_exec_post: "xram (exec_post cy c) = xram c"
  by (simp add: exec_post_def Let_def xram_irq_dispatch xram_prescaler)

lemma i8048_exec_unfold:
  "i8048_exec sys =
     (upd_cpu (exec_post (snd (i8048_switch (rom_rd (cpu sys) (PC (cpu sys)))
                                 (sys\<lparr>cpu := snd (ft (cpu sys))\<rparr>))))
         (fst (i8048_switch (rom_rd (cpu sys) (PC (cpu sys))) (sys\<lparr>cpu := snd (ft (cpu sys))\<rparr>))),
      snd (i8048_switch (rom_rd (cpu sys) (PC (cpu sys))) (sys\<lparr>cpu := snd (ft (cpu sys))\<rparr>)))"
  by (simp add: i8048_exec_def ft_def split_def Let_def)

lemma sw_cpu_80: "sw_cpu 0x80 c = None" by (simp add: sw_defs)
lemma sw_cpu_81: "sw_cpu 0x81 c = None" by (simp add: sw_defs)
lemma sw_cpu_90: "sw_cpu 0x90 c = None" by (simp add: sw_defs)
lemma sw_cpu_91: "sw_cpu 0x91 c = None" by (simp add: sw_defs)

lemma switch_movx_rd:
  assumes "op \<in> {0x80, 0x81}"
  shows "i8048_switch op s =
     (av_led_latch (upd_cpu (\<lambda>c. c\<lparr>A := xram_rd (cpu s) (getR (cpu s) (op AND 1))\<rparr>) s)
        (P2 (cpu s)) (xram_rd (cpu s) (getR (cpu s) (op AND 1))), 2)"
  using assms
  by (elim insertE emptyE;
      simp add: i8048_switch_def sw_cpu_80 sw_cpu_81 sw_io_def Let_def upd_cpu_def)

lemma switch_movx_wr:
  assumes "op \<in> {0x90, 0x91}"
  shows "i8048_switch op s = (upd_cpu (\<lambda>c. xram_wr (getR c (op AND 1)) (A c) c) s, 2)"
  using assms
  by (elim insertE emptyE;
      simp add: i8048_switch_def sw_cpu_90 sw_cpu_91 sw_io_def Let_def upd_cpu_def)

lemma ft_frame:
  "xram (snd (ft c)) = xram c" "A (snd (ft c)) = A c" "P1 (snd (ft c)) = P1 c"
  "P2 (snd (ft c)) = P2 c" "iram (snd (ft c)) = iram c" "BS (snd (ft c)) = BS c"
  by (simp_all add: ft_def)

text \<open>The external RAM address \<^verbatim>\<open>((P1 & 3) << 8) | addr\<close> as a number.\<close>

lemma and_3_le: "unat (p AND (3 :: u8)) \<le> 3"
  by (metis (no_types, lifting) le_unat_uoi linorder_linear of_nat_numeral
      word_and_le1 word_le_nat_alt)

lemma nat_or_add:
  fixes n m :: nat
  assumes "m < 256"
  shows "(n * 256) OR m = n * 256 + m"
proof -
  have "n * 256 + m = (n * 256) OR m"
  proof (rule disjunctive_add)
    fix k
    show "\<not> bit (n * 256) k \<or> \<not> bit m k"
    proof (cases "k < 8")
      case True
      have "n * 256 = push_bit 8 n" by (simp add: push_bit_eq_mult)
      then have "\<not> bit (n * 256) k" using True by (simp add: bit_push_bit_iff)
      then show ?thesis by simp
    next
      case False
      have "m < 2 ^ 8" using assms by simp
      then have "take_bit 8 m = m" by (simp add: take_bit_nat_eq_self_iff)
      then have "bit m k = bit (take_bit 8 m) k" by simp
      then have "\<not> bit m k" using False by (simp add: bit_take_bit_iff)
      then show ?thesis by simp
    qed
  qed
  then show ?thesis by simp
qed

lemma xram_addr_eq: "xram_addr c r = 256 * unat (P1 c AND 3) + unat r"
proof -
  let ?q = "P1 c AND (3 :: u8)"
  have q: "unat ?q \<le> 3" by (rule and_3_le)
  have r: "unat r < 256" using unsigned_less [of r] by simp
  have m: "(1023 :: u16) = mask 10" by (simp add: mask_eq_exp_minus_1)
  have u1: "unat (ucast ?q :: u16) = unat ?q"
    using q by (simp add: unsigned_ucast_eq take_bit_nat_eq_self_iff)
  have u2: "unat (ucast r :: u16) = unat r"
    using r by (simp add: unsigned_ucast_eq take_bit_nat_eq_self_iff)
  have u3: "unat (push_bit 8 (ucast ?q :: u16)) = unat ?q * 256"
  proof -
    have "unat (ucast ?q :: u16) * unat (256 :: u16) < 2 ^ LENGTH(16)"
      using q by (simp add: u1)
    then have "unat ((ucast ?q :: u16) * 256) = unat (ucast ?q :: u16) * unat (256 :: u16)"
      by (simp only: unat_mult_lem)
    then show ?thesis by (simp add: push_bit_eq_mult u1)
  qed
  have "unat ((push_bit 8 (ucast ?q :: u16) OR ucast r) AND 1023)
      = unat (take_bit 10 (push_bit 8 (ucast ?q :: u16) OR ucast r))"
    by (simp only: m take_bit_eq_mask)
  also have "\<dots> = take_bit 10 (unat (push_bit 8 (ucast ?q :: u16)) OR unat (ucast r :: u16))"
    by (simp only: unsigned_take_bit_eq unsigned_or_eq)
  also have "\<dots> = take_bit 10 (unat ?q * 256 + unat r)"
    by (simp only: u2 u3 nat_or_add [OF r])
  also have "\<dots> = unat ?q * 256 + unat r"
    using q r by (simp add: take_bit_nat_eq_self_iff)
  finally show ?thesis by (simp add: xram_addr_def Let_def)
qed

text \<open>What the switch leaves alone: the cycle counter and the debugger.\<close>

lemma cycles_helpers:
  "cycles (snd (ft c)) = cycles c" "cycles (setR r v c) = cycles c" "cycles (add_A t n c) = cycles c"
  "cycles (da_A c) = cycles c" "cycles (page_jump t c) = cycles c" "cycles (long_jump op t c) = cycles c"
  "cycles (push8 c) = cycles c" "cycles (bpsw c) = cycles c" "cycles (pop_pc c) = cycles c"
  "cycles (pop_pc_psw c) = cycles c" "cycles (unpack_psw c) = cycles c"
  by (simp_all add: ft_def setR_def add_A_def da_A_def page_jump_def long_jump_def push8_def
      bpsw_def pop_pc_def pop_pc_psw_def unpack_psw_def Let_def)

lemma sw_mov_cycles: "sw_mov op c = Some (c', cy) \<Longrightarrow> cycles c' = cycles c"
  unfolding sw_mov_def
  by (auto simp: split_def Let_def cycles_helpers split: if_splits)

lemma sw_alu_cycles: "sw_alu op c = Some (c', cy) \<Longrightarrow> cycles c' = cycles c"
  unfolding sw_alu_def
  by (auto simp: split_def Let_def cycles_helpers split: if_splits)

lemma sw_inc_cycles: "sw_inc op c = Some (c', cy) \<Longrightarrow> cycles c' = cycles c"
  unfolding sw_inc_def
  by (auto simp: split_def Let_def cycles_helpers split: if_splits)

lemma sw_jmp_cycles: "sw_jmp op c = Some (c', cy) \<Longrightarrow> cycles c' = cycles c"
  unfolding sw_jmp_def jcond_def
  by (auto simp: split_def Let_def cycles_helpers split: if_splits)

lemma sw_ctl_cycles: "sw_ctl op c = Some (c', cy) \<Longrightarrow> cycles c' = cycles c"
  unfolding sw_ctl_def
  by (auto simp: split_def Let_def cycles_helpers split: if_splits)

lemma sw_cpu_cycles: "sw_cpu op c = Some (c', cy) \<Longrightarrow> cycles c' = cycles c"
  unfolding sw_cpu_def
  by (auto split: option.splits dest: sw_mov_cycles sw_alu_cycles sw_inc_cycles sw_jmp_cycles sw_ctl_cycles)

lemma port_write_frame:
  "cycles (cpu (av_port_write av p v)) = cycles (cpu av)"
  "dbg (av_port_write av p v) = dbg av"
  by (simp_all add: av_port_write_def Let_def)

lemma led_latch_frame:
  "cycles (cpu (av_led_latch av p v)) = cycles (cpu av)"
  "dbg (av_led_latch av p v) = dbg av"
  by (simp_all add: av_led_latch_def Let_def)

lemma sw_io_cycles: "sw_io op sys = Some (s', cy) \<Longrightarrow> cycles (cpu s') = cycles (cpu sys)"
  unfolding sw_io_def
  by (auto simp: split_def Let_def cycles_helpers port_write_frame led_latch_frame upd_cpu_def xram_wr_def split: if_splits)

lemma sw_io_dbg: "sw_io op sys = Some (s', cy) \<Longrightarrow> dbg s' = dbg sys"
  unfolding sw_io_def
  by (auto simp: split_def Let_def port_write_frame led_latch_frame upd_cpu_def split: if_splits)

lemma i8048_switch_cycles: "cycles (cpu (fst (i8048_switch op sys))) = cycles (cpu sys)"
  unfolding i8048_switch_def
  by (auto split: option.splits dest: sw_cpu_cycles sw_io_cycles)

lemma i8048_switch_dbg: "dbg (fst (i8048_switch op sys)) = dbg sys"
  unfolding i8048_switch_def
  by (auto split: option.splits dest: sw_io_dbg)

lemma cycles_prescaler: "cycles (prescaler_loop c) = cycles c"
  by (rule prescaler_loop_frame) (simp_all add: timer_inc_def Let_def)

lemma cycles_irq_dispatch: "cycles (irq_dispatch c) = cycles c"
  by (simp add: irq_dispatch_def push8_def bpsw_def Let_def)

lemma cycles_exec_post: "cycles (exec_post cy c) = cycles c + word_of_int cy"
  by (simp add: exec_post_def Let_def cycles_irq_dispatch cycles_prescaler)

lemma i8048_exec_cycles:
  "cycles (cpu (fst (i8048_exec sys))) = cycles (cpu sys) + word_of_int (snd (i8048_exec sys))"
  by (simp add: i8048_exec_unfold upd_cpu_def cycles_exec_post i8048_switch_cycles cycles_helpers)

lemma i8048_exec_dbg: "dbg (fst (i8048_exec sys)) = dbg sys"
  by (simp add: i8048_exec_unfold upd_cpu_def i8048_switch_dbg)

lemma cycles_timer_inc: "cycles (timer_inc c) = cycles c"
  by (simp add: timer_inc_def Let_def)

lemma frame_iter_cycles:
  "cycles (cpu (fst (frame_iter av e))) = cycles (cpu av) + word_of_int (snd (i8048_exec av))"
  by (simp add: frame_iter_def split_def Let_def upd_cpu_def cycles_timer_inc i8048_exec_cycles)

lemma frame_iter_dbg: "dbg (fst (frame_iter av e)) = dbg av"
  by (simp add: frame_iter_def split_def Let_def upd_cpu_def i8048_exec_dbg)

lemma dbg_check_quiet: "dbg_quiet (dbg av) \<Longrightarrow> dbg_check av = av"
  by (auto simp: dbg_check_def dbg_quiet_def)

lemma dbg_stop_quiet: "dbg_quiet (dbg av) \<Longrightarrow> \<not> dbg_stop av"
  by (auto simp: dbg_stop_def dbg_quiet_def)

lemma run_loop_props:
  assumes "dbg_quiet (dbg av)"
  shows "\<not> snd (snd (av_run_loop av e))
       \<and> dbg (fst (av_run_loop av e)) = dbg av
       \<and> cycles (cpu (fst (av_run_loop av e))) =
           cycles (cpu av) + word_of_int (fst (snd (av_run_loop av e)) - e)
       \<and> (if e < CYCLES_PER_FR
          then fst (snd (av_run_loop av e)) = CYCLES_PER_FR
             \<or> fst (snd (av_run_loop av e)) = CYCLES_PER_FR + 1
          else fst (snd (av_run_loop av e)) = e)"
  using assms
proof (induction av e rule: av_run_loop.induct)
  case (1 av e)
  show ?case
  proof (cases "e < CYCLES_PER_FR")
    case False
    then show ?thesis by (subst (1 2 3 4 5) av_run_loop.simps) simp
  next
    case True
    have chk: "dbg_check av = av" using 1(2) by (rule dbg_check_quiet)
    have nostop: "\<not> dbg_stop (dbg_check av)" using 1(2) by (simp add: chk dbg_stop_quiet)
    let ?av = "fst (frame_iter av e)" and ?e = "snd (frame_iter av e)"
    have inact: "dbg_quiet (dbg ?av)" using 1(2) by (simp add: frame_iter_dbg)
    have IH: "\<not> snd (snd (av_run_loop ?av ?e))
       \<and> dbg (fst (av_run_loop ?av ?e)) = dbg ?av
       \<and> cycles (cpu (fst (av_run_loop ?av ?e))) =
           cycles (cpu ?av) + word_of_int (fst (snd (av_run_loop ?av ?e)) - ?e)
       \<and> (if ?e < CYCLES_PER_FR
          then fst (snd (av_run_loop ?av ?e)) = CYCLES_PER_FR
             \<or> fst (snd (av_run_loop ?av ?e)) = CYCLES_PER_FR + 1
          else fst (snd (av_run_loop ?av ?e)) = ?e)"
      using "1.IH" [OF True nostop, unfolded chk, OF inact] .
    have unf: "av_run_loop av e = av_run_loop ?av ?e"
      using True nostop by (subst av_run_loop.simps) (simp add: chk)
    have e': "?e = e + snd (i8048_exec av)" by (rule frame_iter_elapsed)
    have cy: "snd (i8048_exec av) = 1 \<or> snd (i8048_exec av) = 2" by (rule i8048_exec_cy)
    have cyc: "cycles (cpu ?av) = cycles (cpu av) + word_of_int (snd (i8048_exec av))"
      by (rule frame_iter_cycles)
    from IH have c1: "cycles (cpu (fst (av_run_loop ?av ?e))) =
           cycles (cpu av) + word_of_int (fst (snd (av_run_loop ?av ?e)) - e)"
      by (simp add: cyc e' flip: add.assoc)
    from IH True cy have c2: "fst (snd (av_run_loop ?av ?e)) = CYCLES_PER_FR
             \<or> fst (snd (av_run_loop ?av ?e)) = CYCLES_PER_FR + 1"
      unfolding e' by (auto split: if_splits)
    from IH c1 c2 True show ?thesis
      unfolding unf by (simp add: frame_iter_dbg)
  qed
qed

lemma c_for_inv:
  assumes "P s" and "\<And>i s. P s \<Longrightarrow> P (body i s)"
  shows "P (c_for lo n body s)"
  using assms
proof (induction lo n body s rule: c_for.induct)
  case (1 i n body s)
  show ?case
  proof (cases "i < n")
    case True
    have "P (body i s)" using "1.prems" by blast
    then have "P (c_for (i + 1) n body (body i s))"
      using True "1.prems"(2) by (intro "1.IH") auto
    then show ?thesis using True by (subst c_for.simps) simp
  next
    case False
    then show ?thesis using "1.prems" by (subst c_for.simps) simp
  qed
qed

lemma cpu_capture_all: "cpu (capture_all av) = cpu av"
  unfolding capture_all_def
  by (cases "\<not> led_active (av_disp av) \<and> \<not> midframe_scan av")
     (auto intro!: c_for_inv [where P = "\<lambda>a. cpu a = cpu av"])

lemma cpu_rewind_push: "cpu (rewind_push av) = cpu av"
  by (simp add: rewind_push_def Let_def split: option.splits)

lemma cpu_frame_end: "cpu (frame_end av) = cpu av"
  by (simp add: frame_end_def Let_def cpu_rewind_push cpu_capture_all)

lemma frame_begin_frame: "cpu (frame_begin av) = cpu av" "dbg (frame_begin av) = dbg av"
  by (simp_all add: frame_begin_def)

lemma dbg_capture_all: "dbg (capture_all av) = dbg av"
  unfolding capture_all_def
  by (cases "\<not> led_active (av_disp av) \<and> \<not> midframe_scan av")
     (auto intro!: c_for_inv [where P = "\<lambda>a. dbg a = dbg av"])

lemma dbg_rewind_push: "dbg (rewind_push av) = dbg av"
  by (simp add: rewind_push_def Let_def split: option.splits)

lemma dbg_frame_end: "dbg (frame_end av) = dbg av"
  by (simp add: frame_end_def Let_def dbg_rewind_push dbg_capture_all)

lemma frame_props:
  assumes "dbg_quiet (dbg av)"
  shows "(frame_cycles av = CYCLES_PER_FR \<or> frame_cycles av = CYCLES_PER_FR + 1)
       \<and> \<not> frame_stopped av
       \<and> av_run_frame av = frame_end (fst (av_run_loop (frame_begin av) 0))
       \<and> cycles (cpu (av_run_frame av)) = cycles (cpu av) + word_of_int (frame_cycles av)
       \<and> dbg (av_run_frame av) = dbg av"
proof -
  have inact: "dbg_quiet (dbg (frame_begin av))" using assms by (simp add: frame_begin_frame)
  note lp = run_loop_props [OF inact, of 0]
  have st: "\<not> frame_stopped av" using lp by (simp add: frame_stopped_def)
  have run: "av_run_frame av = frame_end (fst (av_run_loop (frame_begin av) 0))"
    using lp by (simp add: av_run_frame_def split_def)
  have cyc: "cycles (cpu (av_run_frame av)) = cycles (cpu av) + word_of_int (frame_cycles av)"
    using lp by (simp add: run cpu_frame_end frame_cycles_def frame_begin_frame)
  have rng: "frame_cycles av = CYCLES_PER_FR \<or> frame_cycles av = CYCLES_PER_FR + 1"
    using lp by (simp add: frame_cycles_def CYCLES_PER_FR_def)
  have dg: "dbg (av_run_frame av) = dbg av"
    using lp by (simp add: run dbg_frame_end frame_begin_frame)
  from st run cyc rng dg show ?thesis by simp
qed

lemma spinning_exec:
  assumes "spinning av"
  shows "snd (i8048_exec av) = 2 \<and> spinning (fst (i8048_exec av))"
  using assms
  by (simp add: spinning_def i8048_exec_def ft_def rom_rd_def i8048_switch_def sw_defs
      long_jump_def exec_post_def irq_dispatch_def upd_cpu_def Let_def)

lemma spinning_iter:
  assumes "spinning av"
  shows "snd (frame_iter av e) = e + 2 \<and> spinning (fst (frame_iter av e))"
proof -
  have c: "\<not> counter_en (cpu (fst (i8048_exec av)))" 
    using spinning_exec [OF assms] by (simp add: spinning_def)
  show ?thesis 
    using spinning_exec [OF assms] c
    by (simp add: frame_iter_elapsed)
      (simp add: frame_iter_def split_def Let_def upd_cpu_def spinning_def)
qed

lemma spinning_loop:
  assumes "spinning av" "even e"
  shows "fst (snd (av_run_loop av e)) = (if e < CYCLES_PER_FR then 48890 else e)"
  using assms
proof (induction av e rule: av_run_loop.induct)
  case (1 av e)
  show ?case
  proof (cases "e < CYCLES_PER_FR")
    case False
    then show ?thesis by (subst av_run_loop.simps) simp
  next
    case True
    have inact: "dbg_quiet (dbg av)" using 1(2) by (simp add: spinning_def)
    have chk: "dbg_check av = av" using inact by (rule dbg_check_quiet)
    have nostop: "\<not> dbg_stop (dbg_check av)" using inact by (simp add: chk dbg_stop_quiet)
    note it = spinning_iter [OF 1(2), of e]
    have ev: "even (snd (frame_iter av e))" using it 1(3) by simp
    have IH: "fst (snd (av_run_loop (fst (frame_iter av e)) (snd (frame_iter av e))))
        = (if snd (frame_iter av e) < CYCLES_PER_FR then 48890 else snd (frame_iter av e))"
      using "1.IH" [OF True nostop, unfolded chk] it ev by blast
    have unf: "av_run_loop av e = av_run_loop (fst (frame_iter av e)) (snd (frame_iter av e))"
      using True nostop by (subst av_run_loop.simps) (simp add: chk)
    have "e \<le> 48888" using True 1(3) by (auto simp: CYCLES_PER_FR_def elim!: evenE)
    then show ?thesis
      using True 1(3) unfolding unf IH using it by (auto simp: CYCLES_PER_FR_def elim!: evenE)
  qed
qed

lemma jmp_self_spinning: "spinning (frame_begin jmp_self_av)"
  by (simp add: spinning_def dbg_quiet_def frame_begin_def jmp_self_av_def init_defs)


lemma c_for_inv_bounded_aux:
  assumes "\<And>i s. lo \<le> i \<Longrightarrow> i < n \<Longrightarrow> P s \<Longrightarrow> P (body i s)" "lo \<le> j" "P s"
  shows "P (c_for j n body s)"
  using assms
proof (induction j n body s rule: c_for.induct)
  case (1 i n body s)
  show ?case
  proof (cases "i < n")
    case True
    have "P (body i s)" using "1.prems" True by blast
    then have "P (c_for (i + 1) n body (body i s))"
      using True "1.prems"(1,2) by (intro "1.IH") auto
    then show ?thesis using True by (subst c_for.simps) simp
  next
    case False
    then show ?thesis using "1.prems" by (subst c_for.simps) simp
  qed
qed

lemma c_for_inv_bounded:
  assumes "P s" "\<And>i s. lo \<le> i \<Longrightarrow> i < n \<Longrightarrow> P s \<Longrightarrow> P (body i s)"
  shows "P (c_for lo n body s)"
  by (rule c_for_inv_bounded_aux [where lo = lo]) (use assms in auto)

text \<open>A loop establishes what one of its passes establishes and every pass keeps.\<close>

lemma c_for_establish_aux:
  assumes "\<And>i s. Goal s \<Longrightarrow> Goal (body i s)" "\<And>i s. Keep s \<Longrightarrow> Keep (body i s)"
    "\<And>s. Keep s \<Longrightarrow> Goal (body j s)" "Keep s" "j < n" "lo \<le> j \<or> Goal s"
  shows "Goal (c_for lo n body s)"
  using assms
proof (induction lo n body s rule: c_for.induct)
  case (1 i n body s)
  show ?case
  proof (cases "i < n")
    case True
    have q: "i + 1 \<le> j \<or> Goal (body i s)"
    proof (cases "i = j")
      case True then show ?thesis using "1.prems"(3,4) by blast
    next
      case False then show ?thesis using "1.prems"(1,6) by (cases "i \<le> j") auto
    qed
    have "Goal (c_for (i + 1) n body (body i s))"
      using True "1.prems"(1,2,3,4,5) q by (intro "1.IH") auto
    then show ?thesis using True by (subst c_for.simps) simp
  next
    case False
    then show ?thesis using "1.prems" by (subst c_for.simps) auto
  qed
qed

lemma c_for_establish:
  assumes "lo \<le> j" "j < n" "Keep s" "\<And>s. Keep s \<Longrightarrow> Goal (body j s)"
    "\<And>i s. Goal s \<Longrightarrow> Goal (body i s)" "\<And>i s. Keep s \<Longrightarrow> Keep (body i s)"
  shows "Goal (c_for lo n body s)"
  by (rule c_for_establish_aux [where Keep = Keep and j = j]) (use assms in auto)

text \<open>Rounding to binary32: the exponent search, and values in [0,1] stay there.\<close>

lemma f32_ulp_exp_eq:
  assumes "n \<le> m" "m - n \<le> fuel" "m = n \<or> 2 ^ (m + 23) \<le> \<bar>x\<bar> * 2 ^ 149"
    "\<bar>x\<bar> * 2 ^ 149 < 2 ^ (m + 24) \<or> m - n = fuel"
  shows "f32_ulp_exp fuel n x = m"
  using assms
proof (induction fuel arbitrary: n)
  case 0
  then show ?case by simp
next
  case (Suc fuel)
  show ?case
  proof (cases "m = n")
    case True
    then show ?thesis using Suc.prems by simp
  next
    case False
    then have lt: "n < m" using Suc.prems by simp
    then have "n + 24 \<le> m + 23" by simp
    then have "(2::real) ^ (n + 24) \<le> 2 ^ (m + 23)"
      by (rule power_increasing) simp
    then have ge: "\<not> \<bar>x\<bar> * 2 ^ 149 < 2 ^ (n + 24)" using Suc.prems False by linarith
    have "f32_ulp_exp fuel (Suc n) x = m"
      using Suc.prems lt by (intro Suc.IH) auto
    then show ?thesis using ge by simp
  qed
qed

lemma f32_ulp_exp_le:
  assumes "\<bar>x\<bar> * 2 ^ 149 < 2 ^ (m + 24)" "n \<le> m" "m - n \<le> fuel"
  shows "f32_ulp_exp fuel n x \<le> m"
  using assms
proof (induction fuel arbitrary: n)
  case 0
  then show ?case by simp
next
  case (Suc fuel)
  show ?case
  proof (cases "m = n")
    case True
    then show ?thesis using Suc.prems by simp
  next
    case False
    then have "f32_ulp_exp fuel (Suc n) x \<le> m"
      using Suc.prems by (intro Suc.IH) auto
    then show ?thesis using Suc.prems by simp
  qed
qed

lemma round_even_int: "round_even (of_int n) = n"
  by (simp add: round_even_def)

lemma round_even_nonneg: "0 \<le> y \<Longrightarrow> 0 \<le> round_even y"
  by (auto simp: round_even_def Let_def)

lemma round_even_le: "y \<le> of_int n \<Longrightarrow> round_even y \<le> n"
proof (cases "y = of_int n")
  case True
  then show ?thesis by (simp add: round_even_int)
next
  case False
  assume "y \<le> of_int n"
  with False have "y < of_int n" by simp
  then have "\<lfloor>y\<rfloor> < n" by (simp add: floor_less_iff)
  then show ?thesis by (auto simp: round_even_def Let_def)
qed

lemma f32_ulp_pos: "0 < f32_ulp x"
  by (simp add: f32_ulp_def)

lemma f32_round_unit:
  assumes "0 \<le> x" "x \<le> 1"
  shows "0 \<le> f32_round x \<and> f32_round x \<le> 1"
proof -
  let ?n = "f32_ulp_exp 253 0 x"
  have "\<bar>x\<bar> * 2 ^ 149 < 2 ^ (126 + 24)" using assms by simp
  then have n: "?n \<le> 126" by (rule f32_ulp_exp_le) simp_all
  have q: "f32_ulp x = 2 ^ ?n / 2 ^ 149" by (simp add: f32_ulp_def)
  have "(2::real) ^ 149 / 2 ^ ?n = 2 ^ (149 - ?n)"
    using n by (simp add: power_diff)
  then have inv: "1 / f32_ulp x = of_int (2 ^ (149 - ?n))"
    by (simp add: q)
  have "x / f32_ulp x \<le> 1 / f32_ulp x"
    using assms f32_ulp_pos [of x] by (simp add: divide_right_mono)
  then have "round_even (x / f32_ulp x) \<le> 2 ^ (149 - ?n)"
    unfolding inv by (rule round_even_le)
  then have "of_int (round_even (x / f32_ulp x)) \<le> (of_int (2 ^ (149 - ?n)) :: real)"
    by (simp only: of_int_le_iff)
  then have "of_int (round_even (x / f32_ulp x)) * f32_ulp x \<le> of_int (2 ^ (149 - ?n)) * f32_ulp x"
    using f32_ulp_pos [of x] by (simp add: mult_right_mono)
  also have "\<dots> = 1" using inv f32_ulp_pos [of x] by (simp add: field_simps)
  finally have up: "f32_round x \<le> 1" by (simp add: f32_round_def)
  have "0 \<le> x / f32_ulp x" using assms f32_ulp_pos [of x] by simp
  then have "0 \<le> round_even (x / f32_ulp x)" by (rule round_even_nonneg)
  then have "0 \<le> f32_round x" using f32_ulp_pos [of x] by (simp add: f32_round_def)
  with up show ?thesis by simp
qed

lemma f32_ulp_eq:
  assumes "m \<le> 253" "m = 0 \<or> 2 ^ (m + 23) \<le> \<bar>x\<bar> * 2 ^ 149"
    "\<bar>x\<bar> * 2 ^ 149 < 2 ^ (m + 24) \<or> m = 253"
  shows "f32_ulp x = 2 ^ m / 2 ^ 149"
  unfolding f32_ulp_def using f32_ulp_exp_eq [of 0 m 253 x] assms by auto

text \<open>Binary32 values of the display: \<^verbatim>\<open>0.45f\<close>, \<^verbatim>\<open>0.45f * 0.45f\<close>, \<^verbatim>\<open>0.01f\<close> and its square.\<close>

lemma f32_mul_1_decay: "f32_mul 1 DEF_PHOSPHOR = DEF_PHOSPHOR"
proof -
  have u: "f32_ulp (15099494 / 33554432) = 2 ^ 124 / 2 ^ 149"
    by (rule f32_ulp_eq) simp_all
  show ?thesis unfolding f32_mul_def DEF_PHOSPHOR_def mult_1 f32_round_def u
    by (simp add: round_even_def)
qed

lemma f32_mul_decay_decay: "f32_mul DEF_PHOSPHOR DEF_PHOSPHOR = 13589544 / 67108864"
proof -
  have u: "f32_ulp (15099494 / 33554432 * (15099494 / 33554432)) = 2 ^ 123 / 2 ^ 149"
    by (rule f32_ulp_eq) simp_all
  show ?thesis unfolding f32_mul_def DEF_PHOSPHOR_def f32_round_def u
    by (simp add: round_even_def)
qed

lemma f32_mul_1_floor: "f32_mul 1 FLT_0_01 = FLT_0_01"
proof -
  have u: "f32_ulp (5368709 / 536870912) = 2 ^ 119 / 2 ^ 149"
    by (rule f32_ulp_eq) simp_all
  show ?thesis unfolding f32_mul_def FLT_0_01_def mult_1 f32_round_def u
    by (simp add: round_even_def)
qed

lemma f32_mul_unit:
  assumes "0 \<le> p" "p \<le> 1" "0 \<le> k" "k \<le> 1"
  shows "0 \<le> f32_mul p k \<and> f32_mul p k \<le> 1"
  unfolding f32_mul_def using assms by (intro f32_round_unit) (simp_all add: mult_le_one)

text \<open>The phase increment of pure tone 5 (320.92 Hz), through the binary32 division.\<close>

lemma f32_round_tone_5: "f32_round (8023 / 25) = 10515907 / 32768"
proof -
  have u: "f32_ulp (8023 / 25) = 2 ^ 134 / 2 ^ 149"
    by (rule f32_ulp_eq) simp_all
  show ?thesis unfolding f32_round_def u by (simp add: round_even_def)
qed

lemma f32_div_tone_5: "f32_round (10515907 / 1445068800) = 15627449 / 2147483648"
proof -
  have u: "f32_ulp (10515907 / 1445068800) = 2 ^ 118 / 2 ^ 149"
    by (rule f32_ulp_eq) simp_all
  show ?thesis unfolding f32_round_def u by (simp add: round_even_def)
qed

lemma phase_inc_tone_5: "freq_to_phase_inc (cop411_note_freq 5) = 31254898"
  by (simp add: freq_to_phase_inc_def cop411_note_freq_def f_le_def AUDIO_RATE_def
      f32_round_tone_5 f32_div_tone_5 c_trunc_def)

lemma decay_loop_phosphor:
  "phosphor (c_for lo n (decay_px k) d) i =
     (if lo \<le> i \<and> i < n then floor01 (f32_mul (phosphor d i) k) else phosphor d i)"
proof (induction lo n "decay_px k" d rule: c_for.induct)
  case (1 j n d)
  show ?case
  proof (cases "j < n")
    case True
    have "phosphor (c_for j n (decay_px k) d) i = phosphor (c_for (j + 1) n (decay_px k) (decay_px k j d)) i"
      using True by (subst c_for.simps) simp
    also have "\<dots> = (if j + 1 \<le> i \<and> i < n then floor01 (f32_mul (phosphor (decay_px k j d) i) k)
                       else phosphor (decay_px k j d) i)"
      using True by (rule "1.hyps")
    also have "\<dots> = (if j \<le> i \<and> i < n then floor01 (f32_mul (phosphor d i) k) else phosphor d i)"
      using True by (auto simp: decay_px_def floor01_def Let_def)
    finally show ?thesis .
  next
    case False
    then show ?thesis by (subst c_for.simps) simp
  qed
qed

lemma decay_loop_rest:
  "col_data (c_for lo n (decay_px k) d) = col_data d \<and>
   cols_captured (c_for lo n (decay_px k) d) = cols_captured d \<and>
   led_reg (c_for lo n (decay_px k) d) = led_reg d \<and>
   led_col (c_for lo n (decay_px k) d) = led_col d \<and>
   led_active (c_for lo n (decay_px k) d) = led_active d"
  by (rule c_for_inv) (simp_all add: decay_px_def Let_def)

lemma light_inv_refl: "light_inv d1 d1"
  by (simp add: light_inv_def)

lemma light_bit_inv:
  assumes "light_inv d1 d'" "0 \<le> col" "col < update_cols d1" "0 \<le> bi" "bi < 5" "0 \<le> b" "b < 8"
  shows "light_inv d1 (light_bit col bi (col_data d1 col bi) b d')"
proof -
  have l: "\<not> bit (col_data d1 col bi) (nat b) \<Longrightarrow> lit d1 (col + ((4 - bi) * 8 + (7 - b)) * SW)"
    unfolding lit_def using assms(2-7) by blast
  show ?thesis
    using assms(1) l by (auto simp: light_inv_def light_bit_def Let_def)
qed

lemma light_byte_inv:
  assumes "light_inv d1 d'" "0 \<le> col" "col < update_cols d1" "0 \<le> bi" "bi < 5"
  shows "light_inv d1 (light_byte col bi d')"
proof -
  have cd: "col_data d' col bi = col_data d1 col bi" using assms(1) by (simp add: light_inv_def)
  show ?thesis
    unfolding light_byte_def Let_def cd
    by (rule c_for_inv_bounded) (use assms in \<open>auto intro: light_bit_inv\<close>)
qed

lemma light_col_inv:
  assumes "light_inv d1 d'" "0 \<le> col" "col < update_cols d1"
  shows "light_inv d1 (c_for 0 5 (light_byte col) d')"
  by (rule c_for_inv_bounded) (use assms in \<open>auto intro: light_byte_inv\<close>)

lemma light_all_inv:
  "light_inv d1 (c_for 0 (update_cols d1) (\<lambda>col. c_for 0 5 (light_byte col)) d1)"
  by (rule c_for_inv_bounded) (auto intro: light_col_inv light_inv_refl)

text \<open>A pixel once at 1 stays at 1 through the lighting loops.\<close>

lemma light_bit_keeps: "phosphor d' i = 1 \<Longrightarrow> phosphor (light_bit col bi v b d') i = 1"
  by (simp add: light_bit_def Let_def)

lemma light_byte_keeps: "phosphor d' i = 1 \<Longrightarrow> phosphor (light_byte col bi d') i = 1"
  unfolding light_byte_def Let_def
  by (rule c_for_inv) (auto intro: light_bit_keeps)

lemma light_col_keeps: "phosphor d' i = 1 \<Longrightarrow> phosphor (c_for 0 5 (light_byte col) d') i = 1"
  by (rule c_for_inv) (auto intro: light_byte_keeps)

lemma light_bit_sets:
  assumes "0 \<le> bi" "bi < 5" "0 \<le> b" "b < 8" "\<not> bit v (nat b)"
  shows "phosphor (light_bit col bi v b d') (col + ((4 - bi) * 8 + (7 - b)) * SW) = 1"
  using assms by (simp add: light_bit_def Let_def SH_def)

lemma light_byte_sets:
  assumes "0 \<le> bi" "bi < 5" "0 \<le> b" "b < 8" "\<not> bit (col_data d' col bi) (nat b)"
  shows "phosphor (light_byte col bi d') (col + ((4 - bi) * 8 + (7 - b)) * SW) = 1"
  unfolding light_byte_def Let_def
proof (rule c_for_establish [where j = b and Keep = "\<lambda>s. True"])
  show "0 \<le> b" "b < 8" "True" by (simp_all add: assms)
next
  fix s :: AVDisp
  show "phosphor (light_bit col bi (col_data d' col bi) b s)
          (col + ((4 - bi) * 8 + (7 - b)) * SW) = 1"
    using assms by (rule light_bit_sets)
next
  fix i and s :: AVDisp
  assume "phosphor s (col + ((4 - bi) * 8 + (7 - b)) * SW) = 1"
  then show "phosphor (light_bit col bi (col_data d' col bi) i s)
               (col + ((4 - bi) * 8 + (7 - b)) * SW) = 1"
    by (rule light_bit_keeps)
qed simp

lemma col_data_light_bit: "col_data (light_bit col bi v b s) = col_data s"
  by (simp add: light_bit_def Let_def)

lemma col_data_light_byte: "col_data (light_byte col bi s) = col_data s"
  unfolding light_byte_def Let_def
  by (rule c_for_inv [where P = "\<lambda>s'. col_data s' = col_data s"])
     (simp_all add: col_data_light_bit)

lemma col_data_light_col: "col_data (c_for 0 5 (light_byte col) s) = col_data s"
  by (rule c_for_inv [where P = "\<lambda>s'. col_data s' = col_data s"])
     (simp_all add: col_data_light_byte)

lemma light_col_sets:
  assumes "col_data d' = cd" "0 \<le> bi" "bi < 5" "0 \<le> b" "b < 8" "\<not> bit (cd col bi) (nat b)"
  shows "phosphor (c_for 0 5 (light_byte col) d') (col + ((4 - bi) * 8 + (7 - b)) * SW) = 1"
proof (rule c_for_establish [where j = bi and Keep = "\<lambda>s. col_data s = cd"])
  show "0 \<le> bi" "bi < 5" "col_data d' = cd" by (simp_all add: assms)
next
  fix s :: AVDisp
  assume "col_data s = cd"
  then have "\<not> bit (col_data s col bi) (nat b)" using assms(6) by simp
  with assms(2-5)
  show "phosphor (light_byte col bi s) (col + ((4 - bi) * 8 + (7 - b)) * SW) = 1"
    by (rule light_byte_sets)
next
  fix i and s :: AVDisp
  assume "phosphor s (col + ((4 - bi) * 8 + (7 - b)) * SW) = 1"
  then show "phosphor (light_byte col i s) (col + ((4 - bi) * 8 + (7 - b)) * SW) = 1"
    by (rule light_byte_keeps)
next
  fix i and s :: AVDisp
  assume "col_data s = cd"
  then show "col_data (light_byte col i s) = cd" by (simp add: col_data_light_byte)
qed

lemma light_all_sets:
  assumes "0 \<le> col" "col < n" "0 \<le> bi" "bi < 5" "0 \<le> b" "b < 8"
    "\<not> bit (col_data d1 col bi) (nat b)"
  shows "phosphor (c_for 0 n (\<lambda>col. c_for 0 5 (light_byte col)) d1)
           (col + ((4 - bi) * 8 + (7 - b)) * SW) = 1"
proof (rule c_for_establish [where j = col and Keep = "\<lambda>s. col_data s = col_data d1"])
  show "0 \<le> col" "col < n" "col_data d1 = col_data d1" by (simp_all add: assms)
next
  fix s :: AVDisp
  assume "col_data s = col_data d1"
  from this assms(3-7)
  show "phosphor (c_for 0 5 (light_byte col) s) (col + ((4 - bi) * 8 + (7 - b)) * SW) = 1"
    by (rule light_col_sets)
next
  fix i and s :: AVDisp
  assume "phosphor s (col + ((4 - bi) * 8 + (7 - b)) * SW) = 1"
  then show "phosphor (c_for 0 5 (light_byte i) s) (col + ((4 - bi) * 8 + (7 - b)) * SW) = 1"
    by (rule light_col_keeps)
next
  fix i and s :: AVDisp
  assume "col_data s = col_data d1"
  then show "col_data (c_for 0 5 (light_byte i) s) = col_data d1"
    by (simp add: col_data_light_col)
qed

text \<open>The phosphor buffer after \<^verbatim>\<open>disp_update\<close>, pixel by pixel.\<close>

lemma disp_update_phosphor:
  "phosphor (disp_update d k) i =
     (if lit d i then 1
      else if 0 \<le> i \<and> i < SW * SH then floor01 (f32_mul (phosphor d i) k)
      else phosphor d i)"
proof -
  let ?d1 = "c_for 0 (SW * SH) (decay_px k) d"
  let ?d2 = "c_for 0 (update_cols ?d1) (\<lambda>col. c_for 0 5 (light_byte col)) ?d1"
  have rest: "col_data ?d1 = col_data d" "cols_captured ?d1 = cols_captured d"
    using decay_loop_rest [of 0 "SW * SH" k d] by simp_all
  have uc: "update_cols ?d1 = update_cols d" by (simp add: update_cols_def rest)
  have lit1: "lit ?d1 = lit d" by (simp add: lit_def uc rest fun_eq_iff)
  have inv: "light_inv ?d1 ?d2" by (rule light_all_inv)
  have ph: "phosphor (disp_update d k) i = phosphor ?d2 i"
    by (simp add: disp_update_def Let_def)
  show ?thesis
  proof (cases "lit d i")
    case True
    then obtain col bi b where w: "0 \<le> col" "col < update_cols ?d1" "0 \<le> bi" "bi < 5"
        "0 \<le> b" "b < 8" "i = col + ((4 - bi) * 8 + (7 - b)) * SW"
        "\<not> bit (col_data ?d1 col bi) (nat b)"
      unfolding lit1 [symmetric] lit_def by blast
    have "phosphor ?d2 (col + ((4 - bi) * 8 + (7 - b)) * SW) = 1"
      using w(1-6,8) by (rule light_all_sets)
    then have "phosphor ?d2 i = 1" by (simp only: w(7))
    then show ?thesis using True by (simp add: ph)
  next
    case False
    then have "phosphor ?d2 i = phosphor ?d1 i"
      using inv by (auto simp: light_inv_def lit1)
    then show ?thesis using False by (simp add: ph decay_loop_phosphor)
  qed
qed

lemma set_col_data_frame:
  "phosphor (set_col_data c i v d) = phosphor d"
  "cols_captured (set_col_data c i v d) = cols_captured d"
  "led_reg (set_col_data c i v d) = led_reg d"
  "led_col (set_col_data c i v d) = led_col d"
  "led_active (set_col_data c i v d) = led_active d"
  by (simp_all add: set_col_data_def)

lemma capture_loop_frame:
  "phosphor (c_for 0 5 (\<lambda>i. set_col_data col i (f i)) d) = phosphor d
   \<and> cols_captured (c_for 0 5 (\<lambda>i. set_col_data col i (f i)) d) = cols_captured d"
  by (rule c_for_inv [where P = "\<lambda>s. phosphor s = phosphor d \<and> cols_captured s = cols_captured d"])
     (simp_all add: set_col_data_frame)

lemma latch_loop_frame:
  "phosphor (c_for 0 5 (\<lambda>i d'. set_col_data col i (led_reg d' i) d') d) = phosphor d
   \<and> cols_captured (c_for 0 5 (\<lambda>i d'. set_col_data col i (led_reg d' i) d') d) = cols_captured d
   \<and> led_col (c_for 0 5 (\<lambda>i d'. set_col_data col i (led_reg d' i) d') d) = led_col d"
  by (rule c_for_inv [where P = "\<lambda>s. phosphor s = phosphor d \<and> cols_captured s = cols_captured d \<and> led_col s = led_col d"])
     (simp_all add: set_col_data_frame)

lemma phosphor_capture: "phosphor (disp_capture_column d x col) = phosphor d"
  by (simp add: disp_capture_column_def Let_def capture_loop_frame)

lemma phosphor_latch: "phosphor (disp_latch_led_column d) = phosphor d"
  by (simp add: disp_latch_led_column_def Let_def latch_loop_frame)

lemma floor01_range:
  "0 \<le> k \<Longrightarrow> k \<le> 1 \<Longrightarrow> 0 \<le> p \<Longrightarrow> p \<le> 1 \<Longrightarrow>
     0 \<le> floor01 (f32_mul p k) \<and> floor01 (f32_mul p k) \<le> 1"
  using f32_mul_unit [of p k] by (simp add: floor01_def)

lemma disp_reach_phosphor:
  assumes "disp_reach d"
  shows "0 \<le> phosphor d i \<and> phosphor d i \<le> 1"
  using assms
proof (induction arbitrary: i rule: disp_reach.induct)
  case reach_init
  then show ?case by (simp add: init_defs)
next
  case (reach_update d k)
  then show ?case
    using floor01_range [of k "phosphor d i"] by (simp add: disp_update_phosphor)
qed (simp_all add: frame_begin_def av_led_latch_def Let_def phosphor_capture phosphor_latch)

lemma lit_in_range: assumes "lit d i" shows "0 \<le> i \<and> i < SW * SH"
proof -
  from assms obtain col bi b where w: "0 \<le> col" "col < update_cols d" "0 \<le> bi" "bi < 5"
        "0 \<le> b" "b < 8" "i = col + ((4 - bi) * 8 + (7 - b)) * SW"
    unfolding lit_def by blast
  have "update_cols d \<le> SW" by (simp add: update_cols_def Let_def)
  then have "col < 150" using w(2) by (simp add: SW_def)
  then show ?thesis using w by (simp add: SW_def SH_def)
qed


lemma col_frame_refl: "col_frame d d" by (simp add: col_frame_def)

lemma col_frame_trans: "col_frame d d' \<Longrightarrow> col_frame d' d'' \<Longrightarrow> col_frame d d''"
  by (simp add: col_frame_def)

lemma col_frame_set:
  assumes "0 \<le> col" "col < SW" "0 \<le> i" "i < 5" "col_frame d s"
  shows "col_frame d (set_col_data col i v s)"
  using assms by (auto simp: col_frame_def set_col_data_def)

lemma col_frame_capture: "col_frame d (disp_capture_column d x col)"
proof (cases "0 \<le> col \<and> col < SW")
  case False
  then show ?thesis by (simp add: disp_capture_column_def col_frame_refl)
next
  case True
  have "col_frame d (c_for 0 5 (\<lambda>i. set_col_data col i (f i)) d)" for f
    by (rule c_for_inv_bounded) (use True in \<open>auto intro: col_frame_set col_frame_refl\<close>)
  then show ?thesis
    by (simp add: disp_capture_column_def Let_def col_frame_def)
qed

lemma col_frame_latch: "col_frame d (disp_latch_led_column d)"
proof (cases "0 \<le> led_col d \<and> led_col d < SW")
  case False
  then show ?thesis by (auto simp: disp_latch_led_column_def Let_def col_frame_def)
next
  case True
  have "col_frame d (c_for 0 5 (\<lambda>i d'. set_col_data (led_col d) i (led_reg d' i) d') d)"
    by (rule c_for_inv_bounded) (use True in \<open>auto intro: col_frame_set col_frame_refl\<close>)
  then show ?thesis
    by (simp add: disp_latch_led_column_def Let_def col_frame_def)
qed

lemma cols_capture: "cols_captured d \<le> SW \<Longrightarrow> cols_captured (disp_capture_column d x col) \<le> SW"
  by (simp add: disp_capture_column_def Let_def capture_loop_frame)

lemma cols_latch: "cols_captured d \<le> SW \<Longrightarrow> cols_captured (disp_latch_led_column d) \<le> SW"
  by (simp add: disp_latch_led_column_def Let_def latch_loop_frame)

lemma disp_run_col_frame: "col_frame d (disp_run d es)"
proof (induction d es rule: disp_run.induct)
  case (1 d) show ?case by (simp add: col_frame_refl)
next
  case (2 d es)
  then show ?case using col_frame_latch [of d] by (auto intro: col_frame_trans)
next
  case (3 d x col es)
  then show ?case using col_frame_capture [of d x col] by (auto intro: col_frame_trans)
qed

lemma disp_run_cols: "cols_captured d \<le> SW \<Longrightarrow> cols_captured (disp_run d es) \<le> SW"
  by (induction d es rule: disp_run.induct) (auto intro: cols_latch cols_capture)

lemma latch_beyond: "SW \<le> led_col d \<Longrightarrow> disp_latch_led_column d = d\<lparr>led_col := led_col d + 1, led_active := True\<rparr>"
  by (simp add: disp_latch_led_column_def Let_def)


text \<open>A ROM of zero bytes: every instruction is a \<^verbatim>\<open>NOP\<close> of one cycle.\<close>

lemma idling_exec:
  assumes "idling av"
  shows "snd (i8048_exec av) = 1 \<and> idling (fst (i8048_exec av))"
  using assms
  by (simp add: idling_def i8048_exec_def ft_def rom_rd_def i8048_switch_def sw_defs
      exec_post_def irq_dispatch_def upd_cpu_def Let_def)

lemma idling_iter:
  assumes "idling av"
  shows "snd (frame_iter av e) = e + 1 \<and> idling (fst (frame_iter av e))"
proof -
  have c: "\<not> counter_en (cpu (fst (i8048_exec av)))"
    using idling_exec [OF assms] by (simp add: idling_def)
  show ?thesis
    using idling_exec [OF assms] c
    by (simp add: frame_iter_elapsed)
       (simp add: frame_iter_def split_def Let_def upd_cpu_def idling_def)
qed

lemma idling_loop:
  assumes "idling av" "e \<le> CYCLES_PER_FR"
  shows "fst (snd (av_run_loop av e)) = CYCLES_PER_FR"
  using assms
proof (induction av e rule: av_run_loop.induct)
  case (1 av e)
  show ?case
  proof (cases "e < CYCLES_PER_FR")
    case False
    then show ?thesis using 1(3) by (subst av_run_loop.simps) simp
  next
    case True
    have inact: "dbg_quiet (dbg av)" using 1(2) by (simp add: idling_def)
    have chk: "dbg_check av = av" using inact by (rule dbg_check_quiet)
    have nostop: "\<not> dbg_stop (dbg_check av)" using inact by (simp add: chk dbg_stop_quiet)
    note it = idling_iter [OF 1(2), of e]
    have le: "snd (frame_iter av e) \<le> CYCLES_PER_FR" using it True by simp
    have IH: "fst (snd (av_run_loop (fst (frame_iter av e)) (snd (frame_iter av e))))
        = CYCLES_PER_FR"
      using "1.IH" [OF True nostop, unfolded chk] it le by blast
    have unf: "av_run_loop av e = av_run_loop (fst (frame_iter av e)) (snd (frame_iter av e))"
      using True nostop by (subst av_run_loop.simps) (simp add: chk)
    show ?thesis unfolding unf IH ..
  qed
qed

lemma dbg_on_av_idling: "idling (frame_begin dbg_on_av)"
  by (simp add: idling_def dbg_quiet_def frame_begin_def dbg_on_av_def init_defs)

lemma frame_end_disp:
  "av_disp (frame_end av) = disp_update (av_disp (capture_all av)) (cfg_phosphor (capture_all av))"
  by (simp add: frame_end_def Let_def rewind_push_def split: option.splits)

text \<open>The one-LED picture: column 0 holds 0xFE in byte 0, and one column is captured.\<close>

lemma one_led_disp_values:
  "col_data one_led_disp 0 0 = 0xFE \<and> cols_captured one_led_disp = 1
   \<and> phosphor one_led_disp 5850 = 0"
  by (simp add: one_led_disp_def disp_latch_led_column_def av_led_latch_def led_reg_decode_def
      init_defs c_for.simps set_col_data_def Let_def SW_def)

lemma one_led_disp_reach: "disp_reach one_led_disp"
proof -
  have "disp_reach (av_disp (av_led_latch (av_init\<lparr>av_disp := av_disp av_init\<rparr>) 0x80 0xFE))"
    by (rule reach_latch) (rule reach_init)
  then have "disp_reach (av_disp (av_led_latch av_init 0x80 0xFE))" by simp
  then show ?thesis unfolding one_led_disp_def by (rule reach_strobe)
qed

lemma one_led_disp_lit: "lit one_led_disp 5850"
proof -
  have "0 \<le> (0::int) \<and> (0::int) < update_cols one_led_disp \<and> 0 \<le> (0::int) \<and> (0::int) < 5
      \<and> 0 \<le> (0::int) \<and> (0::int) < 8 \<and> (5850::int) = 0 + ((4 - 0) * 8 + (7 - 0)) * SW
      \<and> \<not> bit (col_data one_led_disp 0 0) (nat 0)"
    by (simp add: one_led_disp_values update_cols_def SW_def)
  then show ?thesis unfolding lit_def by blast
qed

lemma not_lit_without_columns: "cols_captured d = 0 \<Longrightarrow> \<not> lit d i"
  by (auto simp: lit_def update_cols_def SW_def)

lemma cols_captured_disp_update: "cols_captured (disp_update d k) = 0"
  by (simp add: disp_update_def Let_def)


text \<open>Saved states: what a failed load restores, and when a load succeeds.\<close>

lemma same_rest_refl: "same_rest av av"
  by (simp add: same_rest_def)

lemma same_rest_ld_cpu: "same_rest av (ld_av l) \<Longrightarrow> same_rest av (ld_av (ld_cpu g l))"
  by (simp add: same_rest_def ld_cpu_def)

lemma same_rest_ld_snd: "same_rest av (ld_av l) \<Longrightarrow> same_rest av (ld_av (ld_snd g l))"
  by (simp add: same_rest_def ld_snd_def)

lemma keeps_rest_cpu_fields: "\<forall>r \<in> set load_cpu_fields. keeps_rest av (snd r)"
  by (simp add: load_cpu_fields_def keeps_rest_def same_rest_ld_cpu)

lemma keeps_rest_snd_fields: "\<forall>r \<in> set load_snd_fields. keeps_rest av (snd r)"
  by (simp add: load_snd_fields_def keeps_rest_def same_rest_ld_snd)

lemma keeps_rest_fields: "\<forall>r \<in> set (load_cpu_fields @ load_snd_fields). keeps_rest av (snd r)"
  unfolding set_append ball_Un by (rule conjI [OF keeps_rest_cpu_fields keeps_rest_snd_fields])

lemma run_reads_Cons: "run_reads ((n, store) # rs) x = run_reads rs (rd n store x)"
  by (simp add: run_reads_def)

lemma run_reads_Nil: "run_reads [] x = x"
  by (simp add: run_reads_def)

lemma run_reads_keeps_rest:
  assumes "\<forall>r \<in> set rs. keeps_rest av (snd r)" "same_rest av (ld_av (snd (snd x)))"
  shows "same_rest av (ld_av (snd (snd (run_reads rs x))))"
  using assms
proof (induction rs arbitrary: x)
  case Nil
  then show ?case by (simp add: run_reads_Nil)
next
  case (Cons r rs)
  obtain n store where r: "r = (n, store)" by (cases r) auto
  obtain ok f l where x: "x = (ok, f, l)" by (cases x) auto
  have "same_rest av (ld_av (snd (snd (rd n store x))))"
    using Cons.prems unfolding x r by (simp add: keeps_rest_def rd_def)
  then show ?case using Cons unfolding r by (simp add: run_reads_Cons)
qed

lemma run_reads_fst:
  "fst (run_reads rs (ok, f, s)) = (ok \<and> sum_list (map fst rs) \<le> length f)"
proof (induction rs arbitrary: ok f s)
  case Nil
  then show ?case by (simp add: run_reads_Nil)
next
  case (Cons r rs)
  obtain n store where r: "r = (n, store)" by (cases r) auto
  show ?case unfolding r run_reads_Cons
    by (auto simp: rd_def Cons.IH)
qed

lemma load_state_restores:
  "\<not> fst (load_state av src) \<Longrightarrow> snd (load_state av src) = av"
proof (cases src)
  case None
  then show ?thesis by (simp add: load_state_def)
next
  case (Some f0)
  assume fails: "\<not> fst (load_state av src)"
  let ?x = "run_reads (load_cpu_fields @ load_snd_fields)
              (True, drop 4 (drop 4 f0), \<lparr> ld_av = av, ld_flags = 0, ld_flags2 = 0 \<rparr>)"
  have "same_rest av (ld_av (snd (snd ?x)))"
    by (rule run_reads_keeps_rest [OF keeps_rest_fields]) (simp add: same_rest_refl)
  then have restored: "(ld_av (snd (snd ?x)))\<lparr>cpu := cpu av, av_snd := av_snd av\<rparr> = av"
    by (simp add: same_rest_def)
  show ?thesis
    using fails restored unfolding Some load_state_def
    by (auto simp: Let_def split_def split: if_splits)
qed

lemma load_state_ok_iff:
  "fst (load_state av src) =
     (\<exists>f. src = Some f \<and> 1433 \<le> length f \<and> le_word (take 4 f) = SAVE_MAGIC
        \<and> le_word (take 4 (drop 4 f)) = SAVE_VER)"
proof (cases src)
  case None
  then show ?thesis by (simp add: load_state_def)
next
  case (Some f0)
  have tot: "sum_list (map fst load_cpu_fields) = 1111" "sum_list (map fst load_snd_fields) = 314"
    by (simp_all add: load_cpu_fields_def load_snd_fields_def)
  show ?thesis
    unfolding Some load_state_def
    by (auto simp: Let_def split_def run_reads_fst tot split: if_splits)
qed

text \<open>Saved states: the sanitizing of the step fields, and the loads of the concrete files.\<close>

lemma san_frame:
  "step_count (san_lfsr s) = step_count s" "cur_step (san_lfsr s) = cur_step s"
  "step_count (san_ctrl s) = step_count s" "cur_step (san_ctrl s) = cur_step s"
  "step_count (san_segment s) = step_count s" "cur_step (san_segment s) = cur_step s"
  "step_count (san_samples s) = step_count s" "cur_step (san_samples s) = cur_step s"
  "step_count (san_cur_freq s) = step_count s" "cur_step (san_cur_freq s) = cur_step s"
  "step_count (san_cur_vol s) = step_count s" "cur_step (san_cur_vol s) = cur_step s"
  "step_count (san_seg_vols s) = step_count s" "cur_step (san_seg_vols s) = cur_step s"
  "step_count (cop411_update_ctrl_vol s) = step_count s"
  "cur_step (cop411_update_ctrl_vol s) = cur_step s"
  by (simp_all add: san_lfsr_def san_ctrl_def san_segment_def san_samples_def san_cur_freq_def
      san_cur_vol_def san_seg_vols_def cop411_update_ctrl_vol_def Let_def)

lemma san_steps_frame:
  "step_count (san_steps s) = step_count s \<and> cur_step (san_steps s) = cur_step s"
  unfolding san_steps_def
  by (rule c_for_inv [where P = "\<lambda>s'. step_count s' = step_count s \<and> cur_step s' = cur_step s"])
     simp_all

lemma sanitize_snd_steps:
  "step_count (sanitize_snd s) = step_count (san_step_count s)
   \<and> cur_step (sanitize_snd s) = cur_step (san_cur_step (san_step_count (san_ctrl (san_lfsr s))))"
  by (simp add: sanitize_snd_def san_frame san_steps_frame)
     (simp add: san_cur_step_def san_step_count_def san_frame)

lemma sanitize_snd_range:
  "0 \<le> step_count (sanitize_snd s) \<and> step_count (sanitize_snd s) \<le> 16
   \<and> 0 \<le> cur_step (sanitize_snd s)
   \<and> (cur_step (sanitize_snd s) < step_count (sanitize_snd s)
      \<or> (step_count (sanitize_snd s) = 0 \<and> cur_step (sanitize_snd s) = 0))"
  unfolding sanitize_snd_steps [THEN conjunct1] sanitize_snd_steps [THEN conjunct2]
  by (auto simp: san_cur_step_def san_step_count_def san_frame MAX_SND_STEPS_def)

lemma load_state_success:
  assumes "fst (load_state av src)"
  shows "\<exists>s. av_snd (snd (load_state av src)) = sanitize_snd s"
proof (cases src)
  case None
  then show ?thesis using assms by (simp add: load_state_def)
next
  case (Some f0)
  show ?thesis
    using assms unfolding Some load_state_def
    by (simp add: Let_def split_def split: if_splits) blast+
qed

lemma zeros_simps:
  "length (zeros n) = n" "drop k (zeros n) = zeros (n - k)" "take k (zeros n) = zeros (min k n)"
  "zeros 0 = []"
  by (simp_all add: zeros_def)

lemma le_nat_zeros: "le_nat (zeros n) = 0"
  unfolding zeros_def by (induction n) (simp_all add: le_nat_def)

lemma le_word_zeros: "le_word (zeros n) = 0"
  by (simp add: le_word_def le_nat_zeros)

lemma magic_bytes:
  "le_word [0x33, 0x31, 0x56, 0x41] = SAVE_MAGIC" "le_word [0x12, 0x00, 0x00, 0x00] = SAVE_VER"
  by (simp_all add: le_word_def le_nat_def SAVE_MAGIC_def SAVE_VER_def)

lemma le_i32_bytes:
  "le_i32 [0x02, 0x00, 0x00, 0x00] = 2" "le_i32 [0x03, 0x00, 0x00, 0x00] = 3"
  "le_i32 [0x07, 0x00, 0x00, 0x00] = 7" "le_i32 [0x14, 0x00, 0x00, 0x00] = 20"
  by (simp_all add: le_i32_def le_word_def le_nat_def)

lemma rd_ok: "n \<le> length f \<Longrightarrow> rd n store (True, f, s) = (True, drop n f, store (take n f) s)"
  by (simp add: rd_def)

lemma header_ok:
  "load_state av (Some (save_header @ body)) =
     (let x = run_reads (load_cpu_fields @ load_snd_fields)
                (True, body, \<lparr> ld_av = av, ld_flags = 0, ld_flags2 = 0 \<rparr>);
          av1 = ld_av (snd (snd x))
      in if \<not> fst x then (False, av1\<lparr>cpu := cpu av, av_snd := av_snd av\<rparr>)
         else (True, (upd_cpu (\<lambda>c. c\<lparr>irom := irom (cpu av), erom := erom (cpu av)\<rparr>)
                 (upd_cpu (unpack_flags (ld_flags (snd (snd x))) (ld_flags2 (snd (snd x)))) av1))
               \<lparr>av_snd := sanitize_snd (av_snd av1)\<rparr>))"
  by (simp add: load_state_def save_header_def magic_bytes Let_def split_def upd_cpu_def)

lemma loaded_steps:
  assumes "fst (run_reads (load_cpu_fields @ load_snd_fields)
                  (True, body, \<lparr> ld_av = av, ld_flags = 0, ld_flags2 = 0 \<rparr>))"
  shows "fst (load_state av (Some (save_header @ body)))
    \<and> av_snd (snd (load_state av (Some (save_header @ body)))) =
       sanitize_snd (av_snd (ld_av (snd (snd (run_reads (load_cpu_fields @ load_snd_fields)
                  (True, body, \<lparr> ld_av = av, ld_flags = 0, ld_flags2 = 0 \<rparr>))))))"
  using assms by (simp add: header_ok Let_def)


lemma zero_reads:
  "fst (run_reads (load_cpu_fields @ load_snd_fields) (True, zeros 1425, l))
  \<and> step_count (av_snd (ld_av (snd (snd (run_reads (load_cpu_fields @ load_snd_fields) (True, zeros 1425, l)))))) = 0
  \<and> cur_step (av_snd (ld_av (snd (snd (run_reads (load_cpu_fields @ load_snd_fields) (True, zeros 1425, l)))))) = 0"
  by (simp add: run_reads_def load_cpu_fields_def load_snd_fields_def rd_ok zeros_simps
       ld_cpu_def ld_snd_def le_i32_def le_word_zeros)

lemma playing_reads:
  "fst (run_reads (load_cpu_fields @ load_snd_fields) (True, zeros 1137
      @ [0x02, 0x00, 0x00, 0x00, 0x03, 0x00, 0x00, 0x00] @ zeros 280, l))
  \<and> step_count (av_snd (ld_av (snd (snd (run_reads (load_cpu_fields @ load_snd_fields) (True, zeros 1137
      @ [0x02, 0x00, 0x00, 0x00, 0x03, 0x00, 0x00, 0x00] @ zeros 280, l)))))) = 3
  \<and> cur_step (av_snd (ld_av (snd (snd (run_reads (load_cpu_fields @ load_snd_fields) (True, zeros 1137
      @ [0x02, 0x00, 0x00, 0x00, 0x03, 0x00, 0x00, 0x00] @ zeros 280, l)))))) = 2"
  by (simp add: run_reads_def load_cpu_fields_def load_snd_fields_def rd_ok zeros_simps
       ld_cpu_def ld_snd_def le_i32_bytes le_word_zeros)

lemma crafted_reads:
  "fst (run_reads (load_cpu_fields @ load_snd_fields) (True, zeros 1137
      @ [0x07, 0x00, 0x00, 0x00, 0x14, 0x00, 0x00, 0x00] @ zeros 280, l))
  \<and> step_count (av_snd (ld_av (snd (snd (run_reads (load_cpu_fields @ load_snd_fields) (True, zeros 1137
      @ [0x07, 0x00, 0x00, 0x00, 0x14, 0x00, 0x00, 0x00] @ zeros 280, l)))))) = 20
  \<and> cur_step (av_snd (ld_av (snd (snd (run_reads (load_cpu_fields @ load_snd_fields) (True, zeros 1137
      @ [0x07, 0x00, 0x00, 0x00, 0x14, 0x00, 0x00, 0x00] @ zeros 280, l)))))) = 7"
  by (simp add: run_reads_def load_cpu_fields_def load_snd_fields_def rd_ok zeros_simps
       ld_cpu_def ld_snd_def le_i32_bytes le_word_zeros)

lemma zero_load:
  "fst (load_state av_init (Some zero_state_file))
   \<and> step_count (av_snd (snd (load_state av_init (Some zero_state_file)))) = 0
   \<and> cur_step (av_snd (snd (load_state av_init (Some zero_state_file)))) = 0"
  using zero_reads [of "\<lparr> ld_av = av_init, ld_flags = 0, ld_flags2 = 0 \<rparr>"]
  by (simp add: zero_state_file_def loaded_steps sanitize_snd_steps san_step_count_def
      san_cur_step_def san_frame MAX_SND_STEPS_def)

lemma playing_load:
  "fst (load_state av_init (Some playing_state_file))
   \<and> step_count (av_snd (snd (load_state av_init (Some playing_state_file)))) = 3
   \<and> cur_step (av_snd (snd (load_state av_init (Some playing_state_file)))) = 2"
  using playing_reads [of "\<lparr> ld_av = av_init, ld_flags = 0, ld_flags2 = 0 \<rparr>"]
  by (simp add: playing_state_file_def loaded_steps sanitize_snd_steps san_step_count_def
      san_cur_step_def san_frame MAX_SND_STEPS_def)

lemma crafted_load:
  "fst (load_state av_init (Some crafted_state_file))
   \<and> step_count (av_snd (snd (load_state av_init (Some crafted_state_file)))) = 0
   \<and> cur_step (av_snd (snd (load_state av_init (Some crafted_state_file)))) = 0"
  using crafted_reads [of "\<lparr> ld_av = av_init, ld_flags = 0, ld_flags2 = 0 \<rparr>"]
  by (simp add: crafted_state_file_def loaded_steps sanitize_snd_steps san_step_count_def
      san_cur_step_def san_frame MAX_SND_STEPS_def)

section \<open>The sound protocol on port 2\<close>

text \<open>
  C1, as the specification states it: from an idle protocol state the writes 0xC0, 0xE5,
  0x00 leave pure tone 5 playing, a square wave between 319 and 322 Hz. The code does
  otherwise: the 0x00 that follows the high nibble ends the sequence with the command
  \<open>hi << 4 = 0xE0\<close>, which is pure tone 0 at 239.23 Hz. Checked on the power-up state.
\<close>

theorem p2_C0_E5_00_is_not_tone_5:
  "cur_freq (av_snd (p2_writes av_init [0xC0, 0xE5, 0x00])) = FNum 239.23
   \<and> \<not> f_gt (cur_freq (av_snd (p2_writes av_init [0xC0, 0xE5, 0x00]))) 319"
  by (simp add: p2_writes_def av_snd_port2 snd_protocol_def cop411_command_def
      cop411_start_tone_def cop411_update_ctrl_vol_def Let_def note_freq_0 f_gt_def
      av_init_def cop411_init_def)

text \<open>
  C1, amended: from an idle protocol state the writes 0xC0, 0xE5, 0x00 leave the sound
  engine active and non-noise at 239.23 Hz, pure tone 0, and the protocol idle again.
  Pure tone 5 (320.92 Hz, between 319 and 322) plays after 0xC0, 0xE5, 0x5E, where the
  third byte carries the low nibble 5 in its upper half.
\<close>

theorem p2_tone_sequences:
  assumes "proto_state (av_snd av) = 0"
  shows "active (av_snd (p2_writes av [0xC0, 0xE5, 0x00]))
       \<and> \<not> is_noise (av_snd (p2_writes av [0xC0, 0xE5, 0x00]))
       \<and> cur_freq (av_snd (p2_writes av [0xC0, 0xE5, 0x00])) = cop411_note_freq 0
       \<and> cop411_note_freq 0 = FNum 239.23
       \<and> proto_state (av_snd (p2_writes av [0xC0, 0xE5, 0x00])) = 0
       \<and> active (av_snd (p2_writes av [0xC0, 0xE5, 0x5E]))
       \<and> \<not> is_noise (av_snd (p2_writes av [0xC0, 0xE5, 0x5E]))
       \<and> cur_freq (av_snd (p2_writes av [0xC0, 0xE5, 0x5E])) = cop411_note_freq 5
       \<and> cop411_note_freq 5 = FNum 320.92
       \<and> f_gt (cop411_note_freq 5) 319 \<and> f_lt (cop411_note_freq 5) 322"
  using assms
  by (simp add: p2_writes_def av_snd_port2 snd_protocol_def cop411_command_def
      cop411_start_tone_def cop411_update_ctrl_vol_def Let_def note_freq_0 note_freq_5
      f_gt_def f_lt_def)

theorem p2_tone_sequences_witness:
  "proto_state (av_snd av_init) = 0
   \<and> active (av_snd (p2_writes av_init [0xC0, 0xE5, 0x00]))
   \<and> cur_freq (av_snd (p2_writes av_init [0xC0, 0xE5, 0x00])) = FNum 239.23
   \<and> cur_freq (av_snd (p2_writes av_init [0xC0, 0xE5, 0x5E])) = FNum 320.92"
proof -
  have idle: "proto_state (av_snd av_init) = 0"
    by (simp add: av_init_def cop411_init_def)
  show ?thesis
    using idle p2_tone_sequences [OF idle] by simp
qed

section \<open>LED register selection\<close>

text \<open>
  C3, as the specification states it: P2 = 0xA0 selects LED register 0. The code does
  otherwise: bits 7 to 5 of 0xA0 are 101, which the decoder maps to register 4.
\<close>

theorem led_reg_decode_A0_is_not_0:
  "led_reg_decode 0xA0 = 4 \<and> led_reg_decode 0xA0 \<noteq> 0"
  by (simp add: led_reg_decode_def)

text \<open>
  C3, amended: the decoding of P2 maps 0xA0 to register 4 and maps 0xE0 to no register;
  with P2 = 0xE0 the LED latch changes nothing.
\<close>

theorem led_reg_decode_values:
  "led_reg_decode 0xA0 = 4 \<and> led_reg_decode 0xE0 = - 1 \<and> av_led_latch av 0xE0 v = av"
  by (simp add: led_reg_decode_def av_led_latch_def)

section \<open>Interrupt enable\<close>

text \<open>
  C2 asks that no interrupt is dispatched at the end of \<^verbatim>\<open>EI\<close> itself. The source
  sets \<^verbatim>\<open>ei_delay = 1\<close> in the \<^verbatim>\<open>EI\<close> case and decrements it at the end of the same
  call, before the dispatch test \<^verbatim>\<open>ei_delay == 0\<close>; the test therefore always passes.
  On the state below (\<^verbatim>\<open>EI\<close> at PC, an interrupt pending, enabled, none in service)
  one \<^verbatim>\<open>i8048_exec\<close> ends at vector 7 with the return address 1 on the stack.
\<close>

theorem ei_dispatches_at_once:
  "PC (cpu ei_pending_av) = 0
   \<and> rom_rd (cpu ei_pending_av) (PC (cpu ei_pending_av)) = 0x05
   \<and> irq_pend (cpu ei_pending_av) \<and> irq_en (cpu ei_pending_av)
   \<and> \<not> in_irq (cpu ei_pending_av)
   \<and> snd (i8048_exec ei_pending_av) = 1
   \<and> PC (cpu (fst (i8048_exec ei_pending_av))) = 0x007
   \<and> in_irq (cpu (fst (i8048_exec ei_pending_av)))
   \<and> \<not> irq_pend (cpu (fst (i8048_exec ei_pending_av)))
   \<and> ei_delay (cpu (fst (i8048_exec ei_pending_av))) = 0
   \<and> iram (cpu (fst (i8048_exec ei_pending_av))) 8 = 1"
  by (simp add: ei_pending_av_def init_defs i8048_exec_def ft_def rom_rd_def
      i8048_switch_def sw_defs exec_post_def irq_dispatch_def push8_def bpsw_def
      upd_cpu_def Let_def)

section \<open>Soft reset\<close>

text \<open>
  C6: \<^verbatim>\<open>av_reset\<close> keeps the three control-register fields of the COP411L, clears the
  accumulator, PC, the 64 bytes of internal RAM and bank 0 of the external RAM, fills
  banks 1 to 3 of the external RAM with 0xFF, and leaves both ROM images as they were.
\<close>

theorem av_reset_effect:
  "ctrl_loop (av_snd (av_reset av)) = ctrl_loop (av_snd av)
   \<and> ctrl_vol (av_snd (av_reset av)) = ctrl_vol (av_snd av)
   \<and> ctrl_fast (av_snd (av_reset av)) = ctrl_fast (av_snd av)
   \<and> A (cpu (av_reset av)) = 0
   \<and> PC (cpu (av_reset av)) = 0
   \<and> (\<forall>i < 64. iram (cpu (av_reset av)) i = 0)
   \<and> (\<forall>i < 256. xram (cpu (av_reset av)) i = 0)
   \<and> (\<forall>i. 256 \<le> i \<and> i < 1024 \<longrightarrow> xram (cpu (av_reset av)) i = 0xFF)
   \<and> irom (cpu (av_reset av)) = irom (cpu av)
   \<and> erom (cpu (av_reset av)) = erom (cpu av)"
  by (simp add: av_reset_def Let_def cpu_power_up_def cpu_zero_def cop411_update_ctrl_vol_def
      cop411_init_def)

theorem av_reset_effect_witness:
  "ctrl_loop (av_snd (av_reset dirty_av)) = 1
   \<and> ctrl_vol (av_snd (av_reset dirty_av)) = 2
   \<and> ctrl_fast (av_snd (av_reset dirty_av)) = 1
   \<and> A (cpu dirty_av) = 0x42 \<and> A (cpu (av_reset dirty_av)) = 0
   \<and> PC (cpu dirty_av) = 0x123 \<and> PC (cpu (av_reset dirty_av)) = 0
   \<and> iram (cpu dirty_av) 63 = 0xAA \<and> iram (cpu (av_reset dirty_av)) 63 = 0
   \<and> xram (cpu dirty_av) 255 = 0x55 \<and> xram (cpu (av_reset dirty_av)) 255 = 0
   \<and> xram (cpu (av_reset dirty_av)) 256 = 0xFF
   \<and> xram (cpu (av_reset dirty_av)) 1023 = 0xFF
   \<and> irom (cpu (av_reset dirty_av)) 0 = 0x23
   \<and> erom (cpu (av_reset dirty_av)) 0x400 = 0x42"
  using av_reset_effect [of dirty_av]
  by (simp add: dirty_av_def init_defs)

section \<open>External RAM access\<close>

text \<open>
  C7: when the opcode at PC is \<^verbatim>\<open>MOVX A,@Rr\<close> (0x80, 0x81), one \<^verbatim>\<open>i8048_exec\<close> reads
  the byte of external RAM at \<open>256 * (P1 AND 3) + Rr\<close>, leaves it in A, and latches
  the same byte into the LED register that the decoding of P2 selects (the display is
  unchanged when the decoding selects none); the external RAM is unchanged. When the
  opcode is \<^verbatim>\<open>MOVX @Rr,A\<close> (0x90, 0x91), A is written to the same address and the
  display state is unchanged. With P1 = 0x03 and Rr = 0x55 the address is 0x355.
\<close>

theorem movx_semantics:
  assumes "rom_rd (cpu sys) (PC (cpu sys)) = op"
  shows "(op \<in> {0x80, 0x81} \<longrightarrow>
            A (cpu (fst (i8048_exec sys))) =
              xram (cpu sys) (256 * unat (P1 (cpu sys) AND 3) + unat (getR (cpu sys) (op AND 1)))
          \<and> xram (cpu (fst (i8048_exec sys))) = xram (cpu sys)
          \<and> av_disp (fst (i8048_exec sys)) =
              (if led_reg_decode (P2 (cpu sys)) \<ge> 0
               then (av_disp sys)\<lparr>led_reg := (led_reg (av_disp sys))
                      (led_reg_decode (P2 (cpu sys)) :=
                         xram (cpu sys) (256 * unat (P1 (cpu sys) AND 3)
                                          + unat (getR (cpu sys) (op AND 1))))\<rparr>
               else av_disp sys))
       \<and> (op \<in> {0x90, 0x91} \<longrightarrow>
            xram (cpu (fst (i8048_exec sys))) =
              (xram (cpu sys))(256 * unat (P1 (cpu sys) AND 3) + unat (getR (cpu sys) (op AND 1))
                                := A (cpu sys))
          \<and> av_disp (fst (i8048_exec sys)) = av_disp sys)
       \<and> (P1 (cpu sys) = 0x03 \<and> getR (cpu sys) (op AND 1) = 0x55 \<longrightarrow>
            256 * unat (P1 (cpu sys) AND 3) + unat (getR (cpu sys) (op AND 1)) = 0x355)"
proof (intro conjI impI)
  assume rd: "op \<in> {0x80, 0x81}"
  note sw = switch_movx_rd [OF rd, of "sys\<lparr>cpu := snd (ft (cpu sys))\<rparr>"]
  show "A (cpu (fst (i8048_exec sys))) =
          xram (cpu sys) (256 * unat (P1 (cpu sys) AND 3) + unat (getR (cpu sys) (op AND 1)))"
    by (simp add: i8048_exec_unfold assms sw upd_cpu_def av_led_latch_def A_exec_post Let_def
        xram_rd_def getR_def R_def ft_frame flip: xram_addr_eq)
       (simp add: xram_addr_def ft_frame)
  show "xram (cpu (fst (i8048_exec sys))) = xram (cpu sys)"
    by (simp add: i8048_exec_unfold assms sw upd_cpu_def av_led_latch_def xram_exec_post
        Let_def ft_frame)
  show "av_disp (fst (i8048_exec sys)) =
          (if led_reg_decode (P2 (cpu sys)) \<ge> 0
           then (av_disp sys)\<lparr>led_reg := (led_reg (av_disp sys))
                  (led_reg_decode (P2 (cpu sys)) :=
                     xram (cpu sys) (256 * unat (P1 (cpu sys) AND 3)
                                      + unat (getR (cpu sys) (op AND 1))))\<rparr>
           else av_disp sys)"
    by (simp add: i8048_exec_unfold assms sw upd_cpu_def av_led_latch_def Let_def
        xram_rd_def getR_def R_def ft_frame flip: xram_addr_eq)
       (simp add: xram_addr_def ft_frame)
next
  assume wr: "op \<in> {0x90, 0x91}"
  note sw = switch_movx_wr [OF wr, of "sys\<lparr>cpu := snd (ft (cpu sys))\<rparr>"]
  show "xram (cpu (fst (i8048_exec sys))) =
          (xram (cpu sys))(256 * unat (P1 (cpu sys) AND 3) + unat (getR (cpu sys) (op AND 1))
                            := A (cpu sys))"
    by (simp add: i8048_exec_unfold assms sw upd_cpu_def xram_exec_post Let_def
        xram_wr_def getR_def R_def ft_frame flip: xram_addr_eq)
       (simp add: xram_addr_def ft_frame)
  show "av_disp (fst (i8048_exec sys)) = av_disp sys"
    by (simp add: i8048_exec_unfold assms sw upd_cpu_def)
next
  assume "P1 (cpu sys) = 0x03 \<and> getR (cpu sys) (op AND 1) = 0x55"
  then show "256 * unat (P1 (cpu sys) AND 3) + unat (getR (cpu sys) (op AND 1)) = 0x355"
    by simp
qed

theorem movx_semantics_witness:
  "rom_rd (cpu movx_rd_av) (PC (cpu movx_rd_av)) = 0x80
   \<and> A (cpu (fst (i8048_exec movx_rd_av))) = 0x5A
   \<and> led_reg (av_disp movx_rd_av) 0 = 0xFF
   \<and> led_reg (av_disp (fst (i8048_exec movx_rd_av))) 0 = 0x5A
   \<and> rom_rd (cpu movx_wr_av) (PC (cpu movx_wr_av)) = 0x90
   \<and> xram (cpu movx_wr_av) 0x355 = 0xFF
   \<and> xram (cpu (fst (i8048_exec movx_wr_av))) 0x355 = 0x77
   \<and> av_disp (fst (i8048_exec movx_wr_av)) = av_disp movx_wr_av"
proof -
  have rd: "rom_rd (cpu movx_rd_av) (PC (cpu movx_rd_av)) = 0x80"
    by (simp add: movx_rd_av_def init_defs rom_rd_def)
  have wr: "rom_rd (cpu movx_wr_av) (PC (cpu movx_wr_av)) = 0x90"
    by (simp add: movx_wr_av_def init_defs rom_rd_def)
  show ?thesis
    using rd wr movx_semantics [OF rd] movx_semantics [OF wr]
    by (simp add: movx_rd_av_def movx_wr_av_def init_defs getR_def R_def led_reg_decode_def)
qed

section \<open>The frame step\<close>

text \<open>
  C4, as the specification states it: every frame step executes the CPU for exactly
  48,889 cycles. The code does otherwise: the loop runs whole instructions while
  \<^verbatim>\<open>elapsed < 48889\<close>, so a two-cycle instruction begun at cycle 48,888 ends the frame
  at 48,890. On a program of two-cycle jumps the frame step executes 48,890 cycles, as
  the local \<^verbatim>\<open>elapsed\<close> and the CPU's own cycle counter both show.
\<close>

theorem frame_of_jumps_takes_48890:
  "frame_cycles jmp_self_av = 48890
   \<and> \<not> frame_stopped jmp_self_av
   \<and> cycles (cpu jmp_self_av) = 0
   \<and> cycles (cpu (av_run_frame jmp_self_av)) = 48890"
proof -
  have fc: "frame_cycles jmp_self_av = 48890"
    using spinning_loop [OF jmp_self_spinning, of 0]
    by (simp add: frame_cycles_def CYCLES_PER_FR_def)
  have c0: "cycles (cpu jmp_self_av) = 0"
    by (simp add: jmp_self_av_def init_defs)
  have inact: "dbg_quiet (dbg jmp_self_av)"
    by (simp add: dbg_quiet_def jmp_self_av_def init_defs)
  from frame_props [OF inact]
  have st: "\<not> frame_stopped jmp_self_av"
    and "cycles (cpu (av_run_frame jmp_self_av)) =
           cycles (cpu jmp_self_av) + word_of_int (frame_cycles jmp_self_av)"
    by blast+
  then have "cycles (cpu (av_run_frame jmp_self_av)) = 48890"
    by (simp only: fc c0) simp
  with fc c0 st show ?thesis by blast
qed

text \<open>
  C4, amended: every frame step executes whole instructions until at least 48,889 cycles
  have elapsed, which makes 48,889 or 48,890 cycles (the CPU's cycle counter advances by
  that number), and then runs the end of the frame: the display update on the state the
  loop left, after the capture of all columns when that applies. This is so with the
  debugger inactive, and with the debugger active when no breakpoint is set and it is not
  single-stepping; the frame step leaves the debugger's state as it was. The program
  has no other frame steps: it never sets a breakpoint, and does not call the frame step
  while single-stepping.
\<close>

theorem frame_step_cycles:
  assumes "dbg_active (dbg av) \<longrightarrow> dbg_bp_count (dbg av) \<le> 0 \<and> \<not> dbg_stepping (dbg av)"
  shows "(frame_cycles av = 48889 \<or> frame_cycles av = 48890)
       \<and> \<not> frame_stopped av
       \<and> cycles (cpu (av_run_frame av)) = cycles (cpu av) + word_of_int (frame_cycles av)
       \<and> av_run_frame av = frame_end (fst (av_run_loop (frame_begin av) 0))
       \<and> av_disp (av_run_frame av) =
           disp_update (av_disp (capture_all (fst (av_run_loop (frame_begin av) 0))))
             (cfg_phosphor (capture_all (fst (av_run_loop (frame_begin av) 0))))
       \<and> dbg (av_run_frame av) = dbg av"
proof -
  have quiet: "dbg_quiet (dbg av)" using assms by (simp add: dbg_quiet_def)
  from frame_props [OF quiet]
  have rng: "frame_cycles av = CYCLES_PER_FR \<or> frame_cycles av = CYCLES_PER_FR + 1"
    and st: "\<not> frame_stopped av"
    and run: "av_run_frame av = frame_end (fst (av_run_loop (frame_begin av) 0))"
    and cyc: "cycles (cpu (av_run_frame av)) = cycles (cpu av) + word_of_int (frame_cycles av)"
    and dg: "dbg (av_run_frame av) = dbg av"
    by blast+
  have rng': "frame_cycles av = 48889 \<or> frame_cycles av = 48890"
    using rng by (simp add: CYCLES_PER_FR_def)
  have dsp: "av_disp (av_run_frame av) =
           disp_update (av_disp (capture_all (fst (av_run_loop (frame_begin av) 0))))
             (cfg_phosphor (capture_all (fst (av_run_loop (frame_begin av) 0))))"
    unfolding run by (rule frame_end_disp)
  from rng' st cyc run dsp dg show ?thesis by blast
qed

theorem frame_step_cycles_witness:
  "dbg_active (dbg dbg_on_av) \<and> dbg_bp_count (dbg dbg_on_av) = 0
   \<and> \<not> dbg_stepping (dbg dbg_on_av)
   \<and> frame_cycles dbg_on_av = 48889
   \<and> \<not> frame_stopped dbg_on_av
   \<and> cycles (cpu (av_run_frame dbg_on_av)) = 48889
   \<and> dbg_active (dbg (av_run_frame dbg_on_av))"
proof -
  have g: "dbg_active (dbg dbg_on_av) \<and> dbg_bp_count (dbg dbg_on_av) = 0
      \<and> \<not> dbg_stepping (dbg dbg_on_av)"
    by (simp add: dbg_on_av_def init_defs)
  then have hyp: "dbg_active (dbg dbg_on_av) \<longrightarrow>
      dbg_bp_count (dbg dbg_on_av) \<le> 0 \<and> \<not> dbg_stepping (dbg dbg_on_av)"
    by simp
  have fc: "frame_cycles dbg_on_av = 48889"
    using idling_loop [OF dbg_on_av_idling, of 0]
    by (simp add: frame_cycles_def CYCLES_PER_FR_def)
  have c0: "cycles (cpu dbg_on_av) = 0"
    by (simp add: dbg_on_av_def init_defs)
  from frame_step_cycles [OF hyp]
  have st: "\<not> frame_stopped dbg_on_av"
    and dg: "dbg (av_run_frame dbg_on_av) = dbg dbg_on_av"
    and "cycles (cpu (av_run_frame dbg_on_av)) =
           cycles (cpu dbg_on_av) + word_of_int (frame_cycles dbg_on_av)"
    by blast+
  then have cy: "cycles (cpu (av_run_frame dbg_on_av)) = 48889"
    by (simp only: fc c0) simp
  have "dbg_active (dbg (av_run_frame dbg_on_av))" using g by (simp only: dg)
  with g fc st cy show ?thesis by blast
qed

section \<open>The end-of-frame display update\<close>

text \<open>
  C9: \<^verbatim>\<open>disp_update\<close> first multiplies every pixel by the decay constant and floors a
  value below 0.01 to 0, then sets to 1 every pixel of a captured column whose bit is
  clear. So on every display state the emulator can reach, with a decay constant in
  [0,1], every pixel afterwards is 1 if it is lit and its decayed and floored previous
  value otherwise, and lies in [0,1]. The product is the one of the code, of two
  \<^verbatim>\<open>float\<close> values and rounded to binary32, and 0.01 is the constant \<^verbatim>\<open>0.01f\<close> of the
  code.
\<close>

theorem disp_update_phosphor_values:
  assumes "0 \<le> k" and "k \<le> 1" and "disp_reach d"
  shows "\<forall>i. 0 \<le> i \<and> i < SW * SH \<longrightarrow>
           phosphor (disp_update d k) i =
             (if lit d i then 1 else floor01 (f32_mul (phosphor d i) k))
         \<and> 0 \<le> phosphor (disp_update d k) i \<and> phosphor (disp_update d k) i \<le> 1"
  using disp_reach_phosphor [OF reach_update [OF assms(3,1,2)]]
  by (simp add: disp_update_phosphor)

theorem disp_update_phosphor_values_witness:
  "disp_reach one_led_disp
   \<and> lit one_led_disp 5850
   \<and> phosphor one_led_disp 5850 = 0
   \<and> phosphor (disp_update one_led_disp DEF_PHOSPHOR) 5850 = 1
   \<and> phosphor (disp_update (disp_update one_led_disp DEF_PHOSPHOR) DEF_PHOSPHOR) 5850
       = 15099494 / 33554432
   \<and> phosphor (disp_update (disp_update (disp_update one_led_disp DEF_PHOSPHOR) DEF_PHOSPHOR)
         DEF_PHOSPHOR) 5850 = 13589544 / 67108864
   \<and> phosphor (disp_update (disp_update one_led_disp DEF_PHOSPHOR) FLT_0_01) 5850
       = 5368709 / 536870912"
proof -
  let ?d1 = "disp_update one_led_disp DEF_PHOSPHOR"
  let ?d2 = "disp_update ?d1 DEF_PHOSPHOR"
  have k: "0 \<le> DEF_PHOSPHOR" "DEF_PHOSPHOR \<le> 1" by (simp_all add: DEF_PHOSPHOR_def)
  have k': "0 \<le> FLT_0_01" "FLT_0_01 \<le> 1" by (simp_all add: FLT_0_01_def)
  have r0: "disp_reach one_led_disp" by (rule one_led_disp_reach)
  have r1: "disp_reach ?d1" using r0 k by (rule reach_update)
  have r2: "disp_reach ?d2" using r1 k by (rule reach_update)
  have ix: "(0::int) \<le> 5850 \<and> (5850::int) < SW * SH" by (simp add: SW_def SH_def)
  have dark1: "\<not> lit ?d1 5850" by (rule not_lit_without_columns [OF cols_captured_disp_update])
  have dark2: "\<not> lit ?d2 5850" by (rule not_lit_without_columns [OF cols_captured_disp_update])
  from disp_update_phosphor_values [OF k r0, THEN spec, of 5850] ix
  have "phosphor ?d1 5850 =
          (if lit one_led_disp 5850 then 1
           else floor01 (f32_mul (phosphor one_led_disp 5850) DEF_PHOSPHOR))"
    by blast
  then have p1: "phosphor ?d1 5850 = 1"
    by (simp only: one_led_disp_lit if_True)
  from disp_update_phosphor_values [OF k r1, THEN spec, of 5850] ix
  have "phosphor ?d2 5850 =
          (if lit ?d1 5850 then 1 else floor01 (f32_mul (phosphor ?d1 5850) DEF_PHOSPHOR))"
    by blast
  then have "phosphor ?d2 5850 = floor01 DEF_PHOSPHOR"
    by (simp only: dark1 if_False p1 f32_mul_1_decay)
  then have p2: "phosphor ?d2 5850 = DEF_PHOSPHOR"
    by (simp add: floor01_def DEF_PHOSPHOR_def FLT_0_01_def)
  from disp_update_phosphor_values [OF k r2, THEN spec, of 5850] ix
  have "phosphor (disp_update ?d2 DEF_PHOSPHOR) 5850 =
          (if lit ?d2 5850 then 1 else floor01 (f32_mul (phosphor ?d2 5850) DEF_PHOSPHOR))"
    by blast
  then have "phosphor (disp_update ?d2 DEF_PHOSPHOR) 5850 = floor01 (13589544 / 67108864)"
    by (simp only: dark2 if_False p2 f32_mul_decay_decay)
  then have p3: "phosphor (disp_update ?d2 DEF_PHOSPHOR) 5850 = 13589544 / 67108864"
    by (simp add: floor01_def FLT_0_01_def)
  from disp_update_phosphor_values [OF k' r1, THEN spec, of 5850] ix
  have "phosphor (disp_update ?d1 FLT_0_01) 5850 =
          (if lit ?d1 5850 then 1 else floor01 (f32_mul (phosphor ?d1 5850) FLT_0_01))"
    by blast
  then have "phosphor (disp_update ?d1 FLT_0_01) 5850 = floor01 FLT_0_01"
    by (simp only: dark1 if_False p1 f32_mul_1_floor)
  then have p4: "phosphor (disp_update ?d1 FLT_0_01) 5850 = 5368709 / 536870912"
    by (simp add: floor01_def FLT_0_01_def)
  have p2': "phosphor ?d2 5850 = 15099494 / 33554432"
    using p2 by (simp add: DEF_PHOSPHOR_def)
  from r0 p1 p2' p3 p4 one_led_disp_lit one_led_disp_values show ?thesis by blast
qed

section \<open>The column snapshot buffer\<close>

text \<open>
  C10: after any sequence of P2.4 strobes and capture requests, for any column numbers,
  no cell outside \<^verbatim>\<open>col_data[0..149][0..4]\<close> has been written; the captured-column count
  stays at most 150 if it was, and the count the update consumes is at most 150 in any
  case; the end-of-frame update resets the count to 0; and a strobe at a column counter
  of 150 or more changes nothing but the counter and the LED-active flag.
\<close>

theorem col_data_writes_in_bounds:
  "(\<forall>c i. \<not> (0 \<le> c \<and> c < SW \<and> 0 \<le> i \<and> i < 5) \<longrightarrow>
       col_data (disp_run d es) c i = col_data d c i)
   \<and> (cols_captured d \<le> SW \<longrightarrow> cols_captured (disp_run d es) \<le> SW)
   \<and> update_cols (disp_run d es) \<le> 150
   \<and> cols_captured (disp_update (disp_run d es) k) = 0
   \<and> (SW \<le> led_col d \<longrightarrow>
        disp_latch_led_column d = d\<lparr>led_col := led_col d + 1, led_active := True\<rparr>)"
  using disp_run_col_frame [of d es] disp_run_cols [of d es] latch_beyond [of d]
  by (simp add: col_frame_def update_cols_def Let_def disp_update_def SW_def)

theorem col_data_writes_in_bounds_witness:
  "col_data (disp_run (av_disp av_init) (replicate 151 Strobe @ [Capture (\<lambda>a. 0x00) 150])) 150 0
     = col_data (av_disp av_init) 150 0
   \<and> col_data (disp_run (av_disp av_init) (replicate 151 Strobe @ [Capture (\<lambda>a. 0x00) 150])) 0 5
     = col_data (av_disp av_init) 0 5
   \<and> cols_captured (av_disp av_init) \<le> SW
   \<and> cols_captured (disp_run (av_disp av_init) (replicate 151 Strobe @ [Capture (\<lambda>a. 0x00) 150]))
     \<le> 150
   \<and> cols_captured (disp_update
         (disp_run (av_disp av_init) (replicate 151 Strobe @ [Capture (\<lambda>a. 0x00) 150])) 0.45) = 0
   \<and> SW \<le> led_col ((av_disp av_init)\<lparr>led_col := 150\<rparr>)
   \<and> disp_latch_led_column ((av_disp av_init)\<lparr>led_col := 150\<rparr>)
     = (av_disp av_init)\<lparr>led_col := 151, led_active := True\<rparr>"
proof -
  let ?es = "replicate 151 Strobe @ [Capture (\<lambda>a. 0x00) 150]"
  have c0: "cols_captured (av_disp av_init) \<le> SW"
    by (simp add: init_defs SW_def)
  have l0: "SW \<le> led_col ((av_disp av_init)\<lparr>led_col := 150\<rparr>)"
    by (simp add: SW_def)
  note run = col_data_writes_in_bounds [of "av_disp av_init" ?es "0.45"]
  note str = col_data_writes_in_bounds [of "(av_disp av_init)\<lparr>led_col := 150\<rparr>" "[]" "0.45"]
  from run have a: "col_data (disp_run (av_disp av_init) ?es) 150 0 = col_data (av_disp av_init) 150 0"
    by (simp add: SW_def)
  from run have b: "col_data (disp_run (av_disp av_init) ?es) 0 5 = col_data (av_disp av_init) 0 5"
    by (simp add: SW_def)
  from run c0 have c: "cols_captured (disp_run (av_disp av_init) ?es) \<le> 150"
    by (simp add: SW_def)
  from run have d: "cols_captured (disp_update (disp_run (av_disp av_init) ?es) 0.45) = 0"
    by blast
  from str l0 have e: "disp_latch_led_column ((av_disp av_init)\<lparr>led_col := 150\<rparr>)
     = (av_disp av_init)\<lparr>led_col := 151, led_active := True\<rparr>"
    by (simp add: SW_def)
  from a b c0 c d l0 e show ?thesis by blast
qed

section \<open>Loading a saved state\<close>

text \<open>
  C5, as stated: after every accepted load the sound engine has \<^verbatim>\<open>step_count\<close> in
  [0, 16] and \<^verbatim>\<open>cur_step\<close> in [0, \<^verbatim>\<open>step_count\<close>). The code does not do this: the file
  with a valid header and a body of zeros is accepted and leaves \<^verbatim>\<open>step_count = 0\<close> and
  \<^verbatim>\<open>cur_step = 0\<close>, so \<^verbatim>\<open>cur_step\<close> is not below \<^verbatim>\<open>step_count\<close>.
\<close>

theorem load_state_zero_steps_cur_step_not_below:
  "fst (load_state av_init (Some zero_state_file))
   \<and> step_count (av_snd (snd (load_state av_init (Some zero_state_file)))) = 0
   \<and> cur_step (av_snd (snd (load_state av_init (Some zero_state_file)))) = 0
   \<and> \<not> cur_step (av_snd (snd (load_state av_init (Some zero_state_file))))
        < step_count (av_snd (snd (load_state av_init (Some zero_state_file))))"
  using zero_load by simp

text \<open>
  C5, amended: after every accepted load, whatever the file holds, \<^verbatim>\<open>step_count\<close> is in
  [0, 16] and \<^verbatim>\<open>cur_step\<close> is not negative; \<^verbatim>\<open>cur_step\<close> is below \<^verbatim>\<open>step_count\<close>,
  or both are 0.
\<close>

theorem load_state_step_range:
  assumes "fst (load_state av src)"
  shows "0 \<le> step_count (av_snd (snd (load_state av src)))
       \<and> step_count (av_snd (snd (load_state av src))) \<le> 16
       \<and> 0 \<le> cur_step (av_snd (snd (load_state av src)))
       \<and> (cur_step (av_snd (snd (load_state av src))) < step_count (av_snd (snd (load_state av src)))
          \<or> (step_count (av_snd (snd (load_state av src))) = 0
              \<and> cur_step (av_snd (snd (load_state av src))) = 0))"
proof -
  from load_state_success [OF assms] obtain s
    where "av_snd (snd (load_state av src)) = sanitize_snd s" ..
  then show ?thesis using sanitize_snd_range [of s] by simp
qed

theorem load_state_step_range_witness:
  "fst (load_state av_init (Some playing_state_file))
   \<and> step_count (av_snd (snd (load_state av_init (Some playing_state_file)))) = 3
   \<and> cur_step (av_snd (snd (load_state av_init (Some playing_state_file)))) = 2
   \<and> fst (load_state av_init (Some crafted_state_file))
   \<and> step_count (av_snd (snd (load_state av_init (Some crafted_state_file)))) = 0
   \<and> cur_step (av_snd (snd (load_state av_init (Some crafted_state_file)))) = 0"
  using load_state_step_range [of av_init "Some playing_state_file"]
    load_state_step_range [of av_init "Some crafted_state_file"]
    playing_load crafted_load
  by simp

text \<open>
  C8: \<^verbatim>\<open>load_state\<close> returns failure exactly when the file cannot be opened, is shorter
  than the 1433 bytes of a saved state (a short read of the magic, of the version or of a
  field), has another magic or has another version; and when it returns failure, the whole
  system, with the CPU, its RAMs and ROM images, and the sound processor, is what it was
  before the call.
\<close>

theorem load_state_failure_restores:
  "(fst (load_state av src) \<longleftrightarrow>
      (\<exists>f. src = Some f \<and> 1433 \<le> length f \<and> le_word (take 4 f) = SAVE_MAGIC
         \<and> le_word (take 4 (drop 4 f)) = SAVE_VER))
   \<and> (\<not> fst (load_state av src) \<longrightarrow> snd (load_state av src) = av)"
  using load_state_ok_iff [of av src] load_state_restores [of av src]
  by auto

theorem load_state_failure_restores_witness:
  "\<not> fst (load_state dirty_av (Some truncated_state_file))
   \<and> snd (load_state dirty_av (Some truncated_state_file)) = dirty_av
   \<and> \<not> fst (load_state dirty_av None)
   \<and> snd (load_state dirty_av None) = dirty_av"
  using load_state_failure_restores [of dirty_av "Some truncated_state_file"]
    load_state_failure_restores [of dirty_av None]
  by (simp add: truncated_state_file_def save_header_def)

end
